theory Spec2Isabelle
  imports Main "HOL-Library.Word" "HOL-Library.Multiset"
begin

section \<open>JavaScript strings\<close>

text \<open>
  A JavaScript string is a sequence of 16-bit code units. ASCII literals of the
  source are written through \<open>ascii\<close>.
\<close>

type_synonym jsstring = "16 word list"

definition ascii :: "string \<Rightarrow> jsstring" where
  "ascii s = map (\<lambda>c. of_nat (of_char c)) s"

definition SPACE :: "16 word" where
  "SPACE = 0x20"

definition NBSP :: "16 word" where
  "NBSP = 0xA0"

text \<open>
  The class \<open>\s\<close> of an ECMAScript regular expression, which is also the set that
  \<open>String.prototype.trim\<close> strips: TAB, LF, VT, FF, CR, SPACE, NBSP, U+1680,
  U+2000..U+200A, U+2028, U+2029, U+202F, U+205F, U+3000 and U+FEFF.
\<close>

definition is_ws :: "16 word \<Rightarrow> bool" where
  "is_ws c = (c = 0x09 \<or> c = 0x0A \<or> c = 0x0B \<or> c = 0x0C \<or> c = 0x0D \<or> c = 0x20
     \<or> c = 0xA0 \<or> c = 0x1680 \<or> (0x2000 \<le> c \<and> c \<le> 0x200A)
     \<or> c = 0x2028 \<or> c = 0x2029 \<or> c = 0x202F \<or> c = 0x205F \<or> c = 0x3000
     \<or> c = 0xFEFF)"

definition non_ws :: "16 word \<Rightarrow> bool" where
  "non_ws c = (\<not> is_ws c)"

section \<open>Helpers of the scraper\<close>

subsection \<open>cleanText\<close>

text \<open>
  \<open>.replace(/\s+/g, " ")\<close>: every maximal run of whitespace code units is replaced
  by one space.
\<close>

function collapse_ws :: "jsstring \<Rightarrow> jsstring" where
  "collapse_ws [] = []"
| "collapse_ws (c # cs) =
     (if is_ws c then SPACE # collapse_ws (dropWhile is_ws cs) else c # collapse_ws cs)"
  by pat_completeness auto
termination
  by (relation "measure length") (auto simp: length_dropWhile_le less_Suc_eq_le)

text \<open>\<open>.replace(/U+00A0/g, " ")\<close>, written with the escape for U+00A0 in the source.\<close>

definition replace_nbsp :: "jsstring \<Rightarrow> jsstring" where
  "replace_nbsp s = map (\<lambda>c. if c = NBSP then SPACE else c) s"

text \<open>\<open>.trim()\<close>\<close>

definition trim :: "jsstring \<Rightarrow> jsstring" where
  "trim s = rev (dropWhile is_ws (rev (dropWhile is_ws s)))"

text \<open>
  \<open>cleanText(s)\<close>, lines 36-42. Every caller passes the result of cheerio's
  \<open>.text()\<close>, a string, so the falsy case of \<open>if (!s)\<close> is the empty string.
\<close>

definition cleanText :: "jsstring \<Rightarrow> jsstring" where
  "cleanText s = (if s = [] then [] else trim (replace_nbsp (collapse_ws s)))"

subsection \<open>Whitespace-separated words (the reading of the specification)\<close>

text \<open>
  The maximal runs of non-whitespace code units of a string, in order, and their
  concatenation with one space between neighbours. This is what "collapse every run
  of whitespace to one space and trim both ends" denotes.
\<close>

function ws_words :: "jsstring \<Rightarrow> jsstring list" where
  "ws_words s =
     (case dropWhile is_ws s of
        [] \<Rightarrow> []
      | c # cs \<Rightarrow> takeWhile non_ws (c # cs) # ws_words (dropWhile non_ws (c # cs)))"
  by pat_completeness auto
termination
proof (relation "measure length")
  show "wf (measure length)" by simp
next
  fix s :: jsstring and c cs
  assume a: "dropWhile is_ws s = c # cs"
  have "non_ws c"
    using a hd_dropWhile [of is_ws s] by (auto simp: non_ws_def)
  then have "length (dropWhile non_ws (c # cs)) \<le> length cs"
    by (simp add: length_dropWhile_le)
  also have "length cs < length (dropWhile is_ws s)"
    using a by simp
  also have "\<dots> \<le> length s"
    by (rule length_dropWhile_le)
  finally show "(dropWhile non_ws (c # cs), s) \<in> measure length"
    by simp
qed

declare ws_words.simps [simp del]

fun join_space :: "jsstring list \<Rightarrow> jsstring" where
  "join_space [] = []"
| "join_space [w] = w"
| "join_space (w # v # vs) = w @ SPACE # join_space (v # vs)"

definition rtrim :: "jsstring \<Rightarrow> jsstring" where
  "rtrim s = rev (dropWhile is_ws (rev s))"

subsection \<open>JavaScript values that may be undefined\<close>

text \<open>
  An attribute read (\<open>.attr(name)\<close>) is a string or \<open>undefined\<close>. A value is truthy
  when it is a non-empty string; \<open>a || b\<close> is \<open>a\<close> when \<open>a\<close> is truthy and \<open>b\<close> otherwise.
\<close>

definition truthy :: "jsstring option \<Rightarrow> bool" where
  "truthy v = (case v of None \<Rightarrow> False | Some s \<Rightarrow> s \<noteq> [])"

definition js_or :: "jsstring option \<Rightarrow> jsstring option \<Rightarrow> jsstring option" where
  "js_or a b = (if truthy a then a else b)"

subsection \<open>absolutizeUrl\<close>

text \<open>
  \<open>new URL(rel, base).toString()\<close> is the WHATWG URL parser of the runtime, which is
  not part of the repository: it is a parameter, \<open>None\<close> when the constructor throws.
\<close>

type_synonym url_parser = "jsstring \<Rightarrow> jsstring \<Rightarrow> jsstring option"

text \<open>\<open>absolutizeUrl(maybeRelative, pageUrl)\<close>, lines 44-51.\<close>

definition absolutizeUrl :: "url_parser \<Rightarrow> jsstring option \<Rightarrow> jsstring \<Rightarrow> jsstring" where
  "absolutizeUrl new_URL maybeRelative pageUrl =
     (case maybeRelative of
        None \<Rightarrow> []
      | Some rel \<Rightarrow>
          if rel = [] then []
          else (case new_URL rel pageUrl of Some u \<Rightarrow> u | None \<Rightarrow> rel))"

section \<open>The document tree and cheerio's selections\<close>

text \<open>
  \<open>cheerio.load(html)\<close> yields a tree of elements, text nodes and comments. An
  element has a tag name, its attributes in source order and its child nodes.
\<close>

datatype node =
    Element jsstring "(jsstring \<times> jsstring) list" "node list"
  | Text jsstring
  | Comment jsstring

fun kids :: "node \<Rightarrow> node list" where
  "kids (Element t a cs) = cs"
| "kids (Text s) = []"
| "kids (Comment s) = []"

fun is_element :: "node \<Rightarrow> bool" where
  "is_element (Element t a cs) = True"
| "is_element (Text s) = False"
| "is_element (Comment s) = False"

text \<open>A node followed by all its descendants, in document order.\<close>

fun subtree :: "node \<Rightarrow> node list" where
  "subtree (Element t a cs) = Element t a cs # concat (map subtree cs)"
| "subtree (Text s) = [Text s]"
| "subtree (Comment s) = [Comment s]"

definition descendants :: "node \<Rightarrow> node list" where
  "descendants n = concat (map subtree (kids n))"

text \<open>The text content of a node: the text nodes below it, concatenated.\<close>

fun textContent :: "node \<Rightarrow> jsstring" where
  "textContent (Element t a cs) = concat (map textContent cs)"
| "textContent (Text s) = s"
| "textContent (Comment s) = []"

fun attr_of :: "string \<Rightarrow> node \<Rightarrow> jsstring option" where
  "attr_of name (Element t a cs) = map_of a (ascii name)"
| "attr_of name (Text s) = None"
| "attr_of name (Comment s) = None"

subsection \<open>Selectors\<close>

fun is_tag :: "string \<Rightarrow> node \<Rightarrow> bool" where
  "is_tag name (Element t a cs) = (t = ascii name)"
| "is_tag name (Text s) = False"
| "is_tag name (Comment s) = False"

text \<open>
  \<open>.name\<close>: the class attribute, split at whitespace, holds the name.
\<close>

definition has_class :: "string \<Rightarrow> node \<Rightarrow> bool" where
  "has_class name n =
     (case attr_of ''class'' n of
        None \<Rightarrow> False
      | Some v \<Rightarrow> ascii name \<in> set (ws_words v))"

definition has_attr :: "string \<Rightarrow> node \<Rightarrow> bool" where
  "has_attr name n = (attr_of name n \<noteq> None)"

text \<open>\<open>div.name\<close>\<close>

definition div_class :: "string \<Rightarrow> node \<Rightarrow> bool" where
  "div_class name n = (is_tag ''div'' n \<and> has_class name n)"

subsection \<open>Selections\<close>

text \<open>
  A selection is the list of its elements in document order. \<open>$(sel)\<close> searches the
  whole document; \<open>.find(sel)\<close> searches below the elements of a selection (every
  use in the source is on a selection of at most one element, for which the list
  below is duplicate free and in document order).
\<close>

type_synonym selection = "node list"

definition select :: "node list \<Rightarrow> (node \<Rightarrow> bool) \<Rightarrow> selection" where
  "select doc sel = filter sel (concat (map subtree doc))"

definition find_sel :: "(node \<Rightarrow> bool) \<Rightarrow> selection \<Rightarrow> selection" where
  "find_sel sel s = concat (map (\<lambda>n. filter sel (descendants n)) s)"

definition first :: "selection \<Rightarrow> selection" where
  "first s = take 1 s"

definition children_sel :: "selection \<Rightarrow> selection" where
  "children_sel s = concat (map (\<lambda>n. filter is_element (kids n)) s)"

definition text_sel :: "selection \<Rightarrow> jsstring" where
  "text_sel s = concat (map textContent s)"

fun attr_sel :: "string \<Rightarrow> selection \<Rightarrow> jsstring option" where
  "attr_sel name [] = None"
| "attr_sel name (n # ns) = attr_of name n"

section \<open>The style attribute's background image\<close>

text \<open>
  \<open>style.match(/background-image\s*:\s*url\((['"]?)(.*?)\1\)/i)\<close>, line 118, as the
  backtracking matcher runs it. Under the flag \<open>i\<close> (without \<open>u\<close>) a pattern letter
  matches its ASCII upper and lower case only. \<open>.\<close> matches every code unit but a
  line terminator.
\<close>

definition to_lower :: "16 word \<Rightarrow> 16 word" where
  "to_lower c = (if 0x41 \<le> c \<and> c \<le> 0x5A then c + 0x20 else c)"

definition is_line_terminator :: "16 word \<Rightarrow> bool" where
  "is_line_terminator c = (c = 0x0A \<or> c = 0x0D \<or> c = 0x2028 \<or> c = 0x2029)"

definition is_quote :: "16 word \<Rightarrow> bool" where
  "is_quote c = (c = 0x27 \<or> c = 0x22)"

definition COLON :: "16 word" where
  "COLON = 0x3A"

definition RPAREN :: "16 word" where
  "RPAREN = 0x29"

text \<open>A literal of the pattern at the head of the input; the rest of the input.\<close>

fun match_ci :: "jsstring \<Rightarrow> jsstring \<Rightarrow> jsstring option" where
  "match_ci [] s = Some s"
| "match_ci (p # ps) [] = None"
| "match_ci (p # ps) (c # cs) = (if to_lower p = to_lower c then match_ci ps cs else None)"

text \<open>
  \<open>(.*?)\<close> followed by the literal \<open>suf\<close>: the shortest run of code units, none a
  line terminator, after which \<open>suf\<close> stands.
\<close>

fun lazy_until :: "jsstring \<Rightarrow> jsstring \<Rightarrow> jsstring option" where
  "lazy_until suf [] = (if suf = [] then Some [] else None)"
| "lazy_until suf (c # cs) =
     (if take (length suf) (c # cs) = suf then Some []
      else if is_line_terminator c then None
      else map_option ((#) c) (lazy_until suf cs))"

text \<open>
  The pattern anchored at the head of the input; the result is group 2. The two
  \<open>\s*\<close> are greedy and what follows each is no whitespace, so giving back
  whitespace never helps. The optional quote is tried first; when the rest then
  fails, the group is retried empty.
\<close>

definition match_here :: "jsstring \<Rightarrow> jsstring option" where
  "match_here s =
     (case match_ci (ascii ''background-image'') s of
        None \<Rightarrow> None
      | Some s1 \<Rightarrow>
         (case dropWhile is_ws s1 of
            [] \<Rightarrow> None
          | c # s3 \<Rightarrow>
             if c \<noteq> COLON then None
             else (case match_ci (ascii ''url('') (dropWhile is_ws s3) of
                None \<Rightarrow> None
              | Some s5 \<Rightarrow>
                 (case s5 of
                    [] \<Rightarrow> None
                  | q # s6 \<Rightarrow>
                     if is_quote q then
                       (case lazy_until [q, RPAREN] s6 of
                          Some g \<Rightarrow> Some g
                        | None \<Rightarrow> lazy_until [RPAREN] s5)
                     else lazy_until [RPAREN] s5))))"

text \<open>The leftmost match: group 2 of it, or \<open>None\<close> when \<open>match\<close> returns null.\<close>

fun match_background :: "jsstring \<Rightarrow> jsstring option" where
  "match_background [] = match_here []"
| "match_background (c # cs) =
     (case match_here (c # cs) of Some g \<Rightarrow> Some g | None \<Rightarrow> match_background cs)"

section \<open>extractPageData\<close>

datatype error =
    TypeError
  | NullTypeError
  | AxiosError jsstring
  | XmlError jsstring
  | FsError jsstring
  | UnknownSitemapFormat
  | NoSource

record tile =
  heading :: jsstring
  description :: jsstring
  linkTitle :: jsstring
  linkUrl :: jsstring

record page =
  url :: jsstring
  banner_image :: jsstring
  banner_title :: jsstring
  banner_description :: jsstring
  banner_button_text :: jsstring
  banner_button_link :: jsstring
  main_description :: jsstring
  video_heading :: jsstring
  video_embed_url :: jsstring
  tile1_heading :: jsstring
  tile1_description :: jsstring
  tile1_link_title :: jsstring
  tile1_link_url :: jsstring
  tile2_heading :: jsstring
  tile2_description :: jsstring
  tile2_link_title :: jsstring
  tile2_link_url :: jsstring
  tile3_heading :: jsstring
  tile3_description :: jsstring
  tile3_link_title :: jsstring
  tile3_link_url :: jsstring

text \<open>Lines 110-120: the banner image.\<close>

definition bannerImage :: "url_parser \<Rightarrow> selection \<Rightarrow> jsstring \<Rightarrow> jsstring" where
  "bannerImage new_URL banner pageUrl =
     (let imgSrc = attr_sel ''src'' (first (find_sel (is_tag ''img'') banner)) in
      if truthy imgSrc then absolutizeUrl new_URL imgSrc pageUrl
      else
        (let style = (case js_or (attr_sel ''style'' banner) (Some []) of
                        Some v \<Rightarrow> v | None \<Rightarrow> [])
         in case match_background style of
              None \<Rightarrow> []
            | Some m2 \<Rightarrow> if m2 \<noteq> [] then absolutizeUrl new_URL (Some m2) pageUrl else []))"

text \<open>Lines 124-126: \<open>cleanText(h1) || cleanText(h2)\<close>.\<close>

definition bannerTitle :: "selection \<Rightarrow> jsstring" where
  "bannerTitle banner =
     (let t1 = cleanText (text_sel (first (find_sel (is_tag ''h1'') banner))) in
      if t1 \<noteq> [] then t1
      else cleanText (text_sel (first (find_sel (is_tag ''h2'') banner))))"

text \<open>Lines 131-135: the first anchor or button with visible text.\<close>

definition bannerBtn :: "selection \<Rightarrow> selection" where
  "bannerBtn banner =
     first (filter (\<lambda>el. 0 < length (cleanText (text_sel [el])))
              (find_sel (\<lambda>n. is_tag ''a'' n \<or> is_tag ''button'' n) banner))"

text \<open>Lines 148-156: the value handed to \<open>absolutizeUrl\<close> for the video.\<close>

definition videoSource :: "selection \<Rightarrow> jsstring option" where
  "videoSource video =
     (let iframeSrc = attr_sel ''src'' (first (find_sel (is_tag ''iframe'') video));
          aHref = attr_sel ''href'' (first (find_sel (is_tag ''a'') video));
          dataSrc = attr_sel ''data-src'' (first (find_sel (has_attr ''data-src'') video))
      in js_or (js_or (js_or iframeSrc dataSrc) aHref) (Some []))"

text \<open>Lines 163-167: the tile candidates.\<close>

definition tile_selector :: "node \<Rightarrow> bool" where
  "tile_selector n =
     (has_class ''tile'' n \<or> has_class ''card'' n \<or> is_tag ''article'' n \<or> is_tag ''li'' n
      \<or> has_class ''related-article'' n)"

definition tileItems :: "selection \<Rightarrow> selection" where
  "tileItems tilesWrap =
     (let items = find_sel tile_selector tilesWrap in
      if length items = 0 then children_sel tilesWrap else items)"

text \<open>Lines 172-179: the four fields read from one candidate.\<close>

definition tile_of :: "url_parser \<Rightarrow> jsstring \<Rightarrow> node \<Rightarrow> tile" where
  "tile_of new_URL pageUrl el =
     (let t = [el];
          hd_text = cleanText (text_sel (first (find_sel
             (\<lambda>n. is_tag ''h1'' n \<or> is_tag ''h2'' n \<or> is_tag ''h3'' n \<or> is_tag ''h4'' n) t)));
          descr = cleanText (text_sel (first (find_sel (is_tag ''p'') t)));
          link = first (filter (\<lambda>a. 0 < length (cleanText (text_sel [a])))
                          (find_sel (is_tag ''a'') t));
          title = cleanText (text_sel link);
          target = absolutizeUrl new_URL (js_or (attr_sel ''href'' link) (Some [])) pageUrl
      in \<lparr> heading = hd_text, description = descr, linkTitle = title, linkUrl = target \<rparr>)"

definition tile_nonempty :: "tile \<Rightarrow> bool" where
  "tile_nonempty t =
     (heading t \<noteq> [] \<or> description t \<noteq> [] \<or> linkTitle t \<noteq> [] \<or> linkUrl t \<noteq> [])"

text \<open>
  Lines 170-185: one call of the callback of \<open>.each\<close>. The callback returns at once
  when three tiles are held; \<open>.each\<close> goes on to the next candidate all the same.
\<close>

definition tile_step :: "url_parser \<Rightarrow> jsstring \<Rightarrow> tile list \<Rightarrow> node \<Rightarrow> tile list" where
  "tile_step new_URL pageUrl tiles el =
     (if 3 \<le> length tiles then tiles
      else (let t = tile_of new_URL pageUrl el in
            if tile_nonempty t then tiles @ [t] else tiles))"

definition empty_tile :: tile where
  "empty_tile = \<lparr> heading = [], description = [], linkTitle = [], linkUrl = [] \<rparr>"

text \<open>Lines 188-190: \<open>while (tiles.length < 3) tiles.push({...})\<close>.\<close>

function pad_tiles :: "tile list \<Rightarrow> tile list" where
  "pad_tiles tiles = (if length tiles < 3 then pad_tiles (tiles @ [empty_tile]) else tiles)"
  by pat_completeness auto
termination
  by (relation "measure (\<lambda>tiles. 3 - length tiles)") auto

declare pad_tiles.simps [simp del]

definition collect_tiles :: "url_parser \<Rightarrow> jsstring \<Rightarrow> selection \<Rightarrow> tile list" where
  "collect_tiles new_URL pageUrl tilesWrap =
     pad_tiles (foldl (tile_step new_URL pageUrl) [] (tileItems tilesWrap))"

text \<open>
  \<open>tiles[i].heading\<close>: reading a property of \<open>undefined\<close> throws a TypeError.
\<close>

definition tile_at :: "tile list \<Rightarrow> nat \<Rightarrow> error + tile" where
  "tile_at tiles i = (if i < length tiles then Inr (tiles ! i) else Inl TypeError)"

text \<open>
  \<open>extractPageData(html, pageUrl)\<close>, lines 104-221. The HTML parser behind
  \<open>cheerio.load\<close> is a parameter; it returns the document's root nodes for every
  string.
\<close>

type_synonym html_parser = "jsstring \<Rightarrow> node list"

definition extractPageData ::
  "html_parser \<Rightarrow> url_parser \<Rightarrow> jsstring \<Rightarrow> jsstring \<Rightarrow> error + page" where
  "extractPageData cheerio_load new_URL html pageUrl =
     (let doc = cheerio_load html;
          banner = first (select doc (div_class ''banner''));
          btn = bannerBtn banner;
          video = first (select doc (div_class ''article-video''));
          tilesWrap = first (select doc (div_class ''related-articles''));
          tiles = collect_tiles new_URL pageUrl tilesWrap
      in case tile_at tiles 0 of Inl e \<Rightarrow> Inl e | Inr t1 \<Rightarrow>
         (case tile_at tiles 1 of Inl e \<Rightarrow> Inl e | Inr t2 \<Rightarrow>
         (case tile_at tiles 2 of Inl e \<Rightarrow> Inl e | Inr t3 \<Rightarrow>
          Inr \<lparr> url = pageUrl,
                banner_image = bannerImage new_URL banner pageUrl,
                banner_title = bannerTitle banner,
                banner_description = cleanText (text_sel (first (find_sel (is_tag ''p'') banner))),
                banner_button_text = cleanText (text_sel btn),
                banner_button_link =
                  absolutizeUrl new_URL (js_or (attr_sel ''href'' btn) (Some [])) pageUrl,
                main_description =
                  cleanText (text_sel (first (select doc (div_class ''main-description'')))),
                video_heading = cleanText (text_sel (first (find_sel
                  (\<lambda>n. is_tag ''h1'' n \<or> is_tag ''h2'' n \<or> is_tag ''h3'' n) video))),
                video_embed_url = absolutizeUrl new_URL (videoSource video) pageUrl,
                tile1_heading = heading t1,
                tile1_description = description t1,
                tile1_link_title = linkTitle t1,
                tile1_link_url = linkUrl t1,
                tile2_heading = heading t2,
                tile2_description = description t2,
                tile2_link_title = linkTitle t2,
                tile2_link_url = linkUrl t2,
                tile3_heading = heading t3,
                tile3_description = description t3,
                tile3_link_title = linkTitle t3,
                tile3_link_url = linkUrl t3 \<rparr>)))"

section \<open>The sources of URLs\<close>

subsection \<open>getUrlsFromSitemap\<close>

text \<open>
  What \<open>parseStringPromise\<close> makes of a sitemap: \<open>null\<close> for a blank body, else an
  object whose one property is named after the root element. \<open>Root name url sitemap\<close>
  holds that name and the arrays of the root's \<open>url\<close> and \<open>sitemap\<close> children; such
  an array is undefined when the root has no child of that name. An entry's \<open>loc\<close>
  is an array of strings or undefined.
\<close>

type_synonym entry = "jsstring list option"

datatype parsed = NullDocument | Root jsstring "entry list option" "entry list option"

text \<open>
  \<open>parsed.urlset?.url\<close> and \<open>parsed.sitemapindex?.sitemap\<close>: reading a property of
  \<open>null\<close> throws a TypeError; \<open>?.\<close> gives undefined when the root has another name.
\<close>

fun urlset_url :: "parsed \<Rightarrow> error + entry list option" where
  "urlset_url NullDocument = Inl NullTypeError"
| "urlset_url (Root name u s) = Inr (if name = ascii ''urlset'' then u else None)"

fun sitemapindex_sitemap :: "parsed \<Rightarrow> error + entry list option" where
  "sitemapindex_sitemap NullDocument = Inl NullTypeError"
| "sitemapindex_sitemap (Root name u s) = Inr (if name = ascii ''sitemapindex'' then s else None)"

text \<open>\<open>.map((u) => u.loc?.[0]).filter(Boolean)\<close>\<close>

fun loc0 :: "entry \<Rightarrow> jsstring option" where
  "loc0 None = None"
| "loc0 (Some []) = None"
| "loc0 (Some (l # ls)) = Some l"

definition locs :: "entry list \<Rightarrow> jsstring list" where
  "locs es = map the (filter truthy (map loc0 es))"

text \<open>
  Fetching and parsing one sitemap (lines 67-68) is the network's answer: the parsed
  document, or the error that \<open>axios.get\<close> or the XML parser throws.
\<close>

type_synonym sitemap_web = "jsstring \<Rightarrow> error + parsed"

text \<open>
  Lines 66-91. The recursion follows the documents the network serves and need not
  end, so it is bounded by fuel: \<open>None\<close> is "has not returned within the fuel".
  \<open>sitemap_loop\<close> is the \<open>for\<close> loop of lines 83-86 with its accumulator \<open>all\<close>.
\<close>

fun getUrlsFromSitemap :: "nat \<Rightarrow> sitemap_web \<Rightarrow> jsstring \<Rightarrow> (error + jsstring list) option"
  and sitemap_loop ::
    "nat \<Rightarrow> sitemap_web \<Rightarrow> jsstring list \<Rightarrow> jsstring list \<Rightarrow> (error + jsstring list) option"
where
  "getUrlsFromSitemap 0 web sitemapUrl = None"
| "getUrlsFromSitemap (Suc n) web sitemapUrl =
     (case web sitemapUrl of
        Inl e \<Rightarrow> Some (Inl e)
      | Inr p \<Rightarrow>
         (case urlset_url p of
            Inl e \<Rightarrow> Some (Inl e)
          | Inr (Some us) \<Rightarrow> Some (Inr (locs us))
          | Inr None \<Rightarrow>
             (case sitemapindex_sitemap p of
                Inl e \<Rightarrow> Some (Inl e)
              | Inr (Some ss) \<Rightarrow> sitemap_loop n web (locs ss) []
              | Inr None \<Rightarrow> Some (Inl UnknownSitemapFormat))))"
| "sitemap_loop n web [] all = Some (Inr all)"
| "sitemap_loop n web (sm # rest) all =
     (case getUrlsFromSitemap n web sm of
        None \<Rightarrow> None
      | Some (Inl e) \<Rightarrow> Some (Inl e)
      | Some (Inr sub) \<Rightarrow> sitemap_loop n web rest (all @ sub))"

subsection \<open>getUrlsFromFile\<close>

definition LF :: "16 word" where
  "LF = 0x0A"

definition CR :: "16 word" where
  "CR = 0x0D"

definition HASH :: "16 word" where
  "HASH = 0x23"

fun cons_first :: "16 word \<Rightarrow> jsstring list \<Rightarrow> jsstring list" where
  "cons_first c [] = [[c]]"
| "cons_first c (l # ls) = (c # l) # ls"

text \<open>\<open>raw.split(/\r?\n/)\<close>\<close>

fun split_lines :: "jsstring \<Rightarrow> jsstring list" where
  "split_lines [] = [[]]"
| "split_lines [c] = (if c = LF then [[], []] else [[c]])"
| "split_lines (c # d # cs) =
     (if c = LF then [] # split_lines (d # cs)
      else if c = CR \<and> d = LF then [] # split_lines cs
      else cons_first c (split_lines (d # cs)))"

definition startsWith_hash :: "jsstring \<Rightarrow> bool" where
  "startsWith_hash l = (case l of [] \<Rightarrow> False | c # cs \<Rightarrow> c = HASH)"

text \<open>Lines 93-99, on the text \<open>readFileSync\<close> returned.\<close>

definition getUrlsFromFile :: "jsstring \<Rightarrow> jsstring list" where
  "getUrlsFromFile raw =
     filter (\<lambda>l. l \<noteq> [] \<and> \<not> startsWith_hash l) (map trim (split_lines raw))"

section \<open>main\<close>

text \<open>
  \<open>Array.from(new Set(urls))\<close>: a Set keeps the first insertion of each value, in
  insertion order, and compares strings by their code units.
\<close>

definition set_add :: "jsstring list \<Rightarrow> jsstring \<Rightarrow> jsstring list" where
  "set_add seen u = (if u \<in> set seen then seen else seen @ [u])"

definition dedupe :: "jsstring list \<Rightarrow> jsstring list" where
  "dedupe urls = foldl set_add [] urls"

text \<open>Line 239.\<close>

definition clean_urls :: "jsstring list \<Rightarrow> jsstring list" where
  "clean_urls urls = filter (\<lambda>u. u \<noteq> []) (dedupe urls)"

subsection \<open>Fetching one page\<close>

text \<open>
  What \<open>axios.get\<close> meets for a URL: a response with a status and a body, or no
  response (a network error or the timeout) with the message of the error it throws.
\<close>

datatype http_outcome = Response nat jsstring | NoResponse jsstring

function decimal :: "nat \<Rightarrow> jsstring" where
  "decimal n = (if n < 10 then [of_nat (48 + n)] else decimal (n div 10) @ [of_nat (48 + n mod 10)])"
  by pat_completeness auto
termination
  by (relation "measure id") auto

declare decimal.simps [simp del]

definition status_message :: "nat \<Rightarrow> jsstring" where
  "status_message st = ascii ''Request failed with status code '' @ decimal st"

text \<open>\<open>fetchHtml(url)\<close>, lines 53-64, with \<open>validateStatus: (s) => s >= 200 && s < 400\<close>.\<close>

definition fetchHtml :: "(jsstring \<Rightarrow> http_outcome) \<Rightarrow> jsstring \<Rightarrow> error + jsstring" where
  "fetchHtml http u =
     (case http u of
        Response st body \<Rightarrow>
          if 200 \<le> st \<and> st < 400 then Inr body else Inl (AxiosError (status_message st))
      | NoResponse msg \<Rightarrow> Inl (AxiosError msg))"

text \<open>\<open>err.message\<close>\<close>

fun message :: "error \<Rightarrow> jsstring" where
  "message TypeError = ascii ''Cannot read properties of undefined''"
| "message NullTypeError =
     ascii ''Cannot read properties of null (reading '' @ [0x27] @ ascii ''urlset'' @ [0x27, 0x29]"
| "message (AxiosError m) = m"
| "message (XmlError m) = m"
| "message (FsError m) = m"
| "message UnknownSitemapFormat =
     ascii ''Unknown sitemap format (expected urlset or sitemapindex).''"
| "message NoSource = ascii ''Provide --sitemap <url> or --urls <file>.''"

subsection \<open>Rows\<close>

text \<open>
  The three object shapes that reach the writer: the record of a page (line 287),
  \<open>{ url, error: err.message }\<close> (line 292) and \<open>{ url: u }\<close> (line 301).
  \<open>row_fields\<close> lists the own properties of each.
\<close>

datatype row = Data page | Failed jsstring jsstring | Bare jsstring

fun row_url :: "row \<Rightarrow> jsstring" where
  "row_url (Data p) = url p"
| "row_url (Failed u e) = u"
| "row_url (Bare u) = u"

definition page_fields :: "page \<Rightarrow> (string \<times> jsstring) list" where
  "page_fields p =
     [(''url'', url p),
      (''banner_image'', banner_image p),
      (''banner_title'', banner_title p),
      (''banner_description'', banner_description p),
      (''banner_button_text'', banner_button_text p),
      (''banner_button_link'', banner_button_link p),
      (''main_description'', main_description p),
      (''video_heading'', video_heading p),
      (''video_embed_url'', video_embed_url p),
      (''tile1_heading'', tile1_heading p),
      (''tile1_description'', tile1_description p),
      (''tile1_link_title'', tile1_link_title p),
      (''tile1_link_url'', tile1_link_url p),
      (''tile2_heading'', tile2_heading p),
      (''tile2_description'', tile2_description p),
      (''tile2_link_title'', tile2_link_title p),
      (''tile2_link_url'', tile2_link_url p),
      (''tile3_heading'', tile3_heading p),
      (''tile3_description'', tile3_description p),
      (''tile3_link_title'', tile3_link_title p),
      (''tile3_link_url'', tile3_link_url p)]"

fun row_fields :: "row \<Rightarrow> (string \<times> jsstring) list" where
  "row_fields (Data p) = page_fields p"
| "row_fields (Failed u e) = [(''url'', u), (''error'', e)]"
| "row_fields (Bare u) = [(''url'', u)]"

text \<open>Lines 243-271: the ids of the columns.\<close>

definition headers :: "string list" where
  "headers =
     [''url'',
      ''banner_image'', ''banner_title'', ''banner_description'',
      ''banner_button_text'', ''banner_button_link'',
      ''main_description'',
      ''video_heading'', ''video_embed_url'',
      ''tile1_heading'', ''tile1_description'', ''tile1_link_title'', ''tile1_link_url'',
      ''tile2_heading'', ''tile2_description'', ''tile2_link_title'', ''tile2_link_url'',
      ''tile3_heading'', ''tile3_description'', ''tile3_link_title'', ''tile3_link_url'']"

text \<open>
  The writer of csv-writer (\<open>createObjectCsvWriter\<close>), which is not part of the
  repository: a record is written as the values of the header's ids, in the header's
  order; a property the record lacks is written as the empty string, and a property
  the header lacks is not written. \<open>csv_record\<close> is the sequence of values of one
  line; how the writer quotes and joins them is left out.
\<close>

definition csv_record :: "string list \<Rightarrow> row \<Rightarrow> jsstring list" where
  "csv_record hs r =
     map (\<lambda>h. case map_of (row_fields r) h of Some v \<Rightarrow> v | None \<Rightarrow> []) hs"

definition writeRecords :: "string list \<Rightarrow> row list \<Rightarrow> jsstring list list" where
  "writeRecords hs rows = map (csv_record hs) rows"

subsection \<open>The run\<close>

text \<open>
  Everything of a run that the program does not decide: the libraries, the documents
  the network and the file system serve, and the order in which the concurrent tasks
  complete (\<open>completion\<close> maps the rows in dispatch order to the order in which they
  were pushed onto \<open>rows\<close>).
\<close>

record world =
  cheerio_load :: html_parser
  new_URL :: url_parser
  sitemaps :: sitemap_web
  files :: "jsstring \<Rightarrow> error + jsstring"
  http :: "jsstring \<Rightarrow> http_outcome"
  completion :: "row list \<Rightarrow> row list"

text \<open>The command line: \<open>getArg("--sitemap")\<close> and \<open>getArg("--urls")\<close>.\<close>

record config =
  SITEMAP_URL :: "jsstring option"
  URLS_FILE :: "jsstring option"

text \<open>Lines 283-294: one task, from the fetch to the row it pushes.\<close>

definition task :: "world \<Rightarrow> jsstring \<Rightarrow> row" where
  "task w u =
     (case fetchHtml (http w) u of
        Inl err \<Rightarrow> Failed u (message err)
      | Inr html \<Rightarrow>
         (case extractPageData (cheerio_load w) (new_URL w) html u of
            Inl err \<Rightarrow> Failed u (message err)
          | Inr data \<Rightarrow> Data data))"

text \<open>Line 300: \<open>new Map(rows.map(r => [r.url, r]))\<close>; a later entry replaces an earlier one.\<close>

definition rowByUrl :: "row list \<Rightarrow> jsstring \<Rightarrow> row option" where
  "rowByUrl rows = foldl (\<lambda>m r. m(row_url r \<mapsto> r)) Map.empty rows"

text \<open>Line 301.\<close>

definition orderedRows :: "jsstring list \<Rightarrow> row list \<Rightarrow> row list" where
  "orderedRows urls rows =
     map (\<lambda>u. case rowByUrl rows u of Some r \<Rightarrow> r | None \<Rightarrow> Bare u) urls"

text \<open>Lines 228-236: the URLs, or the error that ends the run.\<close>

definition source_urls :: "nat \<Rightarrow> world \<Rightarrow> config \<Rightarrow> (error + jsstring list) option" where
  "source_urls fuel w cfg =
     (case SITEMAP_URL cfg of
        Some sm \<Rightarrow>
          if sm \<noteq> [] then getUrlsFromSitemap fuel (sitemaps w) sm
          else (case URLS_FILE cfg of
                  Some f \<Rightarrow>
                    if f \<noteq> [] then Some (map_sum id getUrlsFromFile (files w f))
                    else Some (Inl NoSource)
                | None \<Rightarrow> Some (Inl NoSource))
      | None \<Rightarrow>
          (case URLS_FILE cfg of
             Some f \<Rightarrow>
               if f \<noteq> [] then Some (map_sum id getUrlsFromFile (files w f))
               else Some (Inl NoSource)
           | None \<Rightarrow> Some (Inl NoSource)))"

text \<open>
  The outcome of \<open>main\<close>: the process exits with status 1 after printing the message
  and writes no file, or the records are written (the rows handed to the writer and
  the record written for each). An error of the file system while writing is left out.
\<close>

datatype outcome = Exit1 jsstring | Wrote "row list" "jsstring list list"

text \<open>Lines 239-303, from the URLs of the source to the rows handed to the writer.\<close>

definition run_rows :: "world \<Rightarrow> jsstring list \<Rightarrow> row list" where
  "run_rows w urls0 =
     (let urls = clean_urls urls0;
          rows = completion w (map (task w) urls)
      in orderedRows urls rows)"

definition main :: "nat \<Rightarrow> world \<Rightarrow> config \<Rightarrow> outcome option" where
  "main fuel w cfg =
     (case source_urls fuel w cfg of
        None \<Rightarrow> None
      | Some (Inl e) \<Rightarrow> Some (Exit1 (message e))
      | Some (Inr urls0) \<Rightarrow>
          (let ordered = run_rows w urls0
           in Some (Wrote ordered (writeRecords headers ordered))))"

section \<open>Definitions used to state the properties\<close>

subsection \<open>The tile slots\<close>

text \<open>
  The first three candidates, in document order, that have a non-empty heading,
  description, link title or link URL; and the three slots of the record: the kept
  tiles followed by empty tiles.
\<close>

definition kept_tiles :: "url_parser \<Rightarrow> jsstring \<Rightarrow> selection \<Rightarrow> tile list" where
  "kept_tiles U pageUrl tilesWrap =
     take 3 (filter tile_nonempty (map (tile_of U pageUrl) (tileItems tilesWrap)))"

definition tile_slots :: "url_parser \<Rightarrow> jsstring \<Rightarrow> selection \<Rightarrow> tile list" where
  "tile_slots U pageUrl tilesWrap =
     kept_tiles U pageUrl tilesWrap
       @ replicate (3 - length (kept_tiles U pageUrl tilesWrap)) empty_tile"

definition tile_columns :: "string list" where
  "tile_columns =
     [''tile1_heading'', ''tile1_description'', ''tile1_link_title'', ''tile1_link_url'',
      ''tile2_heading'', ''tile2_description'', ''tile2_link_title'', ''tile2_link_url'',
      ''tile3_heading'', ''tile3_description'', ''tile3_link_title'', ''tile3_link_url'']"

definition tile_values :: "tile \<Rightarrow> jsstring list" where
  "tile_values t = [heading t, description t, linkTitle t, linkUrl t]"

text \<open>
  The candidates behind the kept tiles: the first three elements of \<open>tileItems\<close>, in
  document order, whose tile is not empty. And the four tile properties of the record
  for the slot \<open>i\<close> (counted from 0): heading, description, link title, link URL.
\<close>

definition kept_candidates :: "url_parser \<Rightarrow> jsstring \<Rightarrow> selection \<Rightarrow> node list" where
  "kept_candidates U pageUrl tilesWrap =
     take 3 (filter (\<lambda>el. tile_nonempty (tile_of U pageUrl el)) (tileItems tilesWrap))"

definition tile_slot_fields :: "page \<Rightarrow> nat \<Rightarrow> jsstring list" where
  "tile_slot_fields p i =
     (if i = 0 then [tile1_heading p, tile1_description p, tile1_link_title p, tile1_link_url p]
      else if i = 1 then [tile2_heading p, tile2_description p, tile2_link_title p, tile2_link_url p]
      else [tile3_heading p, tile3_description p, tile3_link_title p, tile3_link_url p])"

subsection \<open>A URL parser for the examples\<close>

text \<open>
  An instance of the parameter \<open>new_URL\<close> for the concrete examples: a reference
  that starts with one slash is resolved against an http or https URL by putting it
  after the scheme and host of the base; every other call fails.
\<close>

definition SLASH :: "16 word" where
  "SLASH = 0x2F"

definition origin_of :: "jsstring \<Rightarrow> jsstring option" where
  "origin_of base =
     (if take 8 base = ascii ''https://''
        then Some (take 8 base @ takeWhile (\<lambda>c. c \<noteq> SLASH) (drop 8 base))
      else if take 7 base = ascii ''http://''
        then Some (take 7 base @ takeWhile (\<lambda>c. c \<noteq> SLASH) (drop 7 base))
      else None)"

definition demo_URL :: url_parser where
  "demo_URL rel base =
     (case rel of
        [] \<Rightarrow> None
      | c # cs \<Rightarrow>
          if c = SLASH \<and> take 1 cs \<noteq> [SLASH]
          then map_option (\<lambda>org. org @ rel) (origin_of base)
          else None)"

subsection \<open>Example documents\<close>

text \<open>Elements and text nodes with ASCII names, attributes and text.\<close>

definition elem :: "string \<Rightarrow> (string \<times> string) list \<Rightarrow> node list \<Rightarrow> node" where
  "elem t a cs = Element (ascii t) (map (\<lambda>(k, v). (ascii k, ascii v)) a) cs"

definition tnode :: "string \<Rightarrow> node" where
  "tnode s = Text (ascii s)"

text \<open>
  A tiles wrapper with three list items: a heading with a link, nothing, and a
  paragraph.
\<close>

definition tiles_doc :: "node list" where
  "tiles_doc =
     [elem ''div'' [(''class'', ''related-articles'')]
        [elem ''li'' [] [elem ''h3'' [] [tnode ''A''], elem ''a'' [(''href'', ''/a'')] [tnode ''go'']],
         elem ''li'' [] [],
         elem ''li'' [] [elem ''p'' [] [tnode '' b  c '']]]]"

text \<open>What \<open>cheerio.load\<close> makes of a page without content.\<close>

definition blank_doc :: "node list" where
  "blank_doc = [elem ''html'' [] [elem ''head'' [] [], elem ''body'' [] []]]"

text \<open>The twenty content properties of a page record, in the order of the columns.\<close>

definition content_values :: "page \<Rightarrow> jsstring list" where
  "content_values p =
     [banner_image p, banner_title p, banner_description p,
      banner_button_text p, banner_button_link p,
      main_description p,
      video_heading p, video_embed_url p,
      tile1_heading p, tile1_description p, tile1_link_title p, tile1_link_url p,
      tile2_heading p, tile2_description p, tile2_link_title p, tile2_link_url p,
      tile3_heading p, tile3_description p, tile3_link_title p, tile3_link_url p]"

definition tile_fields :: "page \<Rightarrow> jsstring list" where
  "tile_fields p =
     [tile1_heading p, tile1_description p, tile1_link_title p, tile1_link_url p,
      tile2_heading p, tile2_description p, tile2_link_title p, tile2_link_url p,
      tile3_heading p, tile3_description p, tile3_link_title p, tile3_link_url p]"

subsection \<open>The references handed to absolutizeUrl\<close>

text \<open>
  The inline style of the banner (\<open>$banner.attr("style") || ""\<close>), the reference the
  banner image is made of (the image source when it is truthy, else group 2 of the
  match on the style), and the link of a tile candidate (line 177).
\<close>

definition style_of :: "selection \<Rightarrow> jsstring" where
  "style_of banner =
     (case js_or (attr_sel ''style'' banner) (Some []) of Some v \<Rightarrow> v | None \<Rightarrow> [])"

definition banner_image_source :: "selection \<Rightarrow> jsstring option" where
  "banner_image_source banner =
     (let imgSrc = attr_sel ''src'' (first (find_sel (is_tag ''img'') banner)) in
      if truthy imgSrc then imgSrc else match_background (style_of banner))"

definition tile_link :: "node \<Rightarrow> selection" where
  "tile_link el =
     first (filter (\<lambda>a. 0 < length (cleanText (text_sel [a]))) (find_sel (is_tag ''a'') [el]))"

text \<open>
  A page with an image, a button, an embedded video and three tiles: a link with a
  relative target, a link without an \<open>href\<close> and a link whose \<open>href\<close> is empty. The
  button's target has an unclosed IPv6 host, which no URL parser accepts.
\<close>

definition links_doc :: "node list" where
  "links_doc =
     [elem ''div'' [(''class'', ''hero banner'')]
        [elem ''img'' [(''src'', ''/x.png'')] [],
         elem ''a'' [(''href'', ''http://['')] [tnode ''Go'']],
      elem ''div'' [(''class'', ''article-video'')]
        [elem ''iframe'' [(''src'', ''/v/1'')] []],
      elem ''div'' [(''class'', ''related-articles'')]
        [elem ''article'' [] [elem ''a'' [(''href'', ''/t'')] [tnode ''More'']],
         elem ''article'' [] [elem ''a'' [] [tnode ''Less'']],
         elem ''article'' [] [elem ''a'' [(''href'', [])] [tnode ''None'']]]]"

subsection \<open>The banner image and the embed URL as the claims word them\<close>

text \<open>
  The banner image as "the src of the first image when one is present, otherwise the
  URL parsed from the style": the choice is made on the presence of the attribute.
\<close>

definition banner_image_claimed :: "url_parser \<Rightarrow> selection \<Rightarrow> jsstring \<Rightarrow> jsstring" where
  "banner_image_claimed U banner pageUrl =
     (case attr_sel ''src'' (first (find_sel (is_tag ''img'') banner)) of
        Some v \<Rightarrow> absolutizeUrl U (Some v) pageUrl
      | None \<Rightarrow> absolutizeUrl U (match_background (style_of banner)) pageUrl)"

text \<open>
  The video reference as "the iframe's src if present, else the data-src value, else
  the anchor's href, else the empty string", again on the presence of each attribute.
\<close>

definition videoSource_claimed :: "selection \<Rightarrow> jsstring option" where
  "videoSource_claimed video =
     (case attr_sel ''src'' (first (find_sel (is_tag ''iframe'') video)) of
        Some v \<Rightarrow> Some v
      | None \<Rightarrow>
         (case attr_sel ''data-src'' (first (find_sel (has_attr ''data-src'') video)) of
            Some v \<Rightarrow> Some v
          | None \<Rightarrow>
             (case attr_sel ''href'' (first (find_sel (is_tag ''a'') video)) of
                Some v \<Rightarrow> Some v
              | None \<Rightarrow> Some [])))"

text \<open>
  The style \<open>background-image:url('/img/banner.jpg')\<close>, with its two apostrophes
  (U+0027), a banner that carries it and holds no image, and a banner with the style
  \<open>background-image:url(/b.jpg)\<close> around an image whose \<open>src\<close> is the empty string.
\<close>

definition banner_style :: jsstring where
  "banner_style = ascii ''background-image:url('' @ [0x27] @ ascii ''/img/banner.jpg'' @ [0x27, 0x29]"

definition styled_banner_doc :: "node list" where
  "styled_banner_doc =
     [Element (ascii ''div'') [(ascii ''class'', ascii ''banner''), (ascii ''style'', banner_style)]
        [elem ''h1'' [] [tnode ''Welcome'']]]"

definition empty_src_doc :: "node list" where
  "empty_src_doc =
     [elem ''div'' [(''class'', ''banner''), (''style'', ''background-image:url(/b.jpg)'')]
        [elem ''img'' [(''src'', [])] []]]"

text \<open>
  A video wrapper whose iframe has an empty \<open>src\<close> beside an anchor, and one with a
  lazily loaded player (\<open>data-src\<close>) beside an anchor.
\<close>

definition empty_iframe_doc :: "node list" where
  "empty_iframe_doc =
     [elem ''div'' [(''class'', ''article-video'')]
        [elem ''iframe'' [(''src'', [])] [],
         elem ''a'' [(''href'', ''/v'')] [tnode ''Watch'']]]"

definition lazy_video_doc :: "node list" where
  "lazy_video_doc =
     [elem ''div'' [(''class'', ''article-video'')]
        [elem ''a'' [(''href'', ''/watch'')] [tnode ''Watch''],
         elem ''div'' [(''data-src'', ''/player'')] []]]"

subsection \<open>A background-image declaration\<close>

text \<open>
  The text of a declaration: the property name, whitespace, a colon, whitespace, the
  opener of \<open>url(\<close>, a quote or nothing, the reference, the same quote or nothing,
  and the closing parenthesis.
\<close>

definition declaration_text ::
  "jsstring \<Rightarrow> jsstring \<Rightarrow> jsstring \<Rightarrow> jsstring \<Rightarrow> jsstring \<Rightarrow> jsstring \<Rightarrow> jsstring" where
  "declaration_text name w1 w2 opener q ref =
     name @ w1 @ [COLON] @ w2 @ opener @ q @ ref @ q @ [RPAREN]"

text \<open>
  The parts make a declaration when the name is \<open>background-image\<close> and the opener
  is \<open>url(\<close> in any letter case, the two gaps are whitespace, the reference holds no
  line terminator, and the reference is either bare (then it holds no closing
  parenthesis and does not start with a quote) or stands between two apostrophes or
  two double quotes (then it does not hold that quote).
\<close>

definition is_declaration ::
  "jsstring \<Rightarrow> jsstring \<Rightarrow> jsstring \<Rightarrow> jsstring \<Rightarrow> jsstring \<Rightarrow> jsstring \<Rightarrow> bool" where
  "is_declaration name w1 w2 opener q ref =
     (map to_lower name = ascii ''background-image''
      \<and> list_all is_ws w1 \<and> list_all is_ws w2
      \<and> map to_lower opener = ascii ''url(''
      \<and> list_all (\<lambda>c. \<not> is_line_terminator c) ref
      \<and> ((q = [] \<and> RPAREN \<notin> set ref \<and> (ref = [] \<or> \<not> is_quote (hd ref)))
         \<or> (q = [0x27] \<and> 0x27 \<notin> set ref)
         \<or> (q = [0x22] \<and> 0x22 \<notin> set ref)))"

text \<open>No place of \<open>pre\<close> starts the property name (in any letter case) in \<open>pre @ rest\<close>.\<close>

definition no_earlier_name :: "jsstring \<Rightarrow> jsstring \<Rightarrow> bool" where
  "no_earlier_name pre rest =
     list_all (\<lambda>k. map to_lower (take 16 (drop k (pre @ rest))) \<noteq> ascii ''background-image'')
       [0..<length pre]"

text \<open>
  The style \<open>color:red;BACKGROUND-Image : URL("/b.png");margin:0\<close> on a banner whose
  image has no \<open>src\<close>.
\<close>

definition shifted_style :: jsstring where
  "shifted_style =
     ascii ''color:red;BACKGROUND-Image : URL('' @ [0x22] @ ascii ''/b.png'' @ [0x22, 0x29]
       @ ascii '';margin:0''"

definition shifted_banner_doc :: "node list" where
  "shifted_banner_doc =
     [Element (ascii ''div'') [(ascii ''style'', shifted_style), (ascii ''class'', ascii ''banner'')]
        [elem ''img'' [] []]]"

subsection \<open>First-seen order\<close>

text \<open>
  The elements of a list in the order of their first occurrences: the head, then
  the first-seen order of the rest without the head.
\<close>

fun first_seen :: "'a list \<Rightarrow> 'a list" where
  "first_seen [] = []"
| "first_seen (x # xs) = x # first_seen (filter (\<lambda>y. y \<noteq> x) xs)"

subsection \<open>An example run\<close>

text \<open>
  A site with three pages: \<open>a\<close> answers 200, \<open>b\<close> times out, \<open>c\<close> answers 404.
  Its sitemap is an index of two page lists, \<open>[a, b]\<close> and \<open>[b, c]\<close>. The file
  \<open>urls.txt\<close> names \<open>a\<close>, \<open>b\<close>, a comment, a blank line and \<open>a\<close> again between
  spaces with a CR LF line end. Every page parses to the document without content,
  and the tasks complete in the reverse of the order in which they were started.
\<close>

definition url_a :: jsstring where
  "url_a = ascii ''https://site.com/a''"

definition url_b :: jsstring where
  "url_b = ascii ''https://site.com/b''"

definition url_c :: jsstring where
  "url_c = ascii ''https://site.com/c''"

definition timeout_message :: jsstring where
  "timeout_message = ascii ''timeout of 20000ms exceeded''"

definition demo_sitemaps :: sitemap_web where
  "demo_sitemaps u =
     (if u = ascii ''https://site.com/sitemap.xml''
        then Inr (Root (ascii ''sitemapindex'') None
                    (Some [Some [ascii ''https://site.com/s1.xml''],
                           Some [ascii ''https://site.com/s2.xml'']]))
      else if u = ascii ''https://site.com/s1.xml''
        then Inr (Root (ascii ''urlset'') (Some [Some [url_a], Some [url_b]]) None)
      else if u = ascii ''https://site.com/s2.xml''
        then Inr (Root (ascii ''urlset'') (Some [Some [url_b], None, Some [url_c]]) None)
      else Inl (AxiosError (status_message 404)))"

definition demo_file :: jsstring where
  "demo_file =
     url_a @ [LF] @ url_b @ [LF] @ ascii ''# a comment'' @ [LF] @ [LF]
       @ ascii ''  '' @ url_a @ ascii '' '' @ [CR, LF]"

definition demo_world :: world where
  "demo_world =
     \<lparr> cheerio_load = (\<lambda>h. blank_doc),
       new_URL = demo_URL,
       sitemaps = demo_sitemaps,
       files = (\<lambda>f. if f = ascii ''urls.txt'' then Inr demo_file
                     else Inl (FsError (ascii ''ENOENT: no such file or directory''))),
       http = (\<lambda>u. if u = url_a then Response 200 []
                    else if u = url_b then NoResponse timeout_message
                    else Response 404 []),
       completion = rev \<rparr>"

definition file_config :: config where
  "file_config = \<lparr> SITEMAP_URL = None, URLS_FILE = Some (ascii ''urls.txt'') \<rparr>"

definition sitemap_config :: config where
  "sitemap_config = \<lparr> SITEMAP_URL = Some (ascii ''https://site.com/sitemap.xml''), URLS_FILE = None \<rparr>"

text \<open>The record of a page without content.\<close>

definition blank_page :: "jsstring \<Rightarrow> page" where
  "blank_page u =
     \<lparr> url = u, banner_image = [], banner_title = [], banner_description = [],
       banner_button_text = [], banner_button_link = [], main_description = [],
       video_heading = [], video_embed_url = [],
       tile1_heading = [], tile1_description = [], tile1_link_title = [], tile1_link_url = [],
       tile2_heading = [], tile2_description = [], tile2_link_title = [], tile2_link_url = [],
       tile3_heading = [], tile3_description = [], tile3_link_title = [], tile3_link_url = [] \<rparr>"

text \<open>One page under four spellings, the first of them twice.\<close>

definition variant_urls :: "jsstring list" where
  "variant_urls =
     [ascii ''https://a.com/p'', ascii ''https://a.com/p/'', ascii ''https://A.com/p'',
      ascii ''https://a.com/p#top'', ascii ''https://a.com/p'']"

subsection \<open>Finite sitemap hierarchies\<close>

text \<open>
  What the network serves below a sitemap URL, when that is finite: a page list (a
  document with the root \<open>urlset\<close>) with its location entries, an index (a document
  with the root \<open>sitemapindex\<close>) with the hierarchies of its children, or a document
  that cannot be used: the fetch or the XML parser fails with an error, or the root
  element is neither \<open>urlset\<close> nor \<open>sitemapindex\<close>. A hierarchy that \<open>serves\<close>
  accepts holds no page list without a \<open>url\<close> child, no index without a \<open>sitemap\<close>
  child and no blank document.
\<close>

datatype sitemap_tree =
    PageList jsstring "jsstring list"
  | SitemapIndex jsstring "sitemap_tree list"
  | Unusable jsstring error

fun root_url :: "sitemap_tree \<Rightarrow> jsstring" where
  "root_url (PageList u us) = u"
| "root_url (SitemapIndex u ts) = u"
| "root_url (Unusable u e) = u"

fun serves :: "sitemap_web \<Rightarrow> sitemap_tree \<Rightarrow> bool" where
  "serves web (PageList u us) =
     (case web u of
        Inr (Root name (Some es) ss) \<Rightarrow> name = ascii ''urlset'' \<and> locs es = us
      | _ \<Rightarrow> False)"
| "serves web (SitemapIndex u ts) =
     ((case web u of
         Inr (Root name es (Some ss)) \<Rightarrow>
           name = ascii ''sitemapindex'' \<and> locs ss = map root_url ts
       | _ \<Rightarrow> False)
      \<and> list_all (serves web) ts)"
| "serves web (Unusable u e) =
     (case web u of
        Inl e' \<Rightarrow> e' = e
      | Inr NullDocument \<Rightarrow> False
      | Inr (Root name es ss) \<Rightarrow>
          name \<noteq> ascii ''urlset'' \<and> name \<noteq> ascii ''sitemapindex''
          \<and> e = UnknownSitemapFormat)"

text \<open>
  The result the specification gives a hierarchy: the entries of a page list; for an
  index the concatenation of the children's results in document order, or the error
  of the first child that has one; the error of an unusable document.
\<close>

fun flatten :: "sitemap_tree \<Rightarrow> error + jsstring list"
  and flatten_children :: "sitemap_tree list \<Rightarrow> jsstring list \<Rightarrow> error + jsstring list"
where
  "flatten (PageList u us) = Inr us"
| "flatten (SitemapIndex u ts) = flatten_children ts []"
| "flatten (Unusable u e) = Inl e"
| "flatten_children [] acc = Inr acc"
| "flatten_children (t # ts) acc =
     (case flatten t of Inl e \<Rightarrow> Inl e | Inr sub \<Rightarrow> flatten_children ts (acc @ sub))"

fun depth :: "sitemap_tree \<Rightarrow> nat" where
  "depth (PageList u us) = 0"
| "depth (SitemapIndex u ts) = Suc (fold max (map depth ts) 0)"
| "depth (Unusable u e) = 0"

text \<open>The hierarchy of the example site, and a sitemap index that lists itself.\<close>

definition demo_tree :: sitemap_tree where
  "demo_tree =
     SitemapIndex (ascii ''https://site.com/sitemap.xml'')
       [PageList (ascii ''https://site.com/s1.xml'') [url_a, url_b],
        PageList (ascii ''https://site.com/s2.xml'') [url_b, url_c]]"

definition loop_web :: sitemap_web where
  "loop_web u =
     Inr (Root (ascii ''sitemapindex'') None (Some [Some [ascii ''https://site.com/sitemap.xml'']]))"

text \<open>
  A site whose index lists a page list of two pages and a page list without entries
  (\<open><urlset></urlset>\<close>); every other URL of the site answers with a blank body.
\<close>

definition faulty_sitemaps :: sitemap_web where
  "faulty_sitemaps u =
     (if u = ascii ''https://site.com/sitemap.xml''
        then Inr (Root (ascii ''sitemapindex'') None
                    (Some [Some [ascii ''https://site.com/s1.xml''],
                           Some [ascii ''https://site.com/s2.xml'']]))
      else if u = ascii ''https://site.com/s1.xml''
        then Inr (Root (ascii ''urlset'') (Some [Some [url_a], Some [url_b]]) None)
      else if u = ascii ''https://site.com/s2.xml''
        then Inr (Root (ascii ''urlset'') None None)
      else Inr NullDocument)"

section \<open>Properties\<close>

subsection \<open>cleanText\<close>

lemma is_ws_SPACE: "is_ws SPACE" by (simp add: is_ws_def SPACE_def)
lemma is_ws_NBSP: "is_ws NBSP" by (simp add: is_ws_def NBSP_def)

lemma trim_rtrim: "trim s = rtrim (dropWhile is_ws s)"
  by (simp add: trim_def rtrim_def)

lemma rtrim_Nil: "rtrim [] = []" by (simp add: rtrim_def)

lemma rtrim_append:
  "rtrim (w @ x) = (if rtrim x = [] then rtrim w else w @ rtrim x)"
  by (auto simp: rtrim_def dropWhile_append)

lemma rtrim_id: "w \<noteq> [] \<Longrightarrow> non_ws (last w) \<Longrightarrow> rtrim w = w"
  by (cases w rule: rev_cases) (auto simp: rtrim_def non_ws_def)

lemma collapse_takeWhile:
  "collapse_ws t = takeWhile non_ws t @ collapse_ws (dropWhile non_ws t)"
  by (induction t) (auto simp: non_ws_def)

lemma collapse_chars: "c \<in> set (collapse_ws s) \<Longrightarrow> c = SPACE \<or> non_ws c"
  by (induction s arbitrary: c rule: collapse_ws.induct) (auto simp: non_ws_def split: if_splits)

lemma replace_nbsp_collapse: "replace_nbsp (collapse_ws s) = collapse_ws s"
proof -
  have "NBSP \<notin> set (collapse_ws s)"
    using collapse_chars [of NBSP s] is_ws_NBSP by (auto simp: non_ws_def SPACE_def NBSP_def)
  then show ?thesis
    by (auto simp: replace_nbsp_def intro!: map_idI)
qed

lemma ltrim_collapse: "dropWhile is_ws (collapse_ws s) = collapse_ws (dropWhile is_ws s)"
proof (induction s rule: collapse_ws.induct)
  case 1
  then show ?case by simp
next
  case (2 c cs)
  show ?case
  proof (cases "is_ws c")
    case True
    with 2 show ?thesis by (simp add: is_ws_SPACE)
  next
    case False
    then show ?thesis by simp
  qed
qed

lemma ws_words_unfold_Nil: "dropWhile is_ws s = [] \<Longrightarrow> ws_words s = []"
  by (subst ws_words.simps) (simp only: list.case)

lemma ws_words_unfold_Cons:
  "dropWhile is_ws s = c # cs \<Longrightarrow>
   ws_words s = takeWhile non_ws (c # cs) # ws_words (dropWhile non_ws (c # cs))"
  by (subst ws_words.simps) (simp only: list.case)

lemma dropWhile_ws_head: "dropWhile is_ws s = c # cs \<Longrightarrow> non_ws c"
  using hd_dropWhile [of is_ws s] by (auto simp: non_ws_def)

lemma ws_words_nonempty: "[] \<notin> set (ws_words s)"
proof (induction s rule: ws_words.induct)
  case (1 s)
  show ?case
  proof (cases "dropWhile is_ws s")
    case Nil
    then show ?thesis by (simp only: ws_words_unfold_Nil) simp
  next
    case (Cons c cs)
    have "non_ws c" using Cons by (rule dropWhile_ws_head)
    moreover have "[] \<notin> set (ws_words (dropWhile non_ws (c # cs)))"
      using 1 Cons by blast
    ultimately show ?thesis
      by (simp only: ws_words_unfold_Cons [OF Cons]) simp
  qed
qed

lemma join_space_Cons:
  "join_space (w # ws) = (if ws = [] then w else w @ SPACE # join_space ws)"
  by (cases ws) auto

lemma join_space_Nil_iff: "[] \<notin> set ws \<Longrightarrow> join_space ws = [] \<longleftrightarrow> ws = []"
  by (cases ws) (auto simp: join_space_Cons)

lemma trim_collapse: "trim (collapse_ws s) = join_space (ws_words s)"
proof (induction s rule: ws_words.induct)
  case (1 s)
  show ?case
  proof (cases "dropWhile is_ws s")
    case Nil
    have "ws_words s = []" using Nil by (rule ws_words_unfold_Nil)
    moreover have "dropWhile is_ws (collapse_ws s) = []"
      by (simp only: ltrim_collapse Nil collapse_ws.simps)
    ultimately show ?thesis
      by (simp only: trim_rtrim rtrim_Nil join_space.simps)
  next
    case (Cons c cs)
    define t where "t = c # cs"
    define w where "w = takeWhile non_ws t"
    define r where "r = dropWhile non_ws t"
    have c: "non_ws c" using Cons by (rule dropWhile_ws_head)
    have w: "w \<noteq> []" "\<forall>x\<in>set w. non_ws x"
      using c by (auto simp: w_def t_def dest: set_takeWhileD)
    then have lw: "non_ws (last w)" by simp
    have IH: "trim (collapse_ws r) = join_space (ws_words r)"
      unfolding r_def t_def using 1 Cons by blast
    have words: "ws_words s = w # ws_words r"
      unfolding w_def r_def t_def using Cons by (rule ws_words_unfold_Cons)
    have "trim (collapse_ws s) = rtrim (collapse_ws t)"
      by (simp only: trim_rtrim ltrim_collapse Cons t_def)
    also have "\<dots> = rtrim (w @ collapse_ws r)"
      using collapse_takeWhile [of t] by (simp add: w_def r_def)
    also have "\<dots> = (if rtrim (collapse_ws r) = [] then w else w @ rtrim (collapse_ws r))"
      using w lw by (simp add: rtrim_append rtrim_id)
    finally have step: "trim (collapse_ws s) =
        (if rtrim (collapse_ws r) = [] then w else w @ rtrim (collapse_ws r))" .
    have rr: "rtrim (collapse_ws r) =
        (if join_space (ws_words r) = [] then [] else SPACE # join_space (ws_words r))"
    proof (cases r)
      case Nil
      then show ?thesis by (simp add: ws_words_unfold_Nil rtrim_Nil)
    next
      case (Cons a as)
      then have a: "is_ws a"
        using hd_dropWhile [of non_ws t] by (auto simp: r_def non_ws_def)
      have "collapse_ws r = SPACE # collapse_ws (dropWhile is_ws r)"
        using Cons a by simp
      moreover have "trim (collapse_ws r) = rtrim (collapse_ws (dropWhile is_ws r))"
        by (simp add: trim_rtrim ltrim_collapse)
      ultimately show ?thesis
        using IH rtrim_append [of "[SPACE]" "collapse_ws (dropWhile is_ws r)"]
        by (simp add: rtrim_def is_ws_SPACE)
    qed
    show ?thesis
      using step rr words ws_words_nonempty [of r]
      by (auto simp: join_space_Cons join_space_Nil_iff)
  qed
qed

lemma ws_words_Nil: "ws_words [] = []"
  by (simp add: ws_words_unfold_Nil)

lemma cleanText_words: "cleanText s = join_space (ws_words s)"
  by (simp add: cleanText_def replace_nbsp_collapse trim_collapse ws_words_Nil)


lemma ws_words_wellformed: "list_all (\<lambda>w. w \<noteq> [] \<and> list_all non_ws w) (ws_words s)"
proof (induction s rule: ws_words.induct)
  case (1 s)
  show ?case
  proof (cases "dropWhile is_ws s")
    case Nil
    then show ?thesis by (simp only: ws_words_unfold_Nil) simp
  next
    case (Cons c cs)
    have c: "non_ws c" using Cons by (rule dropWhile_ws_head)
    have "list_all non_ws (takeWhile non_ws (c # cs))"
      by (simp add: list_all_iff) (meson set_takeWhileD)
    moreover have "takeWhile non_ws (c # cs) \<noteq> []"
      using c by simp
    moreover have "list_all (\<lambda>w. w \<noteq> [] \<and> list_all non_ws w) (ws_words (dropWhile non_ws (c # cs)))"
      using 1 Cons by blast
    ultimately show ?thesis
      by (simp only: ws_words_unfold_Cons [OF Cons]) simp
  qed
qed

lemma ws_words_content: "concat (ws_words s) = filter non_ws s"
proof (induction s rule: ws_words.induct)
  case (1 s)
  have drop: "filter non_ws s = filter non_ws (dropWhile is_ws s)" for s
    by (induction s) (auto simp: non_ws_def)
  show ?case
  proof (cases "dropWhile is_ws s")
    case Nil
    have "filter non_ws (dropWhile is_ws s) = []"
      by (simp only: Nil filter.simps)
    then have "filter non_ws s = []"
      using drop [of s] by simp
    moreover have "ws_words s = []"
      using Nil by (rule ws_words_unfold_Nil)
    ultimately show ?thesis by simp
  next
    case (Cons c cs)
    have IH: "concat (ws_words (dropWhile non_ws (c # cs))) = filter non_ws (dropWhile non_ws (c # cs))"
      using 1 Cons by blast
    have split: "filter P xs = takeWhile P xs @ filter P (dropWhile P xs)" for P and xs :: jsstring
      by (induction xs) auto
    have "concat (ws_words s) =
        takeWhile non_ws (c # cs) @ filter non_ws (dropWhile non_ws (c # cs))"
      using IH by (simp only: ws_words_unfold_Cons [OF Cons] concat.simps)
    also have "\<dots> = filter non_ws (c # cs)"
      using split [of non_ws "c # cs"] by simp
    also have "\<dots> = filter non_ws s"
      using drop [of s] Cons by simp
    finally show ?thesis .
  qed
qed

text \<open>
  C5. For every string, \<open>cleanText\<close> returns the whitespace-separated words of its
  input (the maximal runs of code units that are no whitespace, U+00A0 counting as
  whitespace) joined by single ASCII spaces, with nothing before the first and nothing
  after the last word; the words are non-empty, free of whitespace, and together hold
  exactly the non-whitespace code units of the input in order. The string
  "Hello", LF, LF, two spaces, "World", U+00A0, "!" becomes "Hello World !".
\<close>

theorem cleanText_normalizes:
  "cleanText s = join_space (ws_words s)
   \<and> list_all (\<lambda>w. w \<noteq> [] \<and> list_all non_ws w) (ws_words s)
   \<and> concat (ws_words s) = filter non_ws s
   \<and> is_ws NBSP
   \<and> cleanText (ascii ''Hello'' @ [0x0A, 0x0A, 0x20, 0x20] @ ascii ''World'' @ [NBSP] @ ascii ''!'')
       = ascii ''Hello World !''"
proof -
  have "cleanText (ascii ''Hello'' @ [0x0A, 0x0A, 0x20, 0x20] @ ascii ''World'' @ [NBSP] @ ascii ''!'')
       = ascii ''Hello World !''"
    by (simp add: cleanText_def trim_def replace_nbsp_def is_ws_def SPACE_def NBSP_def ascii_def)
  then show ?thesis
    using cleanText_words ws_words_wellformed ws_words_content is_ws_NBSP by blast
qed

theorem cleanText_normalizes_witness:
  "cleanText [0x09, 0x61, 0x20, 0x3000, 0x62, 0x0A] = [0x61, 0x20, 0x62]
   \<and> ws_words [0x09, 0x61, 0x20, 0x3000, 0x62, 0x0A] = [[0x61], [0x62]]"
proof -
  have w: "ws_words [0x09, 0x61, 0x20, 0x3000, 0x62, 0x0A] = [[0x61], [0x62]]"
    by (simp add: ws_words.simps [of "[0x09, 0x61, 0x20, 0x3000, 0x62, 0x0A]"]
        ws_words.simps [of "[0x20, 0x3000, 0x62, 0x0A]"] ws_words.simps [of "[0x0A]"]
        is_ws_def non_ws_def)
  show ?thesis
    using cleanText_normalizes [of "[0x09, 0x61, 0x20, 0x3000, 0x62, 0x0A]"] w
    by (simp add: SPACE_def)
qed

subsection \<open>The tiles\<close>

lemma pad_tiles_ge: "3 \<le> length ts \<Longrightarrow> pad_tiles ts = ts"
  by (subst pad_tiles.simps) simp

lemma pad_tiles_eq: "pad_tiles ts = ts @ replicate (3 - length ts) empty_tile"
proof (induction ts rule: pad_tiles.induct)
  case (1 tiles)
  show ?case
  proof (cases "length tiles < 3")
    case True
    then have "pad_tiles tiles = pad_tiles (tiles @ [empty_tile])"
      by (subst pad_tiles.simps) simp
    also have "\<dots> = (tiles @ [empty_tile]) @ replicate (3 - length (tiles @ [empty_tile])) empty_tile"
      using 1 True by simp
    also have "\<dots> = tiles @ replicate (3 - length tiles) empty_tile"
    proof -
      have "3 - length tiles = Suc (2 - length tiles)" using True by arith
      then show ?thesis by (simp add: replicate_append_same)
    qed
    finally show ?thesis .
  next
    case False
    then show ?thesis by (simp add: pad_tiles_ge)
  qed
qed

lemma tile_fold:
  "length acc \<le> 3 \<Longrightarrow>
   foldl (tile_step U p) acc items =
     acc @ take (3 - length acc) (filter tile_nonempty (map (tile_of U p) items))"
proof (induction items arbitrary: acc)
  case Nil
  then show ?case by simp
next
  case (Cons el items)
  show ?case
  proof (cases "3 \<le> length acc")
    case True
    with Cons show ?thesis by (simp add: tile_step_def)
  next
    case False
    then have lt: "length acc < 3" by simp
    show ?thesis
    proof (cases "tile_nonempty (tile_of U p el)")
      case True
      have "foldl (tile_step U p) acc (el # items) =
          foldl (tile_step U p) (acc @ [tile_of U p el]) items"
        using lt True by (simp add: tile_step_def)
      also have "\<dots> = (acc @ [tile_of U p el]) @
          take (3 - length (acc @ [tile_of U p el])) (filter tile_nonempty (map (tile_of U p) items))"
        using lt by (intro Cons.IH) simp
      also have "\<dots> = acc @ take (3 - length acc) (filter tile_nonempty (map (tile_of U p) (el # items)))"
      proof -
        have "3 - length acc = Suc (2 - length acc)" using lt by arith
        then show ?thesis using True by simp
      qed
      finally show ?thesis .
    next
      case False
      then show ?thesis
        using Cons lt by (simp add: tile_step_def)
    qed
  qed
qed

lemma collect_tiles_eq:
  "collect_tiles U p wrap =
     tile_slots U p wrap"
  by (simp add: collect_tiles_def tile_fold pad_tiles_eq kept_tiles_def tile_slots_def)

lemma length_collect_tiles: "length (collect_tiles U p wrap) = 3"
  by (simp add: collect_tiles_eq kept_tiles_def tile_slots_def)

lemma length_tile_slots: "length (tile_slots U p wrap) = 3"
  by (simp add: kept_tiles_def tile_slots_def)

lemma tile_at_slots:
  "i < 3 \<Longrightarrow> tile_at (tile_slots U p wrap) i = Inr (tile_slots U p wrap ! i)"
  by (simp add: tile_at_def length_tile_slots)


lemma kept_tiles_candidates:
  "kept_tiles U p w = map (tile_of U p) (kept_candidates U p w)"
  by (simp add: kept_tiles_def kept_candidates_def filter_map comp_def take_map)

lemma length_kept_candidates: "length (kept_candidates U p w) \<le> 3"
  by (simp add: kept_candidates_def)

lemma tile_slots_kept:
  "i < length (kept_candidates U p w) \<Longrightarrow>
   tile_slots U p w ! i = tile_of U p (kept_candidates U p w ! i)"
  by (simp add: tile_slots_def kept_tiles_candidates nth_append)

lemma tile_slots_padding:
  "length (kept_candidates U p w) \<le> i \<Longrightarrow> i < 3 \<Longrightarrow> tile_slots U p w ! i = empty_tile"
  by (simp add: tile_slots_def kept_tiles_candidates nth_append)

lemma absolutizeUrl_js_or: "absolutizeUrl U (js_or v (Some [])) p = absolutizeUrl U v p"
  by (cases v) (auto simp: js_or_def truthy_def absolutizeUrl_def)

lemma tile_of_linkUrl:
  "linkUrl (tile_of U p el) = absolutizeUrl U (attr_sel ''href'' (tile_link el)) p"
  by (simp add: tile_of_def tile_link_def Let_def absolutizeUrl_js_or)

lemma extractPageData_fields:
  "\<exists>p. extractPageData L U html pageUrl = Inr p
     \<and> url p = pageUrl
     \<and> banner_image p = bannerImage U (first (select (L html) (div_class ''banner''))) pageUrl
     \<and> banner_title p = bannerTitle (first (select (L html) (div_class ''banner'')))
     \<and> banner_description p =
         cleanText (text_sel (first (find_sel (is_tag ''p'') (first (select (L html) (div_class ''banner''))))))
     \<and> banner_button_text p =
         cleanText (text_sel (bannerBtn (first (select (L html) (div_class ''banner'')))))
     \<and> banner_button_link p =
         absolutizeUrl U (js_or (attr_sel ''href'' (bannerBtn (first (select (L html) (div_class ''banner'')))))
            (Some [])) pageUrl
     \<and> main_description p =
         cleanText (text_sel (first (select (L html) (div_class ''main-description''))))
     \<and> video_heading p =
         cleanText (text_sel (first (find_sel
            (\<lambda>n. is_tag ''h1'' n \<or> is_tag ''h2'' n \<or> is_tag ''h3'' n)
            (first (select (L html) (div_class ''article-video''))))))
     \<and> video_embed_url p =
         absolutizeUrl U (videoSource (first (select (L html) (div_class ''article-video'')))) pageUrl
     \<and> [tile1_heading p, tile1_description p, tile1_link_title p, tile1_link_url p]
         = tile_values (tile_slots U pageUrl (first (select (L html) (div_class ''related-articles''))) ! 0)
     \<and> [tile2_heading p, tile2_description p, tile2_link_title p, tile2_link_url p]
         = tile_values (tile_slots U pageUrl (first (select (L html) (div_class ''related-articles''))) ! 1)
     \<and> [tile3_heading p, tile3_description p, tile3_link_title p, tile3_link_url p]
         = tile_values (tile_slots U pageUrl (first (select (L html) (div_class ''related-articles''))) ! 2)"
  by (simp add: extractPageData_def Let_def tile_at_slots tile_values_def collect_tiles_eq)


lemma tile_slot_fields_slots:
  assumes "extractPageData L U html pageUrl = Inr p" and "i < 3"
  shows "tile_slot_fields p i =
    tile_values (tile_slots U pageUrl (first (select (L html) (div_class ''related-articles''))) ! i)"
proof -
  obtain p' where "extractPageData L U html pageUrl = Inr p'"
    and "[tile1_heading p', tile1_description p', tile1_link_title p', tile1_link_url p']
         = tile_values (tile_slots U pageUrl (first (select (L html) (div_class ''related-articles''))) ! 0)"
    and "[tile2_heading p', tile2_description p', tile2_link_title p', tile2_link_url p']
         = tile_values (tile_slots U pageUrl (first (select (L html) (div_class ''related-articles''))) ! 1)"
    and "[tile3_heading p', tile3_description p', tile3_link_title p', tile3_link_url p']
         = tile_values (tile_slots U pageUrl (first (select (L html) (div_class ''related-articles''))) ! 2)"
    using extractPageData_fields [of L U html pageUrl] by blast
  moreover from this assms(1) have "p' = p" by simp
  moreover have "i = 0 \<or> i = 1 \<or> i = 2" using assms(2) by arith
  ultimately show ?thesis
    by (auto simp: tile_slot_fields_def)
qed

lemma tile_slot_fields_kept:
  assumes "extractPageData L U html pageUrl = Inr p"
    and "i < length (kept_candidates U pageUrl (first (select (L html) (div_class ''related-articles''))))"
  shows "tile_slot_fields p i = tile_values (tile_of U pageUrl
    (kept_candidates U pageUrl (first (select (L html) (div_class ''related-articles''))) ! i))"
proof -
  have "i < 3"
    using assms(2) length_kept_candidates [of U pageUrl
        "first (select (L html) (div_class ''related-articles''))"] by arith
  then show ?thesis
    using tile_slot_fields_slots [OF assms(1)] tile_slots_kept [OF assms(2)] by simp
qed

lemma tile_slot_fields_padding:
  assumes "extractPageData L U html pageUrl = Inr p"
    and "length (kept_candidates U pageUrl (first (select (L html) (div_class ''related-articles'')))) \<le> i"
    and "i < 3"
  shows "tile_slot_fields p i = [[], [], [], []]"
  using tile_slot_fields_slots [OF assms(1,3)] tile_slots_padding [OF assms(2,3)]
  by (simp add: tile_values_def empty_tile_def)

lemma tile_link_url_slots:
  assumes "extractPageData L U html pageUrl = Inr p"
  shows "tile1_link_url p =
      linkUrl (tile_slots U pageUrl (first (select (L html) (div_class ''related-articles''))) ! 0)"
    and "tile2_link_url p =
      linkUrl (tile_slots U pageUrl (first (select (L html) (div_class ''related-articles''))) ! 1)"
    and "tile3_link_url p =
      linkUrl (tile_slots U pageUrl (first (select (L html) (div_class ''related-articles''))) ! 2)"
  using tile_slot_fields_slots [OF assms, of 0] tile_slot_fields_slots [OF assms, of 1]
    tile_slot_fields_slots [OF assms, of 2]
  by (simp_all add: tile_slot_fields_def tile_values_def)

lemma tiles_doc_slots:
  "tile_slots demo_URL (ascii ''https://a.com/p'')
      (first (select tiles_doc (div_class ''related-articles'')))
   = [\<lparr> heading = ascii ''A'', description = [], linkTitle = ascii ''go'',
         linkUrl = ascii ''https://a.com/a'' \<rparr>,
      \<lparr> heading = [], description = ascii ''b c'', linkTitle = [], linkUrl = [] \<rparr>,
      empty_tile]"
  by code_simp


text \<open>
  C4. Every page record holds three tile slots. The candidates of the first tiles
  wrapper (\<open>tileItems\<close>) are read in document order; those whose heading,
  description, link title and link URL are all empty are skipped; the first three of
  the others are kept (\<open>kept_tiles\<close>); empty tiles fill the slots up to three
  (\<open>tile_slots\<close>). The twelve tile properties of the record are the fields of
  these three slots, and all twelve are properties of the row.
\<close>

theorem tiles_three_slots:
  "\<exists>p. extractPageData L U html pageUrl = Inr p
     \<and> length (tile_slots U pageUrl (first (select (L html) (div_class ''related-articles'')))) = 3
     \<and> [tile1_heading p, tile1_description p, tile1_link_title p, tile1_link_url p]
         = tile_values (tile_slots U pageUrl (first (select (L html) (div_class ''related-articles''))) ! 0)
     \<and> [tile2_heading p, tile2_description p, tile2_link_title p, tile2_link_url p]
         = tile_values (tile_slots U pageUrl (first (select (L html) (div_class ''related-articles''))) ! 1)
     \<and> [tile3_heading p, tile3_description p, tile3_link_title p, tile3_link_url p]
         = tile_values (tile_slots U pageUrl (first (select (L html) (div_class ''related-articles''))) ! 2)
     \<and> map (map_of (row_fields (Data p))) tile_columns
         = map Some [tile1_heading p, tile1_description p, tile1_link_title p, tile1_link_url p,
                     tile2_heading p, tile2_description p, tile2_link_title p, tile2_link_url p,
                     tile3_heading p, tile3_description p, tile3_link_title p, tile3_link_url p]"
proof -
  obtain p where p: "extractPageData L U html pageUrl = Inr p"
    and t1: "[tile1_heading p, tile1_description p, tile1_link_title p, tile1_link_url p]
         = tile_values (tile_slots U pageUrl (first (select (L html) (div_class ''related-articles''))) ! 0)"
    and t2: "[tile2_heading p, tile2_description p, tile2_link_title p, tile2_link_url p]
         = tile_values (tile_slots U pageUrl (first (select (L html) (div_class ''related-articles''))) ! 1)"
    and t3: "[tile3_heading p, tile3_description p, tile3_link_title p, tile3_link_url p]
         = tile_values (tile_slots U pageUrl (first (select (L html) (div_class ''related-articles''))) ! 2)"
    using extractPageData_fields [of L U html pageUrl] by blast
  have cols: "map (map_of (row_fields (Data p))) tile_columns
         = map Some [tile1_heading p, tile1_description p, tile1_link_title p, tile1_link_url p,
                     tile2_heading p, tile2_description p, tile2_link_title p, tile2_link_url p,
                     tile3_heading p, tile3_description p, tile3_link_title p, tile3_link_url p]"
    by (simp add: tile_columns_def page_fields_def)
  show ?thesis
    using p t1 t2 t3 cols length_tile_slots by blast
qed

theorem tiles_three_slots_witness:
  "\<exists>p. extractPageData (\<lambda>h. tiles_doc) demo_URL [] (ascii ''https://a.com/p'') = Inr p
     \<and> [tile1_heading p, tile1_description p, tile1_link_title p, tile1_link_url p]
         = [ascii ''A'', [], ascii ''go'', ascii ''https://a.com/a'']
     \<and> [tile2_heading p, tile2_description p, tile2_link_title p, tile2_link_url p]
         = [[], ascii ''b c'', [], []]
     \<and> [tile3_heading p, tile3_description p, tile3_link_title p, tile3_link_url p]
         = [[], [], [], []]"
  using tiles_three_slots [of "\<lambda>h. tiles_doc" demo_URL "[]" "ascii ''https://a.com/p''"]
  by (simp only: tiles_doc_slots) (auto simp: tile_values_def empty_tile_def)

subsection \<open>Missing structure\<close>

lemma first_Nil: "first [] = []"
  by (simp add: first_def)

lemma find_sel_Nil: "find_sel sel [] = []"
  by (simp add: find_sel_def)

lemma text_sel_Nil: "text_sel [] = []"
  by (simp add: text_sel_def)

lemma cleanText_Nil: "cleanText [] = []"
  by (simp add: cleanText_def)

lemma absolutizeUrl_empty: "absolutizeUrl U None p = []" "absolutizeUrl U (Some []) p = []"
  by (simp_all add: absolutizeUrl_def)

lemma js_or_None: "js_or None b = b"
  by (simp add: js_or_def truthy_def)

lemma match_here_Nil: "match_here [] = None"
  by (simp add: match_here_def ascii_def)

lemma bannerImage_missing:
  "attr_sel ''src'' (first (find_sel (is_tag ''img'') banner)) = None \<Longrightarrow>
   attr_sel ''style'' banner = None \<Longrightarrow> bannerImage U banner p = []"
  by (simp add: bannerImage_def truthy_def js_or_None match_here_Nil)

lemma bannerTitle_missing:
  "find_sel (is_tag ''h1'') banner = [] \<Longrightarrow> find_sel (is_tag ''h2'') banner = [] \<Longrightarrow>
   bannerTitle banner = []"
  by (simp add: bannerTitle_def first_Nil text_sel_Nil cleanText_Nil)

lemma bannerBtn_missing:
  "find_sel (\<lambda>n. is_tag ''a'' n \<or> is_tag ''button'' n) banner = [] \<Longrightarrow> bannerBtn banner = []"
  by (simp add: bannerBtn_def first_Nil)

lemma videoSource_missing:
  "attr_sel ''src'' (first (find_sel (is_tag ''iframe'') video)) = None \<Longrightarrow>
   attr_sel ''data-src'' (first (find_sel (has_attr ''data-src'') video)) = None \<Longrightarrow>
   attr_sel ''href'' (first (find_sel (is_tag ''a'') video)) = None \<Longrightarrow>
   videoSource video = Some []"
  by (simp add: videoSource_def js_or_None)

lemma tileItems_Nil: "tileItems [] = []"
  by (simp add: tileItems_def find_sel_def children_sel_def)

lemma tile_slots_missing:
  "tileItems wrap = [] \<Longrightarrow> tile_slots U p wrap = [empty_tile, empty_tile, empty_tile]"
  by (simp add: tile_slots_def kept_tiles_def numeral_3_eq_3)

lemma tile_values_empty: "tile_values empty_tile = [[], [], [], []]"
  by (simp add: tile_values_def empty_tile_def)


lemma tile_of_heading_missing:
  "find_sel (\<lambda>n. is_tag ''h1'' n \<or> is_tag ''h2'' n \<or> is_tag ''h3'' n \<or> is_tag ''h4'' n) [el] = []
   \<Longrightarrow> heading (tile_of U p el) = []"
  by (simp add: tile_of_def Let_def first_Nil text_sel_Nil cleanText_Nil)

lemma tile_of_description_missing:
  "find_sel (is_tag ''p'') [el] = [] \<Longrightarrow> description (tile_of U p el) = []"
  by (simp add: tile_of_def Let_def first_Nil text_sel_Nil cleanText_Nil)

lemma attr_sel_Nil: "attr_sel a [] = None"
  by simp

lemma tile_of_link_missing:
  "find_sel (is_tag ''a'') [el] = [] \<Longrightarrow>
   linkTitle (tile_of U p el) = [] \<and> linkUrl (tile_of U p el) = []"
  by (simp add: tile_of_def Let_def first_Nil text_sel_Nil cleanText_Nil attr_sel_Nil js_or_None
      absolutizeUrl_empty)

lemma tile_of_href_missing:
  "attr_sel ''href'' (tile_link el) = None \<Longrightarrow> linkUrl (tile_of U p el) = []"
  by (simp add: tile_of_linkUrl absolutizeUrl_empty)

lemma select_first_missing: "select doc sel = [] \<Longrightarrow> first (select doc sel) = []"
  by (simp add: first_Nil)

text \<open>
  C3. \<open>extractPageData\<close> returns a record for every HTML string and page URL: the
  reads \<open>tiles[0]\<close>, \<open>tiles[1]\<close> and \<open>tiles[2]\<close>, the only places where it could
  throw, always find a tile. A field whose structure is missing is the empty string:
  without a banner wrapper the five banner fields; without an image source and a
  style attribute the banner image; without a first- or second-level heading the
  banner title; without a paragraph the banner description; without an anchor or
  button the button text and link; without an href on the button the button link;
  without a main-description block the main description; without a video wrapper
  the two video fields; without a heading the video heading; without an iframe
  source, a data-src attribute and an anchor's href the embed URL; without a tiles
  wrapper, or without candidates in it, the twelve tile fields. For the candidate
  kept in slot \<open>i\<close>: without a heading of level 1 to 4 the slot's heading; without a
  paragraph its description; without an anchor its link title and link URL; without
  an href on its link the link URL. A slot beyond the kept candidates has four empty
  fields.
\<close>

theorem extractPageData_total:
  "\<exists>p. extractPageData L U html pageUrl = Inr p \<and> url p = pageUrl
     \<and> (let doc = L html;
              banner = first (select doc (div_class ''banner''));
              video = first (select doc (div_class ''article-video''));
              tilesWrap = first (select doc (div_class ''related-articles''));
              kept = kept_candidates U pageUrl tilesWrap
          in (select doc (div_class ''banner'') = [] \<longrightarrow>
                banner_image p = [] \<and> banner_title p = [] \<and> banner_description p = []
                \<and> banner_button_text p = [] \<and> banner_button_link p = [])
           \<and> (attr_sel ''src'' (first (find_sel (is_tag ''img'') banner)) = None
                \<and> attr_sel ''style'' banner = None \<longrightarrow> banner_image p = [])
           \<and> (find_sel (is_tag ''h1'') banner = [] \<and> find_sel (is_tag ''h2'') banner = []
                \<longrightarrow> banner_title p = [])
           \<and> (find_sel (is_tag ''p'') banner = [] \<longrightarrow> banner_description p = [])
           \<and> (find_sel (\<lambda>n. is_tag ''a'' n \<or> is_tag ''button'' n) banner = []
                \<longrightarrow> banner_button_text p = [] \<and> banner_button_link p = [])
           \<and> (attr_sel ''href'' (bannerBtn banner) = None \<longrightarrow> banner_button_link p = [])
           \<and> (select doc (div_class ''main-description'') = [] \<longrightarrow> main_description p = [])
           \<and> (select doc (div_class ''article-video'') = [] \<longrightarrow>
                video_heading p = [] \<and> video_embed_url p = [])
           \<and> (find_sel (\<lambda>n. is_tag ''h1'' n \<or> is_tag ''h2'' n \<or> is_tag ''h3'' n) video = []
                \<longrightarrow> video_heading p = [])
           \<and> (attr_sel ''src'' (first (find_sel (is_tag ''iframe'') video)) = None
                \<and> attr_sel ''data-src'' (first (find_sel (has_attr ''data-src'') video)) = None
                \<and> attr_sel ''href'' (first (find_sel (is_tag ''a'') video)) = None
                \<longrightarrow> video_embed_url p = [])
           \<and> (select doc (div_class ''related-articles'') = [] \<longrightarrow>
                tile_fields p = replicate 12 [])
           \<and> (tileItems tilesWrap = [] \<longrightarrow> tile_fields p = replicate 12 [])
           \<and> (i < length kept \<longrightarrow>
                (find_sel (\<lambda>n. is_tag ''h1'' n \<or> is_tag ''h2'' n \<or> is_tag ''h3'' n \<or> is_tag ''h4'' n)
                    [kept ! i] = [] \<longrightarrow> tile_slot_fields p i ! 0 = [])
                \<and> (find_sel (is_tag ''p'') [kept ! i] = [] \<longrightarrow> tile_slot_fields p i ! 1 = [])
                \<and> (find_sel (is_tag ''a'') [kept ! i] = [] \<longrightarrow>
                     tile_slot_fields p i ! 2 = [] \<and> tile_slot_fields p i ! 3 = [])
                \<and> (attr_sel ''href'' (tile_link (kept ! i)) = None \<longrightarrow>
                     tile_slot_fields p i ! 3 = []))
           \<and> (length kept \<le> i \<and> i < 3 \<longrightarrow> tile_slot_fields p i = [[], [], [], []]))"
proof -
  define banner where "banner = first (select (L html) (div_class ''banner''))"
  define video where "video = first (select (L html) (div_class ''article-video''))"
  define wrap where "wrap = first (select (L html) (div_class ''related-articles''))"
  define kept where "kept = kept_candidates U pageUrl wrap"
  obtain p where p: "extractPageData L U html pageUrl = Inr p" and u: "url p = pageUrl"
    and bi: "banner_image p = bannerImage U banner pageUrl"
    and bt: "banner_title p = bannerTitle banner"
    and bd: "banner_description p = cleanText (text_sel (first (find_sel (is_tag ''p'') banner)))"
    and bbt: "banner_button_text p = cleanText (text_sel (bannerBtn banner))"
    and bbl: "banner_button_link p =
         absolutizeUrl U (js_or (attr_sel ''href'' (bannerBtn banner)) (Some [])) pageUrl"
    and md: "main_description p =
         cleanText (text_sel (first (select (L html) (div_class ''main-description''))))"
    and vh: "video_heading p = cleanText (text_sel (first (find_sel
            (\<lambda>n. is_tag ''h1'' n \<or> is_tag ''h2'' n \<or> is_tag ''h3'' n) video)))"
    and ve: "video_embed_url p = absolutizeUrl U (videoSource video) pageUrl"
    and t1: "[tile1_heading p, tile1_description p, tile1_link_title p, tile1_link_url p]
         = tile_values (tile_slots U pageUrl wrap ! 0)"
    and t2: "[tile2_heading p, tile2_description p, tile2_link_title p, tile2_link_url p]
         = tile_values (tile_slots U pageUrl wrap ! 1)"
    and t3: "[tile3_heading p, tile3_description p, tile3_link_title p, tile3_link_url p]
         = tile_values (tile_slots U pageUrl wrap ! 2)"
    unfolding banner_def video_def wrap_def
    using extractPageData_fields [of L U html pageUrl] by blast
  have image: "banner_image p = []"
    if "attr_sel ''src'' (first (find_sel (is_tag ''img'') banner)) = None"
      and "attr_sel ''style'' banner = None"
    using that bi by (simp add: bannerImage_missing)
  have title: "banner_title p = []"
    if "find_sel (is_tag ''h1'') banner = []" and "find_sel (is_tag ''h2'') banner = []"
    using that bt by (simp add: bannerTitle_missing)
  have descr: "banner_description p = []" if "find_sel (is_tag ''p'') banner = []"
    using that bd by (simp add: first_Nil text_sel_Nil cleanText_Nil)
  have button: "banner_button_text p = [] \<and> banner_button_link p = []"
    if "find_sel (\<lambda>n. is_tag ''a'' n \<or> is_tag ''button'' n) banner = []"
    using bannerBtn_missing [OF that] bbt bbl
    by (simp add: text_sel_Nil cleanText_Nil js_or_None absolutizeUrl_empty)
  have link: "banner_button_link p = []" if "attr_sel ''href'' (bannerBtn banner) = None"
    using that bbl by (simp add: js_or_None absolutizeUrl_empty)
  have no_banner: "banner_image p = [] \<and> banner_title p = [] \<and> banner_description p = []
      \<and> banner_button_text p = [] \<and> banner_button_link p = []"
    if "select (L html) (div_class ''banner'') = []"
  proof -
    have "banner = []" using that by (simp add: banner_def first_Nil)
    then show ?thesis
      using image title descr button by (simp add: find_sel_Nil first_Nil)
  qed
  have main_d: "main_description p = []"
    if "select (L html) (div_class ''main-description'') = []"
    using that md by (simp add: first_Nil text_sel_Nil cleanText_Nil)
  have vhead: "video_heading p = []"
    if "find_sel (\<lambda>n. is_tag ''h1'' n \<or> is_tag ''h2'' n \<or> is_tag ''h3'' n) video = []"
    using that vh by (simp add: first_Nil text_sel_Nil cleanText_Nil)
  have vembed: "video_embed_url p = []"
    if "attr_sel ''src'' (first (find_sel (is_tag ''iframe'') video)) = None"
      and "attr_sel ''data-src'' (first (find_sel (has_attr ''data-src'') video)) = None"
      and "attr_sel ''href'' (first (find_sel (is_tag ''a'') video)) = None"
    using videoSource_missing [OF that] ve by (simp add: absolutizeUrl_empty)
  have no_video: "video_heading p = [] \<and> video_embed_url p = []"
    if "select (L html) (div_class ''article-video'') = []"
  proof -
    have "video = []" using that by (simp add: video_def first_Nil)
    then show ?thesis
      using vhead vembed by (simp add: find_sel_Nil first_Nil)
  qed
  have tiles: "tile_fields p = replicate 12 []" if "tileItems wrap = []"
  proof -
    have "tile_slots U pageUrl wrap = [empty_tile, empty_tile, empty_tile]"
      using that by (rule tile_slots_missing)
    then show ?thesis
      using t1 t2 t3 by (simp add: tile_values_empty tile_fields_def numeral_eq_Suc)
  qed
  have no_tiles: "tile_fields p = replicate 12 []"
    if "select (L html) (div_class ''related-articles'') = []"
  proof -
    have "wrap = []" using that by (simp add: wrap_def first_Nil)
    then show ?thesis using tiles by (simp add: tileItems_Nil)
  qed
  have tv: "tile_slot_fields p i = tile_values (tile_of U pageUrl (kept ! i))"
    if "i < length kept"
    using tile_slot_fields_kept [OF p, of i] that by (simp add: kept_def wrap_def)
  have th: "tile_slot_fields p i ! 0 = []"
    if "i < length kept"
      and "find_sel (\<lambda>n. is_tag ''h1'' n \<or> is_tag ''h2'' n \<or> is_tag ''h3'' n \<or> is_tag ''h4'' n)
        [kept ! i] = []"
    using tv [OF that(1)] tile_of_heading_missing [OF that(2), of U pageUrl]
    by (simp add: tile_values_def)
  have td: "tile_slot_fields p i ! 1 = []"
    if "i < length kept" and "find_sel (is_tag ''p'') [kept ! i] = []"
    using tv [OF that(1)] tile_of_description_missing [OF that(2), of U pageUrl]
    by (simp add: tile_values_def)
  have tl: "tile_slot_fields p i ! 2 = [] \<and> tile_slot_fields p i ! 3 = []"
    if "i < length kept" and "find_sel (is_tag ''a'') [kept ! i] = []"
    using tv [OF that(1)] tile_of_link_missing [OF that(2), of U pageUrl]
    by (simp add: tile_values_def)
  have tu: "tile_slot_fields p i ! 3 = []"
    if "i < length kept" and "attr_sel ''href'' (tile_link (kept ! i)) = None"
    using tv [OF that(1)] tile_of_href_missing [OF that(2), of U pageUrl]
    by (simp add: tile_values_def)
  have candidate: "i < length kept \<longrightarrow>
        (find_sel (\<lambda>n. is_tag ''h1'' n \<or> is_tag ''h2'' n \<or> is_tag ''h3'' n \<or> is_tag ''h4'' n)
            [kept ! i] = [] \<longrightarrow> tile_slot_fields p i ! 0 = [])
        \<and> (find_sel (is_tag ''p'') [kept ! i] = [] \<longrightarrow> tile_slot_fields p i ! 1 = [])
        \<and> (find_sel (is_tag ''a'') [kept ! i] = [] \<longrightarrow>
             tile_slot_fields p i ! 2 = [] \<and> tile_slot_fields p i ! 3 = [])
        \<and> (attr_sel ''href'' (tile_link (kept ! i)) = None \<longrightarrow>
             tile_slot_fields p i ! 3 = [])"
    using th td tl tu by blast
  have padding: "length kept \<le> i \<and> i < 3 \<longrightarrow> tile_slot_fields p i = [[], [], [], []]"
    using tile_slot_fields_padding [OF p, of i] by (simp add: kept_def wrap_def)
  show ?thesis
    unfolding Let_def banner_def [symmetric] video_def [symmetric] wrap_def [symmetric]
      kept_def [symmetric]
    by (intro exI [of _ p] conjI candidate padding; (intro impI)?)
      (simp_all add: p u image title descr button link no_banner main_d vhead vembed
        no_video tiles no_tiles)
qed

lemma blank_doc_selects:
  "select blank_doc (div_class ''banner'') = []"
  "select blank_doc (div_class ''main-description'') = []"
  "select blank_doc (div_class ''article-video'') = []"
  "select blank_doc (div_class ''related-articles'') = []"
  by code_simp+

lemma tiles_doc_candidates:
  "length (kept_candidates demo_URL (ascii ''https://a.com/p'')
      (first (select tiles_doc (div_class ''related-articles'')))) = 2"
  "find_sel (is_tag ''p'')
     [kept_candidates demo_URL (ascii ''https://a.com/p'')
        (first (select tiles_doc (div_class ''related-articles''))) ! 0] = []"
  "find_sel (\<lambda>n. is_tag ''h1'' n \<or> is_tag ''h2'' n \<or> is_tag ''h3'' n \<or> is_tag ''h4'' n)
     [kept_candidates demo_URL (ascii ''https://a.com/p'')
        (first (select tiles_doc (div_class ''related-articles''))) ! 1] = []"
  "find_sel (is_tag ''a'')
     [kept_candidates demo_URL (ascii ''https://a.com/p'')
        (first (select tiles_doc (div_class ''related-articles''))) ! 1] = []"
  by code_simp+

lemma links_doc_tiles:
  "length (kept_candidates demo_URL (ascii ''https://a.com/p'')
      (first (select links_doc (div_class ''related-articles'')))) = 3"
  "absolutizeUrl demo_URL (attr_sel ''href'' (tile_link
      (kept_candidates demo_URL (ascii ''https://a.com/p'')
         (first (select links_doc (div_class ''related-articles''))) ! 0)))
     (ascii ''https://a.com/p'') = ascii ''https://a.com/t''"
  "attr_sel ''href'' (tile_link
      (kept_candidates demo_URL (ascii ''https://a.com/p'')
         (first (select links_doc (div_class ''related-articles''))) ! 1)) = None"
  "attr_sel ''href'' (tile_link
      (kept_candidates demo_URL (ascii ''https://a.com/p'')
         (first (select links_doc (div_class ''related-articles''))) ! 2)) = Some []"
  by code_simp+

theorem extractPageData_total_witness:
  "(\<exists>p. extractPageData (\<lambda>h. blank_doc) demo_URL [] (ascii ''https://a.com/p'') = Inr p
     \<and> url p = ascii ''https://a.com/p''
     \<and> content_values p = replicate 20 [])
   \<and> (\<exists>p. extractPageData (\<lambda>h. tiles_doc) demo_URL [] (ascii ''https://a.com/p'') = Inr p
     \<and> tile1_description p = []
     \<and> tile2_heading p = [] \<and> tile2_link_title p = [] \<and> tile2_link_url p = []
     \<and> [tile3_heading p, tile3_description p, tile3_link_title p, tile3_link_url p]
         = [[], [], [], []])
   \<and> (\<exists>p. extractPageData (\<lambda>h. links_doc) demo_URL [] (ascii ''https://a.com/p'') = Inr p
     \<and> tile2_link_url p = [])"
proof -
  from extractPageData_total [where L = "\<lambda>h. blank_doc" and U = demo_URL and html = "[]"
      and pageUrl = "ascii ''https://a.com/p''" and i = 0]
  obtain p where p: "extractPageData (\<lambda>h. blank_doc) demo_URL [] (ascii ''https://a.com/p'') = Inr p"
    and u: "url p = ascii ''https://a.com/p''"
    and rest: "(select blank_doc (div_class ''banner'') = [] \<longrightarrow>
                banner_image p = [] \<and> banner_title p = [] \<and> banner_description p = []
                \<and> banner_button_text p = [] \<and> banner_button_link p = [])
           \<and> (select blank_doc (div_class ''main-description'') = [] \<longrightarrow> main_description p = [])
           \<and> (select blank_doc (div_class ''article-video'') = [] \<longrightarrow>
                video_heading p = [] \<and> video_embed_url p = [])
           \<and> (select blank_doc (div_class ''related-articles'') = [] \<longrightarrow>
                tile_fields p = replicate 12 [])"
    unfolding Let_def by (elim exE conjE) (rule that, assumption+, intro conjI, assumption+)
  have "content_values p = replicate 20 []"
    using rest by (simp add: blank_doc_selects content_values_def tile_fields_def numeral_eq_Suc)
  with p u have blank: "\<exists>p. extractPageData (\<lambda>h. blank_doc) demo_URL [] (ascii ''https://a.com/p'') = Inr p
     \<and> url p = ascii ''https://a.com/p''
     \<and> content_values p = replicate 20 []"
    by blast
  define kept where "kept = kept_candidates demo_URL (ascii ''https://a.com/p'')
      (first (select tiles_doc (div_class ''related-articles'')))"
  obtain q where q: "extractPageData (\<lambda>h. tiles_doc) demo_URL [] (ascii ''https://a.com/p'') = Inr q"
    using extractPageData_total [where L = "\<lambda>h. tiles_doc" and U = demo_URL and html = "[]"
      and pageUrl = "ascii ''https://a.com/p''" and i = 0]
    by (elim exE conjE) (rule that)
  have slot: "(i < length kept \<longrightarrow>
        (find_sel (\<lambda>n. is_tag ''h1'' n \<or> is_tag ''h2'' n \<or> is_tag ''h3'' n \<or> is_tag ''h4'' n)
            [kept ! i] = [] \<longrightarrow> tile_slot_fields q i ! 0 = [])
        \<and> (find_sel (is_tag ''p'') [kept ! i] = [] \<longrightarrow> tile_slot_fields q i ! 1 = [])
        \<and> (find_sel (is_tag ''a'') [kept ! i] = [] \<longrightarrow>
             tile_slot_fields q i ! 2 = [] \<and> tile_slot_fields q i ! 3 = [])
        \<and> (attr_sel ''href'' (tile_link (kept ! i)) = None \<longrightarrow>
             tile_slot_fields q i ! 3 = []))
      \<and> (length kept \<le> i \<and> i < 3 \<longrightarrow> tile_slot_fields q i = [[], [], [], []])" for i
  proof -
    from extractPageData_total [where L = "\<lambda>h. tiles_doc" and U = demo_URL and html = "[]"
        and pageUrl = "ascii ''https://a.com/p''" and i = i, unfolded Let_def, folded kept_def]
    obtain q' where q': "extractPageData (\<lambda>h. tiles_doc) demo_URL [] (ascii ''https://a.com/p'') = Inr q'"
      and a: "i < length kept \<longrightarrow>
        (find_sel (\<lambda>n. is_tag ''h1'' n \<or> is_tag ''h2'' n \<or> is_tag ''h3'' n \<or> is_tag ''h4'' n)
            [kept ! i] = [] \<longrightarrow> tile_slot_fields q' i ! 0 = [])
        \<and> (find_sel (is_tag ''p'') [kept ! i] = [] \<longrightarrow> tile_slot_fields q' i ! 1 = [])
        \<and> (find_sel (is_tag ''a'') [kept ! i] = [] \<longrightarrow>
             tile_slot_fields q' i ! 2 = [] \<and> tile_slot_fields q' i ! 3 = [])
        \<and> (attr_sel ''href'' (tile_link (kept ! i)) = None \<longrightarrow>
             tile_slot_fields q' i ! 3 = [])"
      and b: "length kept \<le> i \<and> i < 3 \<longrightarrow> tile_slot_fields q' i = [[], [], [], []]"
      by (elim exE conjE) (rule that, assumption+)
    have "q' = q" using q q' by simp
    with a b show ?thesis by (intro conjI) simp_all
  qed
  have k: "length kept = 2"
    and k0: "find_sel (is_tag ''p'') [kept ! 0] = []"
    and k1: "find_sel (\<lambda>n. is_tag ''h1'' n \<or> is_tag ''h2'' n \<or> is_tag ''h3'' n \<or> is_tag ''h4'' n)
        [kept ! 1] = []"
      "find_sel (is_tag ''a'') [kept ! 1] = []"
    unfolding kept_def by (rule tiles_doc_candidates)+
  have "tile_slot_fields q 0 ! 1 = []"
    using slot [of 0] k k0 by simp
  then have s0: "tile1_description q = []"
    by (simp add: tile_slot_fields_def)
  have "tile_slot_fields q 1 ! 0 = [] \<and> tile_slot_fields q 1 ! 2 = [] \<and> tile_slot_fields q 1 ! 3 = []"
    using slot [of 1] k k1 by simp
  then have s1: "tile2_heading q = []" "tile2_link_title q = []" "tile2_link_url q = []"
    by (simp_all add: tile_slot_fields_def)
  have "tile_slot_fields q 2 = [[], [], [], []]"
    using slot [of 2] k by simp
  then have s2: "[tile3_heading q, tile3_description q, tile3_link_title q, tile3_link_url q]
         = [[], [], [], []]"
    by (simp add: tile_slot_fields_def)
  have sparse: "\<exists>p. extractPageData (\<lambda>h. tiles_doc) demo_URL [] (ascii ''https://a.com/p'') = Inr p
     \<and> tile1_description p = []
     \<and> tile2_heading p = [] \<and> tile2_link_title p = [] \<and> tile2_link_url p = []
     \<and> [tile3_heading p, tile3_description p, tile3_link_title p, tile3_link_url p]
         = [[], [], [], []]"
    by (intro exI [of _ q] conjI) (rule q s0 s1 s2)+
  from extractPageData_total [where L = "\<lambda>h. links_doc" and U = demo_URL and html = "[]"
      and pageUrl = "ascii ''https://a.com/p''" and i = 1]
  obtain r where r: "extractPageData (\<lambda>h. links_doc) demo_URL [] (ascii ''https://a.com/p'') = Inr r"
    and l: "1 < length (kept_candidates demo_URL (ascii ''https://a.com/p'')
          (first (select links_doc (div_class ''related-articles'')))) \<longrightarrow>
        (find_sel (\<lambda>n. is_tag ''h1'' n \<or> is_tag ''h2'' n \<or> is_tag ''h3'' n \<or> is_tag ''h4'' n)
            [kept_candidates demo_URL (ascii ''https://a.com/p'')
               (first (select links_doc (div_class ''related-articles''))) ! 1] = []
          \<longrightarrow> tile_slot_fields r 1 ! 0 = [])
        \<and> (find_sel (is_tag ''p'')
            [kept_candidates demo_URL (ascii ''https://a.com/p'')
               (first (select links_doc (div_class ''related-articles''))) ! 1] = []
          \<longrightarrow> tile_slot_fields r 1 ! 1 = [])
        \<and> (find_sel (is_tag ''a'')
            [kept_candidates demo_URL (ascii ''https://a.com/p'')
               (first (select links_doc (div_class ''related-articles''))) ! 1] = []
          \<longrightarrow> tile_slot_fields r 1 ! 2 = [] \<and> tile_slot_fields r 1 ! 3 = [])
        \<and> (attr_sel ''href'' (tile_link
            (kept_candidates demo_URL (ascii ''https://a.com/p'')
               (first (select links_doc (div_class ''related-articles''))) ! 1)) = None
          \<longrightarrow> tile_slot_fields r 1 ! 3 = [])"
    unfolding Let_def by (elim exE conjE) (rule that, assumption+)
  have "tile_slot_fields r 1 ! 3 = []"
    using l links_doc_tiles(1,3) by simp
  then have "tile2_link_url r = []"
    by (simp add: tile_slot_fields_def)
  with r have bare: "\<exists>p. extractPageData (\<lambda>h. links_doc) demo_URL [] (ascii ''https://a.com/p'') = Inr p
     \<and> tile2_link_url p = []"
    by blast
  show ?thesis
    by (intro conjI) (rule blank sparse bare)+
qed

subsection \<open>Link targets\<close>

lemma bannerImage_source:
  "bannerImage U banner p = absolutizeUrl U (banner_image_source banner) p"
  by (auto simp: bannerImage_def banner_image_source_def style_of_def Let_def absolutizeUrl_def
      split: option.splits)

text \<open>
  C6. \<open>absolutizeUrl\<close> returns the empty string for a missing or empty reference,
  the URL the parser resolves the reference to against the page URL when it
  resolves, and the reference itself when the parser fails. The four link fields of
  the record are made by it: the banner image from the image reference, the button
  link from the button's href, the embed URL from the video reference, and the link
  URL of each of the three tile slots from the href of the link of the candidate
  kept in that slot; the link URL of a slot beyond the kept candidates is empty.
\<close>

theorem link_targets_absolutized:
  "absolutizeUrl U None pageUrl = []
   \<and> absolutizeUrl U (Some []) pageUrl = []
   \<and> (rel \<noteq> [] \<and> U rel pageUrl = Some u \<longrightarrow> absolutizeUrl U (Some rel) pageUrl = u)
   \<and> (rel \<noteq> [] \<and> U rel pageUrl = None \<longrightarrow> absolutizeUrl U (Some rel) pageUrl = rel)
   \<and> (\<exists>p. extractPageData L U html pageUrl = Inr p
          \<and> banner_image p =
              absolutizeUrl U (banner_image_source (first (select (L html) (div_class ''banner'')))) pageUrl
          \<and> banner_button_link p =
              absolutizeUrl U
                (attr_sel ''href'' (bannerBtn (first (select (L html) (div_class ''banner''))))) pageUrl
          \<and> video_embed_url p =
              absolutizeUrl U (videoSource (first (select (L html) (div_class ''article-video'')))) pageUrl
          \<and> (let kept = kept_candidates U pageUrl
                  (first (select (L html) (div_class ''related-articles'')))
              in (0 < length kept \<longrightarrow> tile1_link_url p =
                    absolutizeUrl U (attr_sel ''href'' (tile_link (kept ! 0))) pageUrl)
               \<and> (1 < length kept \<longrightarrow> tile2_link_url p =
                    absolutizeUrl U (attr_sel ''href'' (tile_link (kept ! 1))) pageUrl)
               \<and> (2 < length kept \<longrightarrow> tile3_link_url p =
                    absolutizeUrl U (attr_sel ''href'' (tile_link (kept ! 2))) pageUrl)
               \<and> (length kept \<le> 0 \<longrightarrow> tile1_link_url p = [])
               \<and> (length kept \<le> 1 \<longrightarrow> tile2_link_url p = [])
               \<and> (length kept \<le> 2 \<longrightarrow> tile3_link_url p = [])))
   \<and> linkUrl (tile_of U pageUrl el) = absolutizeUrl U (attr_sel ''href'' (tile_link el)) pageUrl"
proof -
  define kept where "kept = kept_candidates U pageUrl
      (first (select (L html) (div_class ''related-articles'')))"
  obtain p where p: "extractPageData L U html pageUrl = Inr p"
    and "banner_image p = bannerImage U (first (select (L html) (div_class ''banner''))) pageUrl"
    and "banner_button_link p =
         absolutizeUrl U (js_or (attr_sel ''href'' (bannerBtn (first (select (L html) (div_class ''banner'')))))
            (Some [])) pageUrl"
    and "video_embed_url p =
         absolutizeUrl U (videoSource (first (select (L html) (div_class ''article-video'')))) pageUrl"
    using extractPageData_fields [of L U html pageUrl] by blast
  then have fields: "banner_image p =
              absolutizeUrl U (banner_image_source (first (select (L html) (div_class ''banner'')))) pageUrl"
          "banner_button_link p =
              absolutizeUrl U
                (attr_sel ''href'' (bannerBtn (first (select (L html) (div_class ''banner''))))) pageUrl"
          "video_embed_url p =
              absolutizeUrl U (videoSource (first (select (L html) (div_class ''article-video'')))) pageUrl"
    by (simp_all add: bannerImage_source absolutizeUrl_js_or)
  have kept_url: "linkUrl (tile_slots U pageUrl
        (first (select (L html) (div_class ''related-articles''))) ! i)
      = absolutizeUrl U (attr_sel ''href'' (tile_link (kept ! i))) pageUrl" if "i < length kept" for i
    using that tile_slots_kept [of i U pageUrl
        "first (select (L html) (div_class ''related-articles''))"]
    by (simp add: kept_def tile_of_linkUrl)
  have pad_url: "linkUrl (tile_slots U pageUrl
        (first (select (L html) (div_class ''related-articles''))) ! i) = []"
    if "length kept \<le> i" "i < 3" for i
    using that tile_slots_padding [of U pageUrl
        "first (select (L html) (div_class ''related-articles''))" i]
    by (simp add: kept_def empty_tile_def)
  have tiles: "(0 < length kept \<longrightarrow> tile1_link_url p =
                    absolutizeUrl U (attr_sel ''href'' (tile_link (kept ! 0))) pageUrl)
               \<and> (1 < length kept \<longrightarrow> tile2_link_url p =
                    absolutizeUrl U (attr_sel ''href'' (tile_link (kept ! 1))) pageUrl)
               \<and> (2 < length kept \<longrightarrow> tile3_link_url p =
                    absolutizeUrl U (attr_sel ''href'' (tile_link (kept ! 2))) pageUrl)
               \<and> (length kept \<le> 0 \<longrightarrow> tile1_link_url p = [])
               \<and> (length kept \<le> 1 \<longrightarrow> tile2_link_url p = [])
               \<and> (length kept \<le> 2 \<longrightarrow> tile3_link_url p = [])"
    using kept_url [of 0] kept_url [of 1] kept_url [of 2] pad_url [of 0] pad_url [of 1] pad_url [of 2]
    by (simp add: tile_link_url_slots [OF p])
  have page: "\<exists>p. extractPageData L U html pageUrl = Inr p
          \<and> banner_image p =
              absolutizeUrl U (banner_image_source (first (select (L html) (div_class ''banner'')))) pageUrl
          \<and> banner_button_link p =
              absolutizeUrl U
                (attr_sel ''href'' (bannerBtn (first (select (L html) (div_class ''banner''))))) pageUrl
          \<and> video_embed_url p =
              absolutizeUrl U (videoSource (first (select (L html) (div_class ''article-video'')))) pageUrl
          \<and> (let kept = kept_candidates U pageUrl
                  (first (select (L html) (div_class ''related-articles'')))
              in (0 < length kept \<longrightarrow> tile1_link_url p =
                    absolutizeUrl U (attr_sel ''href'' (tile_link (kept ! 0))) pageUrl)
               \<and> (1 < length kept \<longrightarrow> tile2_link_url p =
                    absolutizeUrl U (attr_sel ''href'' (tile_link (kept ! 1))) pageUrl)
               \<and> (2 < length kept \<longrightarrow> tile3_link_url p =
                    absolutizeUrl U (attr_sel ''href'' (tile_link (kept ! 2))) pageUrl)
               \<and> (length kept \<le> 0 \<longrightarrow> tile1_link_url p = [])
               \<and> (length kept \<le> 1 \<longrightarrow> tile2_link_url p = [])
               \<and> (length kept \<le> 2 \<longrightarrow> tile3_link_url p = []))"
    unfolding Let_def kept_def [symmetric]
    by (intro exI [of _ p] conjI) (rule p fields tiles [THEN conjunct1]
        tiles [THEN conjunct2, THEN conjunct1]
        tiles [THEN conjunct2, THEN conjunct2, THEN conjunct1]
        tiles [THEN conjunct2, THEN conjunct2, THEN conjunct2, THEN conjunct1]
        tiles [THEN conjunct2, THEN conjunct2, THEN conjunct2, THEN conjunct2, THEN conjunct1]
        tiles [THEN conjunct2, THEN conjunct2, THEN conjunct2, THEN conjunct2, THEN conjunct2])+
  have res: "rel \<noteq> [] \<and> U rel pageUrl = Some u \<longrightarrow> absolutizeUrl U (Some rel) pageUrl = u"
    by (simp add: absolutizeUrl_def)
  have pass: "rel \<noteq> [] \<and> U rel pageUrl = None \<longrightarrow> absolutizeUrl U (Some rel) pageUrl = rel"
    by (simp add: absolutizeUrl_def)
  show ?thesis
    by (intro conjI) (rule absolutizeUrl_empty res pass page tile_of_linkUrl)+
qed

lemma links_doc_values:
  "demo_URL (ascii ''/x.png'') (ascii ''https://a.com/p'') = Some (ascii ''https://a.com/x.png'')"
  "demo_URL (ascii ''http://['') (ascii ''https://a.com/p'') = None"
  "banner_image_source (first (select links_doc (div_class ''banner''))) = Some (ascii ''/x.png'')"
  "attr_sel ''href'' (bannerBtn (first (select links_doc (div_class ''banner'')))) = Some (ascii ''http://['')"
  "absolutizeUrl demo_URL (videoSource (first (select links_doc (div_class ''article-video''))))
     (ascii ''https://a.com/p'') = ascii ''https://a.com/v/1''"
  by code_simp+

lemma links_doc_tile3:
  "absolutizeUrl demo_URL (attr_sel ''href'' (tile_link
      (kept_candidates demo_URL (ascii ''https://a.com/p'')
         (first (select links_doc (div_class ''related-articles''))) ! 2)))
     (ascii ''https://a.com/p'') = []"
  by code_simp

theorem link_targets_absolutized_witness:
  "\<exists>p. extractPageData (\<lambda>h. links_doc) demo_URL [] (ascii ''https://a.com/p'') = Inr p
        \<and> banner_image p = ascii ''https://a.com/x.png''
        \<and> banner_button_link p = ascii ''http://[''
        \<and> video_embed_url p = ascii ''https://a.com/v/1''
        \<and> tile1_link_url p = ascii ''https://a.com/t''
        \<and> tile2_link_url p = []
        \<and> tile3_link_url p = []"
proof -
  have ne: "ascii ''/x.png'' \<noteq> []" "ascii ''http://['' \<noteq> []"
    by (simp_all add: ascii_def)
  have a: "absolutizeUrl demo_URL (Some (ascii ''/x.png'')) (ascii ''https://a.com/p'')
      = ascii ''https://a.com/x.png''"
    using link_targets_absolutized [where U = demo_URL and pageUrl = "ascii ''https://a.com/p''"
        and rel = "ascii ''/x.png''" and u = "ascii ''https://a.com/x.png''"
        and L = "\<lambda>h. links_doc" and html = "[]" and el = "Text []"]
      ne links_doc_values(1)
    by (elim conjE) simp
  have b: "absolutizeUrl demo_URL (Some (ascii ''http://['')) (ascii ''https://a.com/p'')
      = ascii ''http://[''"
    using link_targets_absolutized [where U = demo_URL and pageUrl = "ascii ''https://a.com/p''"
        and rel = "ascii ''http://[''" and u = "[]"
        and L = "\<lambda>h. links_doc" and html = "[]" and el = "Text []"]
      ne links_doc_values(2)
    by (elim conjE) simp
  have c: "absolutizeUrl demo_URL None (ascii ''https://a.com/p'') = []"
    using link_targets_absolutized [where U = demo_URL and pageUrl = "ascii ''https://a.com/p''"
        and rel = "[]" and u = "[]"
        and L = "\<lambda>h. links_doc" and html = "[]" and el = "Text []"]
    by (elim conjE)
  from link_targets_absolutized [where U = demo_URL and pageUrl = "ascii ''https://a.com/p''"
        and rel = "[]" and u = "[]"
        and L = "\<lambda>h. links_doc" and html = "[]" and el = "Text []"]
  obtain p where p: "extractPageData (\<lambda>h. links_doc) demo_URL [] (ascii ''https://a.com/p'') = Inr p"
    and f: "banner_image p =
      absolutizeUrl demo_URL (banner_image_source (first (select links_doc (div_class ''banner''))))
        (ascii ''https://a.com/p'')"
     "banner_button_link p =
      absolutizeUrl demo_URL
        (attr_sel ''href'' (bannerBtn (first (select links_doc (div_class ''banner'')))))
        (ascii ''https://a.com/p'')"
     "video_embed_url p =
      absolutizeUrl demo_URL (videoSource (first (select links_doc (div_class ''article-video''))))
        (ascii ''https://a.com/p'')"
    and t: "0 < length (kept_candidates demo_URL (ascii ''https://a.com/p'')
          (first (select links_doc (div_class ''related-articles'')))) \<longrightarrow>
        tile1_link_url p = absolutizeUrl demo_URL (attr_sel ''href'' (tile_link
          (kept_candidates demo_URL (ascii ''https://a.com/p'')
            (first (select links_doc (div_class ''related-articles''))) ! 0)))
          (ascii ''https://a.com/p'')"
      "1 < length (kept_candidates demo_URL (ascii ''https://a.com/p'')
          (first (select links_doc (div_class ''related-articles'')))) \<longrightarrow>
        tile2_link_url p = absolutizeUrl demo_URL (attr_sel ''href'' (tile_link
          (kept_candidates demo_URL (ascii ''https://a.com/p'')
            (first (select links_doc (div_class ''related-articles''))) ! 1)))
          (ascii ''https://a.com/p'')"
      "2 < length (kept_candidates demo_URL (ascii ''https://a.com/p'')
          (first (select links_doc (div_class ''related-articles'')))) \<longrightarrow>
        tile3_link_url p = absolutizeUrl demo_URL (attr_sel ''href'' (tile_link
          (kept_candidates demo_URL (ascii ''https://a.com/p'')
            (first (select links_doc (div_class ''related-articles''))) ! 2)))
          (ascii ''https://a.com/p'')"
    unfolding Let_def by (elim exE conjE) (rule that, assumption+)
  have fields: "banner_image p = ascii ''https://a.com/x.png''"
    "banner_button_link p = ascii ''http://[''"
    "video_embed_url p = ascii ''https://a.com/v/1''"
    using f a b by (simp_all add: links_doc_values)
  have t1: "tile1_link_url p = ascii ''https://a.com/t''"
    using t(1) by (simp add: links_doc_tiles(1,2))
  have t2: "tile2_link_url p = []"
    using t(2) c links_doc_tiles(1,3) by simp
  have t3: "tile3_link_url p = []"
    using t(3) by (simp add: links_doc_tiles(1) links_doc_tile3)
  show ?thesis
    by (intro exI [of _ p] conjI) (rule p fields t1 t2 t3)+
qed

subsection \<open>The banner image\<close>

lemma match_ci_Some:
  "match_ci p s = Some r \<Longrightarrow> \<exists>m. s = m @ r \<and> map to_lower m = map to_lower p"
proof (induction p s rule: match_ci.induct)
  case (1 s)
  then show ?case by simp
next
  case (2 p ps)
  then show ?case by simp
next
  case (3 p ps c cs)
  then have eq: "to_lower p = to_lower c" and "match_ci ps cs = Some r"
    by (auto split: if_splits)
  then obtain m where "cs = m @ r" "map to_lower m = map to_lower ps"
    using 3 by blast
  then have "c # cs = (c # m) @ r \<and> map to_lower (c # m) = map to_lower (p # ps)"
    using eq by simp
  then show ?case by blast
qed

lemma lazy_until_Some:
  "lazy_until suf s = Some g \<Longrightarrow>
     (\<exists>post. s = g @ suf @ post) \<and> list_all (\<lambda>c. \<not> is_line_terminator c) g"
proof (induction s arbitrary: g)
  case Nil
  then show ?case by (simp split: if_splits)
next
  case (Cons c cs)
  show ?case
  proof (cases "take (length suf) (c # cs) = suf")
    case True
    then have "g = []" using Cons.prems by simp
    moreover have "c # cs = suf @ drop (length suf) (c # cs)"
      using True append_take_drop_id [of "length suf" "c # cs"] by simp
    ultimately show ?thesis by auto
  next
    case False
    then obtain g' where nl: "\<not> is_line_terminator c" and g: "g = c # g'"
      and rec: "lazy_until suf cs = Some g'"
      using Cons.prems by (auto split: if_splits)
    from Cons.IH [OF rec] obtain post where "cs = g' @ suf @ post"
      and "list_all (\<lambda>c. \<not> is_line_terminator c) g'"
      by blast
    then show ?thesis using nl g by auto
  qed
qed

lemma lower_literals:
  "map to_lower (ascii ''background-image'') = ascii ''background-image''"
  "map to_lower (ascii ''url('') = ascii ''url(''"
  by (simp_all add: ascii_def to_lower_def)


lemma match_here_Some:
  assumes "match_here s = Some g"
  shows "\<exists>bi w1 w2 ur q post.
      s = bi @ w1 @ [COLON] @ w2 @ ur @ q @ g @ q @ [RPAREN] @ post
      \<and> map to_lower bi = ascii ''background-image''
      \<and> list_all is_ws w1 \<and> list_all is_ws w2
      \<and> map to_lower ur = ascii ''url(''
      \<and> (q = [] \<or> q = [0x27] \<or> q = [0x22])
      \<and> list_all (\<lambda>c. \<not> is_line_terminator c) g"
proof -
  obtain s1 where m1: "match_ci (ascii ''background-image'') s = Some s1"
    using assms by (auto simp: match_here_def split: option.splits)
  obtain s3 where d1: "dropWhile is_ws s1 = COLON # s3"
    using assms m1 by (auto simp: match_here_def split: option.splits list.splits if_splits)
  obtain s5 where m2: "match_ci (ascii ''url('') (dropWhile is_ws s3) = Some s5"
    using assms m1 d1 by (auto simp: match_here_def split: option.splits)
  obtain q0 s6 where s5: "s5 = q0 # s6"
    using assms m1 d1 m2 by (cases s5) (auto simp: match_here_def)
  have tail: "(is_quote q0 \<and> lazy_until [q0, RPAREN] s6 = Some g) \<or> lazy_until [RPAREN] s5 = Some g"
    using assms m1 d1 m2 s5 by (auto simp: match_here_def split: option.splits if_splits)
  obtain bi where bi: "s = bi @ s1" "map to_lower bi = ascii ''background-image''"
    using match_ci_Some [OF m1] by (auto simp: lower_literals)
  obtain ur where ur: "dropWhile is_ws s3 = ur @ s5" "map to_lower ur = ascii ''url(''"
    using match_ci_Some [OF m2] by (auto simp: lower_literals)
  define w1 where "w1 = takeWhile is_ws s1"
  define w2 where "w2 = takeWhile is_ws s3"
  have w1: "s1 = w1 @ COLON # s3" "list_all is_ws w1"
    using d1 takeWhile_dropWhile_id [of is_ws s1]
    by (auto simp: w1_def list_all_iff dest: set_takeWhileD)
  have w2: "s3 = w2 @ ur @ s5" "list_all is_ws w2"
    using ur takeWhile_dropWhile_id [of is_ws s3]
    by (auto simp: w2_def list_all_iff dest: set_takeWhileD)
  have shape: "s = bi @ w1 @ [COLON] @ w2 @ ur @ s5"
    using bi w1 w2 by simp
  from tail show ?thesis
  proof
    assume q: "is_quote q0 \<and> lazy_until [q0, RPAREN] s6 = Some g"
    then obtain post where "s6 = g @ [q0, RPAREN] @ post"
      and nl: "list_all (\<lambda>c. \<not> is_line_terminator c) g"
      using lazy_until_Some [of "[q0, RPAREN]" s6 g] by blast
    then have "s = bi @ w1 @ [COLON] @ w2 @ ur @ [q0] @ g @ [q0] @ [RPAREN] @ post"
      using shape s5 by simp
    moreover have "[q0] = [0x27] \<or> [q0] = [0x22]"
      using q by (auto simp: is_quote_def)
    ultimately show ?thesis
      using bi(2) ur(2) w1(2) w2(2) nl by blast
  next
    assume "lazy_until [RPAREN] s5 = Some g"
    then obtain post where "s5 = g @ [RPAREN] @ post"
      and nl: "list_all (\<lambda>c. \<not> is_line_terminator c) g"
      using lazy_until_Some [of "[RPAREN]" s5 g] by blast
    then have "s = bi @ w1 @ [COLON] @ w2 @ ur @ [] @ g @ [] @ [RPAREN] @ post"
      using shape by simp
    then show ?thesis
      using bi(2) ur(2) w1(2) w2(2) nl by blast
  qed
qed

lemma match_background_Some:
  "match_background s = Some g \<Longrightarrow> \<exists>pre rest. s = pre @ rest \<and> match_here rest = Some g"
proof (induction s)
  case Nil
  then show ?case by simp
next
  case (Cons c cs)
  show ?case
  proof (cases "match_here (c # cs)")
    case None
    then have "match_background cs = Some g" using Cons.prems by simp
    then obtain pre rest where "cs = pre @ rest" "match_here rest = Some g"
      using Cons.IH by blast
    then have "c # cs = (c # pre) @ rest \<and> match_here rest = Some g" by simp
    then show ?thesis by blast
  next
    case (Some a)
    then have "c # cs = [] @ (c # cs) \<and> match_here (c # cs) = Some g"
      using Cons.prems by simp
    then show ?thesis by blast
  qed
qed

lemma match_background_sound:
  assumes "match_background s = Some g"
  shows "\<exists>pre bi w1 w2 ur q post.
      s = pre @ bi @ w1 @ [COLON] @ w2 @ ur @ q @ g @ q @ [RPAREN] @ post
      \<and> map to_lower bi = ascii ''background-image''
      \<and> list_all is_ws w1 \<and> list_all is_ws w2
      \<and> map to_lower ur = ascii ''url(''
      \<and> (q = [] \<or> q = [0x27] \<or> q = [0x22])
      \<and> list_all (\<lambda>c. \<not> is_line_terminator c) g"
proof -
  obtain pre rest where s: "s = pre @ rest" and "match_here rest = Some g"
    using match_background_Some [OF assms] by blast
  from match_here_Some [OF this(2)] obtain bi w1 w2 ur q post where
    "rest = bi @ w1 @ [COLON] @ w2 @ ur @ q @ g @ q @ [RPAREN] @ post"
    "map to_lower bi = ascii ''background-image''" "list_all is_ws w1" "list_all is_ws w2"
    "map to_lower ur = ascii ''url(''" "q = [] \<or> q = [0x27] \<or> q = [0x22]"
    "list_all (\<lambda>c. \<not> is_line_terminator c) g"
    by blast
  then show ?thesis using s by blast
qed


lemma banner_style_match: "match_background banner_style = Some (ascii ''/img/banner.jpg'')"
  by code_simp

lemma style_of_Some: "attr_sel ''style'' banner = Some v \<Longrightarrow> style_of banner = v"
  by (auto simp: style_of_def js_or_def truthy_def)

lemma match_ci_complete: "map to_lower m = map to_lower p \<Longrightarrow> match_ci p (m @ r) = Some r"
proof (induction p arbitrary: m)
  case Nil
  then show ?case by simp
next
  case (Cons a p)
  then obtain c m' where "m = c # m'" by (cases m) auto
  with Cons show ?case by simp
qed

lemma match_ci_take:
  assumes "match_ci p s = Some r"
  shows "map to_lower (take (length p) s) = map to_lower p"
proof -
  obtain m where m: "s = m @ r" "map to_lower m = map to_lower p"
    using match_ci_Some [OF assms] by blast
  then have "length m = length p" by (metis length_map)
  then show ?thesis using m by simp
qed

lemma match_here_no_name:
  assumes "map to_lower (take 16 s) \<noteq> ascii ''background-image''"
  shows "match_here s = None"
proof -
  have len: "length (ascii ''background-image'') = 16"
    by (simp add: ascii_def)
  have "match_ci (ascii ''background-image'') s = None"
  proof (rule ccontr)
    assume "match_ci (ascii ''background-image'') s \<noteq> None"
    then obtain r where "match_ci (ascii ''background-image'') s = Some r" by auto
    from match_ci_take [OF this] show False
      using assms by (simp add: len lower_literals)
  qed
  then show ?thesis by (simp add: match_here_def)
qed

lemma lazy_until_fresh:
  "s0 \<notin> set g \<Longrightarrow> list_all (\<lambda>c. \<not> is_line_terminator c) g \<Longrightarrow>
   lazy_until (s0 # ss) (g @ (s0 # ss) @ post) = Some g"
  by (induction g) auto

lemma ws_not_u: "is_ws c \<Longrightarrow> to_lower c \<noteq> 0x75"
  by (auto simp: is_ws_def to_lower_def)

lemma url_head:
  assumes "map to_lower ur = ascii ''url(''"
  shows "\<exists>u0 rest. ur = u0 # rest \<and> \<not> is_ws u0"
proof -
  obtain u0 rest where ur: "ur = u0 # rest"
    using assms by (cases ur) (auto simp: ascii_def)
  then have "to_lower u0 = 0x75" using assms by (simp add: ascii_def)
  then have "\<not> is_ws u0" using ws_not_u by blast
  with ur show ?thesis by blast
qed

lemma dropWhile_ws_run:
  "list_all is_ws w \<Longrightarrow> \<not> is_ws c \<Longrightarrow> dropWhile is_ws (w @ c # rest) = c # rest"
  by (induction w) auto

lemma not_ws_COLON: "\<not> is_ws COLON"
  by (simp add: is_ws_def COLON_def)

lemma not_quote_RPAREN: "\<not> is_quote RPAREN"
  by (simp add: is_quote_def RPAREN_def)

lemma match_here_complete:
  assumes bi: "map to_lower bi = ascii ''background-image''"
    and w1: "list_all is_ws w1" and w2: "list_all is_ws w2"
    and ur: "map to_lower ur = ascii ''url(''"
    and nl: "list_all (\<lambda>c. \<not> is_line_terminator c) g"
    and q: "(q = [] \<and> RPAREN \<notin> set g \<and> (g = [] \<or> \<not> is_quote (hd g)))
          \<or> (\<exists>c. q = [c] \<and> is_quote c \<and> c \<notin> set g)"
  shows "match_here (bi @ w1 @ [COLON] @ w2 @ ur @ q @ g @ q @ [RPAREN] @ post) = Some g"
proof -
  define s5 where "s5 = q @ g @ q @ [RPAREN] @ post"
  obtain u0 rest where u0: "ur = u0 # rest" "\<not> is_ws u0"
    using url_head [OF ur] by blast
  have m1: "match_ci (ascii ''background-image'') (bi @ w1 @ [COLON] @ w2 @ ur @ s5)
      = Some (w1 @ [COLON] @ w2 @ ur @ s5)"
    using bi by (intro match_ci_complete) (simp add: lower_literals)
  have d1: "dropWhile is_ws (w1 @ [COLON] @ w2 @ ur @ s5) = COLON # (w2 @ ur @ s5)"
    using dropWhile_ws_run [OF w1 not_ws_COLON] by simp
  have d2: "dropWhile is_ws (w2 @ ur @ s5) = ur @ s5"
    using dropWhile_ws_run [OF w2 u0(2), of "rest @ s5"] u0(1) by simp
  have m2: "match_ci (ascii ''url('') (ur @ s5) = Some s5"
    using ur by (intro match_ci_complete) (simp add: lower_literals)
  have tail: "(case s5 of
        [] \<Rightarrow> None
      | q0 # s6 \<Rightarrow>
          if is_quote q0 then
            (case lazy_until [q0, RPAREN] s6 of
               Some g \<Rightarrow> Some g
             | None \<Rightarrow> lazy_until [RPAREN] s5)
          else lazy_until [RPAREN] s5) = Some g"
    using q
  proof
    assume a: "q = [] \<and> RPAREN \<notin> set g \<and> (g = [] \<or> \<not> is_quote (hd g))"
    then have s5: "s5 = g @ [RPAREN] @ post" by (simp add: s5_def)
    have lz: "lazy_until [RPAREN] s5 = Some g"
      unfolding s5 using a nl by (intro lazy_until_fresh) auto
    show ?thesis
    proof (cases g)
      case Nil
      then show ?thesis using lz s5 by (simp add: not_quote_RPAREN)
    next
      case (Cons g0 gs)
      then have "\<not> is_quote g0" using a by simp
      then show ?thesis using lz s5 Cons by simp
    qed
  next
    assume "\<exists>c. q = [c] \<and> is_quote c \<and> c \<notin> set g"
    then obtain c where c: "q = [c]" "is_quote c" "c \<notin> set g" by blast
    then have s5: "s5 = c # (g @ [c, RPAREN] @ post)" by (simp add: s5_def)
    have "lazy_until [c, RPAREN] (g @ [c, RPAREN] @ post) = Some g"
      using c nl by (intro lazy_until_fresh) auto
    then show ?thesis using s5 c by simp
  qed
  have "match_here (bi @ w1 @ [COLON] @ w2 @ ur @ s5) = Some g"
    unfolding match_here_def using tail by (simp only: m1 d1 d2 m2 option.case list.case if_False
        simp_thms)
  then show ?thesis by (simp add: s5_def)
qed

lemma match_background_here: "match_here s = Some g \<Longrightarrow> match_background s = Some g"
  by (cases s) simp_all

lemma match_background_skip:
  "list_all (\<lambda>k. match_here (drop k (pre @ rest)) = None) [0..<length pre] \<Longrightarrow>
   match_background (pre @ rest) = match_background rest"
proof (induction pre)
  case Nil
  then show ?case by simp
next
  case (Cons c pre)
  have all: "\<And>k. k < Suc (length pre) \<Longrightarrow> match_here (drop k ((c # pre) @ rest)) = None"
    using Cons.prems by (auto simp: list_all_iff less_Suc_eq)
  have "match_here (c # pre @ rest) = None" using all [of 0] by simp
  moreover have "list_all (\<lambda>k. match_here (drop k (pre @ rest)) = None) [0..<length pre]"
    unfolding list_all_iff
  proof (intro ballI)
    fix k
    assume "k \<in> set [0..<length pre]"
    then have "Suc k < Suc (length pre)" by simp
    from all [OF this] show "match_here (drop k (pre @ rest)) = None" by simp
  qed
  ultimately show ?case using Cons.IH by simp
qed

lemma match_background_complete:
  assumes bi: "map to_lower bi = ascii ''background-image''"
    and w1: "list_all is_ws w1" and w2: "list_all is_ws w2"
    and ur: "map to_lower ur = ascii ''url(''"
    and nl: "list_all (\<lambda>c. \<not> is_line_terminator c) g"
    and q: "(q = [] \<and> RPAREN \<notin> set g \<and> (g = [] \<or> \<not> is_quote (hd g)))
          \<or> (\<exists>c. q = [c] \<and> is_quote c \<and> c \<notin> set g)"
    and first_decl: "list_all
        (\<lambda>k. map to_lower (take 16 (drop k (pre @ bi @ w1 @ [COLON] @ w2 @ ur @ q @ g @ q @ [RPAREN] @ post)))
              \<noteq> ascii ''background-image'')
        [0..<length pre]"
  shows "match_background (pre @ bi @ w1 @ [COLON] @ w2 @ ur @ q @ g @ q @ [RPAREN] @ post) = Some g"
proof -
  have "list_all
      (\<lambda>k. match_here (drop k (pre @ bi @ w1 @ [COLON] @ w2 @ ur @ q @ g @ q @ [RPAREN] @ post)) = None)
      [0..<length pre]"
    using first_decl by (auto simp: list_all_iff intro: match_here_no_name)
  then have "match_background (pre @ bi @ w1 @ [COLON] @ w2 @ ur @ q @ g @ q @ [RPAREN] @ post)
      = match_background (bi @ w1 @ [COLON] @ w2 @ ur @ q @ g @ q @ [RPAREN] @ post)"
    by (rule match_background_skip)
  also have "\<dots> = Some g"
    using match_here_complete [OF bi w1 w2 ur nl q] by (rule match_background_here)
  finally show ?thesis .
qed

lemma declaration_match:
  assumes d: "is_declaration name w1 w2 opener q ref"
    and n: "no_earlier_name pre (declaration_text name w1 w2 opener q ref @ post)"
  shows "match_background (pre @ declaration_text name w1 w2 opener q ref @ post) = Some ref"
proof -
  have q: "(q = [] \<and> RPAREN \<notin> set ref \<and> (ref = [] \<or> \<not> is_quote (hd ref)))
          \<or> (\<exists>c. q = [c] \<and> is_quote c \<and> c \<notin> set ref)"
    using d by (auto simp: is_declaration_def is_quote_def)
  have "match_background (pre @ name @ w1 @ [COLON] @ w2 @ opener @ q @ ref @ q @ [RPAREN] @ post)
      = Some ref"
    using d n q
    by (intro match_background_complete)
      (simp_all add: is_declaration_def no_earlier_name_def declaration_text_def)
  then show ?thesis by (simp add: declaration_text_def)
qed

lemma banner_image_declared:
  assumes "extractPageData L U html pageUrl = Inr p"
    and "\<not> truthy (attr_sel ''src'' (first (find_sel (is_tag ''img'')
            (first (select (L html) (div_class ''banner''))))))"
    and "attr_sel ''style'' (first (select (L html) (div_class ''banner'')))
           = Some (pre @ declaration_text name w1 w2 opener q ref @ post)"
    and "is_declaration name w1 w2 opener q ref"
    and "no_earlier_name pre (declaration_text name w1 w2 opener q ref @ post)"
  shows "banner_image p = absolutizeUrl U (Some ref) pageUrl"
proof -
  define banner where "banner = first (select (L html) (div_class ''banner''))"
  obtain p' where "extractPageData L U html pageUrl = Inr p'"
    and "banner_image p' = bannerImage U banner pageUrl"
    unfolding banner_def using extractPageData_fields [of L U html pageUrl] by blast
  then have "banner_image p = absolutizeUrl U (banner_image_source banner) pageUrl"
    using assms(1) by (simp add: bannerImage_source)
  moreover have "banner_image_source banner = Some ref"
    using assms(2) style_of_Some [OF assms(3)] declaration_match [OF assms(4,5)]
    by (simp add: banner_image_source_def banner_def)
  ultimately show ?thesis by simp
qed

lemma banner_image_branches:
  "\<exists>p. extractPageData L U html pageUrl = Inr p
     \<and> (let banner = first (select (L html) (div_class ''banner''));
              imgSrc = attr_sel ''src'' (first (find_sel (is_tag ''img'') banner))
          in (truthy imgSrc \<longrightarrow> banner_image p = absolutizeUrl U imgSrc pageUrl)
           \<and> (\<not> truthy imgSrc \<longrightarrow>
                banner_image p = absolutizeUrl U (match_background (style_of banner)) pageUrl)
           \<and> (imgSrc \<noteq> Some [] \<longrightarrow> banner_image p = banner_image_claimed U banner pageUrl)
           \<and> (find_sel (is_tag ''img'') banner = [] \<and> attr_sel ''style'' banner = Some banner_style
                \<longrightarrow> banner_image p = absolutizeUrl U (Some (ascii ''/img/banner.jpg'')) pageUrl))"
proof -
  define banner where "banner = first (select (L html) (div_class ''banner''))"
  define imgSrc where "imgSrc = attr_sel ''src'' (first (find_sel (is_tag ''img'') banner))"
  obtain p where p: "extractPageData L U html pageUrl = Inr p"
    and bi: "banner_image p = bannerImage U banner pageUrl"
    unfolding banner_def using extractPageData_fields [of L U html pageUrl] by blast
  have src: "banner_image p = absolutizeUrl U (banner_image_source banner) pageUrl"
    using bi by (simp add: bannerImage_source)
  have a: "banner_image p = absolutizeUrl U imgSrc pageUrl" if "truthy imgSrc"
    using that src by (simp add: banner_image_source_def imgSrc_def)
  have b: "banner_image p = absolutizeUrl U (match_background (style_of banner)) pageUrl"
    if "\<not> truthy imgSrc"
    using that src by (simp add: banner_image_source_def imgSrc_def)
  have c: "banner_image p = banner_image_claimed U banner pageUrl" if "imgSrc \<noteq> Some []"
  proof (cases imgSrc)
    case None
    then have "\<not> truthy imgSrc" by (simp add: truthy_def)
    then show ?thesis
      using b None by (simp add: banner_image_claimed_def imgSrc_def)
  next
    case (Some v)
    then have "truthy imgSrc" using that by (simp add: truthy_def)
    then show ?thesis
      using a Some by (simp add: banner_image_claimed_def imgSrc_def)
  qed
  have d: "banner_image p = absolutizeUrl U (Some (ascii ''/img/banner.jpg'')) pageUrl"
    if "find_sel (is_tag ''img'') banner = []" and "attr_sel ''style'' banner = Some banner_style"
  proof -
    have "\<not> truthy imgSrc"
      using that(1) by (simp add: imgSrc_def first_Nil truthy_def)
    then show ?thesis
      using b style_of_Some [OF that(2)] by (simp add: banner_style_match)
  qed
  have page: "\<exists>p. extractPageData L U html pageUrl = Inr p
     \<and> (let banner = first (select (L html) (div_class ''banner''));
              imgSrc = attr_sel ''src'' (first (find_sel (is_tag ''img'') banner))
          in (truthy imgSrc \<longrightarrow> banner_image p = absolutizeUrl U imgSrc pageUrl)
           \<and> (\<not> truthy imgSrc \<longrightarrow>
                banner_image p = absolutizeUrl U (match_background (style_of banner)) pageUrl)
           \<and> (imgSrc \<noteq> Some [] \<longrightarrow> banner_image p = banner_image_claimed U banner pageUrl)
           \<and> (find_sel (is_tag ''img'') banner = [] \<and> attr_sel ''style'' banner = Some banner_style
                \<longrightarrow> banner_image p = absolutizeUrl U (Some (ascii ''/img/banner.jpg'')) pageUrl))"
    unfolding Let_def banner_def [symmetric] imgSrc_def [symmetric]
    by (intro exI [of _ p] conjI impI) (simp_all add: p a b c d)
  show ?thesis by (rule page)
qed


text \<open>
  C7, as amended. The banner image is made of the \<open>src\<close> of the first image inside
  the first banner wrapper when that attribute is present and not empty; otherwise
  (no image, no \<open>src\<close>, or an empty \<open>src\<close>) of group 2 of the leftmost match of
  \<open>background-image : url( ... )\<close> in the wrapper's style attribute, and it is
  empty when there is no match. Either is absolutized against the page URL. Whenever
  the \<open>src\<close> is not the empty string this is the banner image as the claim words
  it. A style that holds a declaration of the background image, at any place, with no
  earlier occurrence of the property name, yields the reference of that declaration:
  the match finds it, and the record holds it, absolutized. Conversely, what the
  match returns stands in the style between \<open>url(\<close>, an optional quote, and the same
  quote and \<open>)\<close>, after \<open>background-image\<close>, optional whitespace, a colon and
  optional whitespace. A wrapper without an image whose style is
  \<open>background-image:url('/img/banner.jpg')\<close> yields \<open>/img/banner.jpg\<close>, absolutized.
\<close>

theorem banner_image_precedence:
  "(\<exists>p. extractPageData L U html pageUrl = Inr p
     \<and> (let banner = first (select (L html) (div_class ''banner''));
              imgSrc = attr_sel ''src'' (first (find_sel (is_tag ''img'') banner))
          in (truthy imgSrc \<longrightarrow> banner_image p = absolutizeUrl U imgSrc pageUrl)
           \<and> (\<not> truthy imgSrc \<longrightarrow>
                banner_image p = absolutizeUrl U (match_background (style_of banner)) pageUrl)
           \<and> (imgSrc \<noteq> Some [] \<longrightarrow> banner_image p = banner_image_claimed U banner pageUrl)
           \<and> (find_sel (is_tag ''img'') banner = [] \<and> attr_sel ''style'' banner = Some banner_style
                \<longrightarrow> banner_image p = absolutizeUrl U (Some (ascii ''/img/banner.jpg'')) pageUrl)
           \<and> (\<not> truthy imgSrc
                \<and> attr_sel ''style'' banner = Some (pre @ declaration_text name w1 w2 opener q ref @ post)
                \<and> is_declaration name w1 w2 opener q ref
                \<and> no_earlier_name pre (declaration_text name w1 w2 opener q ref @ post)
                \<longrightarrow> banner_image p = absolutizeUrl U (Some ref) pageUrl)))
   \<and> (match_background style = Some g \<longrightarrow>
        (\<exists>pre bi w1 w2 ur q post.
           style = pre @ bi @ w1 @ [COLON] @ w2 @ ur @ q @ g @ q @ [RPAREN] @ post
           \<and> map to_lower bi = ascii ''background-image''
           \<and> list_all is_ws w1 \<and> list_all is_ws w2
           \<and> map to_lower ur = ascii ''url(''
           \<and> (q = [] \<or> q = [0x27] \<or> q = [0x22])
           \<and> list_all (\<lambda>c. \<not> is_line_terminator c) g))
   \<and> (is_declaration name w1 w2 opener q ref
        \<and> no_earlier_name pre (declaration_text name w1 w2 opener q ref @ post)
        \<longrightarrow> match_background (pre @ declaration_text name w1 w2 opener q ref @ post) = Some ref)"
proof -
  from banner_image_branches [of L U html pageUrl]
  obtain p where p: "extractPageData L U html pageUrl = Inr p"
    and old: "let banner = first (select (L html) (div_class ''banner''));
              imgSrc = attr_sel ''src'' (first (find_sel (is_tag ''img'') banner))
          in (truthy imgSrc \<longrightarrow> banner_image p = absolutizeUrl U imgSrc pageUrl)
           \<and> (\<not> truthy imgSrc \<longrightarrow>
                banner_image p = absolutizeUrl U (match_background (style_of banner)) pageUrl)
           \<and> (imgSrc \<noteq> Some [] \<longrightarrow> banner_image p = banner_image_claimed U banner pageUrl)
           \<and> (find_sel (is_tag ''img'') banner = [] \<and> attr_sel ''style'' banner = Some banner_style
                \<longrightarrow> banner_image p = absolutizeUrl U (Some (ascii ''/img/banner.jpg'')) pageUrl)"
    by (elim exE conjE) (rule that, assumption+)
  have e: "\<not> truthy (attr_sel ''src'' (first (find_sel (is_tag ''img'')
            (first (select (L html) (div_class ''banner''))))))
        \<and> attr_sel ''style'' (first (select (L html) (div_class ''banner'')))
            = Some (pre @ declaration_text name w1 w2 opener q ref @ post)
        \<and> is_declaration name w1 w2 opener q ref
        \<and> no_earlier_name pre (declaration_text name w1 w2 opener q ref @ post)
        \<longrightarrow> banner_image p = absolutizeUrl U (Some ref) pageUrl"
    using banner_image_declared [OF p] by blast
  have page: "\<exists>p. extractPageData L U html pageUrl = Inr p
     \<and> (let banner = first (select (L html) (div_class ''banner''));
              imgSrc = attr_sel ''src'' (first (find_sel (is_tag ''img'') banner))
          in (truthy imgSrc \<longrightarrow> banner_image p = absolutizeUrl U imgSrc pageUrl)
           \<and> (\<not> truthy imgSrc \<longrightarrow>
                banner_image p = absolutizeUrl U (match_background (style_of banner)) pageUrl)
           \<and> (imgSrc \<noteq> Some [] \<longrightarrow> banner_image p = banner_image_claimed U banner pageUrl)
           \<and> (find_sel (is_tag ''img'') banner = [] \<and> attr_sel ''style'' banner = Some banner_style
                \<longrightarrow> banner_image p = absolutizeUrl U (Some (ascii ''/img/banner.jpg'')) pageUrl)
           \<and> (\<not> truthy imgSrc
                \<and> attr_sel ''style'' banner = Some (pre @ declaration_text name w1 w2 opener q ref @ post)
                \<and> is_declaration name w1 w2 opener q ref
                \<and> no_earlier_name pre (declaration_text name w1 w2 opener q ref @ post)
                \<longrightarrow> banner_image p = absolutizeUrl U (Some ref) pageUrl))"
    using p old e unfolding Let_def by (intro exI [of _ p], elim conjE) (intro conjI, assumption+)
  have sound: "match_background style = Some g \<longrightarrow>
        (\<exists>pre bi w1 w2 ur q post.
           style = pre @ bi @ w1 @ [COLON] @ w2 @ ur @ q @ g @ q @ [RPAREN] @ post
           \<and> map to_lower bi = ascii ''background-image''
           \<and> list_all is_ws w1 \<and> list_all is_ws w2
           \<and> map to_lower ur = ascii ''url(''
           \<and> (q = [] \<or> q = [0x27] \<or> q = [0x22])
           \<and> list_all (\<lambda>c. \<not> is_line_terminator c) g)"
    using match_background_sound [of style g] by blast
  have complete: "is_declaration name w1 w2 opener q ref
        \<and> no_earlier_name pre (declaration_text name w1 w2 opener q ref @ post)
        \<longrightarrow> match_background (pre @ declaration_text name w1 w2 opener q ref @ post) = Some ref"
    using declaration_match [of name w1 w2 opener q ref pre post] by blast
  show ?thesis
    by (intro conjI) (rule page sound complete)+
qed

lemma styled_banner_doc_parts:
  "find_sel (is_tag ''img'') (first (select styled_banner_doc (div_class ''banner''))) = []"
  "attr_sel ''style'' (first (select styled_banner_doc (div_class ''banner''))) = Some banner_style"
  "absolutizeUrl demo_URL (Some (ascii ''/img/banner.jpg'')) (ascii ''https://site.com/news/1'')
     = ascii ''https://site.com/img/banner.jpg''"
  by code_simp+

lemma shifted_style_parts:
  "shifted_style = ascii ''color:red;''
     @ declaration_text (ascii ''BACKGROUND-Image'') (ascii '' '') (ascii '' '') (ascii ''URL('')
         [0x22] (ascii ''/b.png'')
     @ ascii '';margin:0''"
  "is_declaration (ascii ''BACKGROUND-Image'') (ascii '' '') (ascii '' '') (ascii ''URL('')
     [0x22] (ascii ''/b.png'')"
  "no_earlier_name (ascii ''color:red;'')
     (declaration_text (ascii ''BACKGROUND-Image'') (ascii '' '') (ascii '' '') (ascii ''URL('')
         [0x22] (ascii ''/b.png'')
      @ ascii '';margin:0'')"
  "\<not> truthy (attr_sel ''src'' (first (find_sel (is_tag ''img'')
       (first (select shifted_banner_doc (div_class ''banner''))))))"
  "attr_sel ''style'' (first (select shifted_banner_doc (div_class ''banner''))) = Some shifted_style"
  "absolutizeUrl demo_URL (Some (ascii ''/b.png'')) (ascii ''https://site.com/news/1'')
     = ascii ''https://site.com/b.png''"
  by code_simp+

theorem banner_image_precedence_witness:
  "(\<exists>p. extractPageData (\<lambda>h. styled_banner_doc) demo_URL [] (ascii ''https://site.com/news/1'') = Inr p
     \<and> banner_image p = ascii ''https://site.com/img/banner.jpg'')
   \<and> match_background banner_style = Some (ascii ''/img/banner.jpg'')
   \<and> (\<exists>pre bi w1 w2 ur q post.
         banner_style = pre @ bi @ w1 @ [COLON] @ w2 @ ur @ q @ ascii ''/img/banner.jpg'' @ q @ [RPAREN] @ post
         \<and> map to_lower bi = ascii ''background-image''
         \<and> map to_lower ur = ascii ''url(''
         \<and> (q = [] \<or> q = [0x27] \<or> q = [0x22]))
   \<and> match_background shifted_style = Some (ascii ''/b.png'')
   \<and> (\<exists>p. extractPageData (\<lambda>h. shifted_banner_doc) demo_URL [] (ascii ''https://site.com/news/1'') = Inr p
     \<and> banner_image p = ascii ''https://site.com/b.png'')"
proof -
  note inst = banner_image_precedence [where L = "\<lambda>h. styled_banner_doc" and U = demo_URL
      and html = "[]" and pageUrl = "ascii ''https://site.com/news/1''"
      and style = banner_style and g = "ascii ''/img/banner.jpg''"
      and pre = "[]" and name = "[]" and ?w1.0 = "[]" and ?w2.0 = "[]" and opener = "[]"
      and q = "[]" and ref = "[]" and post = "[]"]
  from inst
  obtain p where p: "extractPageData (\<lambda>h. styled_banner_doc) demo_URL []
        (ascii ''https://site.com/news/1'') = Inr p"
    and "find_sel (is_tag ''img'') (first (select styled_banner_doc (div_class ''banner''))) = []
         \<and> attr_sel ''style'' (first (select styled_banner_doc (div_class ''banner''))) = Some banner_style
         \<longrightarrow> banner_image p =
           absolutizeUrl demo_URL (Some (ascii ''/img/banner.jpg'')) (ascii ''https://site.com/news/1'')"
    unfolding Let_def by (elim exE conjE) (rule that, assumption+)
  then have "banner_image p = ascii ''https://site.com/img/banner.jpg''"
    by (simp add: styled_banner_doc_parts)
  with p have page: "\<exists>p. extractPageData (\<lambda>h. styled_banner_doc) demo_URL []
      (ascii ''https://site.com/news/1'') = Inr p
     \<and> banner_image p = ascii ''https://site.com/img/banner.jpg''"
    by blast
  from inst have "match_background banner_style = Some (ascii ''/img/banner.jpg'') \<longrightarrow>
        (\<exists>pre bi w1 w2 ur q post.
           banner_style = pre @ bi @ w1 @ [COLON] @ w2 @ ur @ q @ ascii ''/img/banner.jpg'' @ q @ [RPAREN] @ post
           \<and> map to_lower bi = ascii ''background-image''
           \<and> list_all is_ws w1 \<and> list_all is_ws w2
           \<and> map to_lower ur = ascii ''url(''
           \<and> (q = [] \<or> q = [0x27] \<or> q = [0x22])
           \<and> list_all (\<lambda>c. \<not> is_line_terminator c) (ascii ''/img/banner.jpg''))"
    by (elim conjE)
  then have shape: "\<exists>pre bi w1 w2 ur q post.
         banner_style = pre @ bi @ w1 @ [COLON] @ w2 @ ur @ q @ ascii ''/img/banner.jpg'' @ q @ [RPAREN] @ post
         \<and> map to_lower bi = ascii ''background-image''
         \<and> map to_lower ur = ascii ''url(''
         \<and> (q = [] \<or> q = [0x27] \<or> q = [0x22])"
    using banner_style_match by blast
  note inst2 = banner_image_precedence [where L = "\<lambda>h. shifted_banner_doc" and U = demo_URL
      and html = "[]" and pageUrl = "ascii ''https://site.com/news/1''"
      and style = "[]" and g = "[]"
      and pre = "ascii ''color:red;''" and name = "ascii ''BACKGROUND-Image''"
      and ?w1.0 = "ascii '' ''" and ?w2.0 = "ascii '' ''" and opener = "ascii ''URL(''"
      and q = "[0x22]" and ref = "ascii ''/b.png''" and post = "ascii '';margin:0''"]
  from inst2
  obtain p2 where p2: "extractPageData (\<lambda>h. shifted_banner_doc) demo_URL []
        (ascii ''https://site.com/news/1'') = Inr p2"
    and declared: "\<not> truthy (attr_sel ''src'' (first (find_sel (is_tag ''img'')
            (first (select shifted_banner_doc (div_class ''banner''))))))
        \<and> attr_sel ''style'' (first (select shifted_banner_doc (div_class ''banner'')))
            = Some (ascii ''color:red;''
                @ declaration_text (ascii ''BACKGROUND-Image'') (ascii '' '') (ascii '' '')
                    (ascii ''URL('') [0x22] (ascii ''/b.png'')
                @ ascii '';margin:0'')
        \<and> is_declaration (ascii ''BACKGROUND-Image'') (ascii '' '') (ascii '' '')
            (ascii ''URL('') [0x22] (ascii ''/b.png'')
        \<and> no_earlier_name (ascii ''color:red;'')
            (declaration_text (ascii ''BACKGROUND-Image'') (ascii '' '') (ascii '' '')
                (ascii ''URL('') [0x22] (ascii ''/b.png'')
             @ ascii '';margin:0'')
        \<longrightarrow> banner_image p2 =
           absolutizeUrl demo_URL (Some (ascii ''/b.png'')) (ascii ''https://site.com/news/1'')"
    unfolding Let_def by (elim exE conjE) (rule that, assumption+)
  have "banner_image p2 =
      absolutizeUrl demo_URL (Some (ascii ''/b.png'')) (ascii ''https://site.com/news/1'')"
    using declared shifted_style_parts(2,3,4) shifted_style_parts(5) [unfolded shifted_style_parts(1)]
    by blast
  then have "banner_image p2 = ascii ''https://site.com/b.png''"
    by (simp only: shifted_style_parts(6))
  with p2 have page2: "\<exists>p. extractPageData (\<lambda>h. shifted_banner_doc) demo_URL []
      (ascii ''https://site.com/news/1'') = Inr p
     \<and> banner_image p = ascii ''https://site.com/b.png''"
    by blast
  from inst2 have "is_declaration (ascii ''BACKGROUND-Image'') (ascii '' '') (ascii '' '')
            (ascii ''URL('') [0x22] (ascii ''/b.png'')
        \<and> no_earlier_name (ascii ''color:red;'')
            (declaration_text (ascii ''BACKGROUND-Image'') (ascii '' '') (ascii '' '')
                (ascii ''URL('') [0x22] (ascii ''/b.png'')
             @ ascii '';margin:0'')
        \<longrightarrow> match_background (ascii ''color:red;''
                @ declaration_text (ascii ''BACKGROUND-Image'') (ascii '' '') (ascii '' '')
                    (ascii ''URL('') [0x22] (ascii ''/b.png'')
                @ ascii '';margin:0'') = Some (ascii ''/b.png'')"
    by (elim conjE)
  then have found: "match_background shifted_style = Some (ascii ''/b.png'')"
    using shifted_style_parts(2,3) by (simp only: shifted_style_parts(1) simp_thms)
  show ?thesis
    by (intro conjI) (rule page banner_style_match shape found page2)+
qed

text \<open>
  An image with an empty \<open>src\<close> inside a banner with a background image: the
  field is the background URL, while the \<open>src\<close> that is present is empty.
\<close>

theorem banner_image_counterexample:
  "map_sum id banner_image
     (extractPageData (\<lambda>h. empty_src_doc) demo_URL [] (ascii ''https://a.com/p''))
     = Inr (ascii ''https://a.com/b.jpg'')
   \<and> banner_image_claimed demo_URL (first (select empty_src_doc (div_class ''banner'')))
       (ascii ''https://a.com/p'') = []
   \<and> attr_sel ''src'' (first (find_sel (is_tag ''img'')
        (first (select empty_src_doc (div_class ''banner''))))) = Some []"
  by code_simp

subsection \<open>The embed URL\<close>

lemma videoSource_cases:
  "videoSource video =
     (let iframeSrc = attr_sel ''src'' (first (find_sel (is_tag ''iframe'') video));
          dataSrc = attr_sel ''data-src'' (first (find_sel (has_attr ''data-src'') video));
          aHref = attr_sel ''href'' (first (find_sel (is_tag ''a'') video))
      in if truthy iframeSrc then iframeSrc
         else if truthy dataSrc then dataSrc
         else if truthy aHref then aHref
         else Some [])"
  by (simp add: videoSource_def Let_def js_or_def)

lemma videoSource_claimed_eq:
  assumes "attr_sel ''src'' (first (find_sel (is_tag ''iframe'') video)) \<noteq> Some []"
    and "attr_sel ''data-src'' (first (find_sel (has_attr ''data-src'') video)) \<noteq> Some []"
  shows "absolutizeUrl U (videoSource video) p = absolutizeUrl U (videoSource_claimed video) p"
  using assms
  by (auto simp: videoSource_cases videoSource_claimed_def Let_def truthy_def absolutizeUrl_def
      split: option.splits)

text \<open>
  C8, as amended. The embed URL is made of the first of these that is present and
  not empty: the \<open>src\<close> of the first iframe inside the video wrapper, the \<open>data-src\<close>
  of the first element inside the wrapper that has one, the \<open>href\<close> of the first
  anchor inside the wrapper; it is the empty string when none is. The value is
  absolutized against the page URL. Whenever neither the iframe's \<open>src\<close> nor the
  \<open>data-src\<close> is the empty string, this is the precedence as the claim words it.
\<close>

theorem video_embed_precedence:
  "\<exists>p. extractPageData L U html pageUrl = Inr p
     \<and> (let video = first (select (L html) (div_class ''article-video''));
              iframeSrc = attr_sel ''src'' (first (find_sel (is_tag ''iframe'') video));
              dataSrc = attr_sel ''data-src'' (first (find_sel (has_attr ''data-src'') video));
              aHref = attr_sel ''href'' (first (find_sel (is_tag ''a'') video))
          in video_embed_url p =
               absolutizeUrl U
                 (if truthy iframeSrc then iframeSrc
                  else if truthy dataSrc then dataSrc
                  else if truthy aHref then aHref
                  else Some []) pageUrl
           \<and> (iframeSrc \<noteq> Some [] \<and> dataSrc \<noteq> Some [] \<longrightarrow>
                video_embed_url p = absolutizeUrl U (videoSource_claimed video) pageUrl))"
proof -
  define video where "video = first (select (L html) (div_class ''article-video''))"
  obtain p where p: "extractPageData L U html pageUrl = Inr p"
    and ve: "video_embed_url p = absolutizeUrl U (videoSource video) pageUrl"
    unfolding video_def using extractPageData_fields [of L U html pageUrl] by blast
  show ?thesis
    unfolding Let_def video_def [symmetric]
    using ve videoSource_claimed_eq [of video U pageUrl]
    by (intro exI [of _ p] conjI impI) (simp_all add: p videoSource_cases Let_def)
qed

lemma lazy_video_doc_parts:
  "attr_sel ''src'' (first (find_sel (is_tag ''iframe'')
      (first (select lazy_video_doc (div_class ''article-video''))))) = None"
  "attr_sel ''data-src'' (first (find_sel (has_attr ''data-src'')
      (first (select lazy_video_doc (div_class ''article-video''))))) = Some (ascii ''/player'')"
  "absolutizeUrl demo_URL (Some (ascii ''/player'')) (ascii ''https://a.com/p'')
     = ascii ''https://a.com/player''"
  "truthy (Some (ascii ''/player''))"
  by code_simp+

theorem video_embed_precedence_witness:
  "\<exists>p. extractPageData (\<lambda>h. lazy_video_doc) demo_URL [] (ascii ''https://a.com/p'') = Inr p
     \<and> video_embed_url p = ascii ''https://a.com/player''
     \<and> video_embed_url p =
         absolutizeUrl demo_URL
           (videoSource_claimed (first (select lazy_video_doc (div_class ''article-video''))))
           (ascii ''https://a.com/p'')"
proof -
  from video_embed_precedence [of "\<lambda>h. lazy_video_doc" demo_URL "[]" "ascii ''https://a.com/p''"]
  obtain p where p: "extractPageData (\<lambda>h. lazy_video_doc) demo_URL [] (ascii ''https://a.com/p'') = Inr p"
    and rest: "(let video = first (select lazy_video_doc (div_class ''article-video''));
              iframeSrc = attr_sel ''src'' (first (find_sel (is_tag ''iframe'') video));
              dataSrc = attr_sel ''data-src'' (first (find_sel (has_attr ''data-src'') video));
              aHref = attr_sel ''href'' (first (find_sel (is_tag ''a'') video))
          in video_embed_url p =
               absolutizeUrl demo_URL
                 (if truthy iframeSrc then iframeSrc
                  else if truthy dataSrc then dataSrc
                  else if truthy aHref then aHref
                  else Some []) (ascii ''https://a.com/p'')
           \<and> (iframeSrc \<noteq> Some [] \<and> dataSrc \<noteq> Some [] \<longrightarrow>
                video_embed_url p =
                  absolutizeUrl demo_URL (videoSource_claimed video) (ascii ''https://a.com/p'')))"
    by blast
  have ne: "Some (ascii ''/player'') \<noteq> Some []"
    by (simp add: ascii_def)
  have "\<not> truthy None" by (simp add: truthy_def)
  then have "video_embed_url p = ascii ''https://a.com/player''
     \<and> video_embed_url p =
         absolutizeUrl demo_URL
           (videoSource_claimed (first (select lazy_video_doc (div_class ''article-video''))))
           (ascii ''https://a.com/p'')"
    using rest ne by (auto simp: Let_def lazy_video_doc_parts)
  with p show ?thesis by blast
qed

text \<open>
  An iframe with an empty \<open>src\<close> beside an anchor: the field is the anchor's target,
  while the \<open>src\<close> that is present is empty.
\<close>

theorem video_embed_counterexample:
  "map_sum id video_embed_url
     (extractPageData (\<lambda>h. empty_iframe_doc) demo_URL [] (ascii ''https://a.com/p''))
     = Inr (ascii ''https://a.com/v'')
   \<and> absolutizeUrl demo_URL
        (videoSource_claimed (first (select empty_iframe_doc (div_class ''article-video''))))
        (ascii ''https://a.com/p'') = []
   \<and> attr_sel ''src'' (first (find_sel (is_tag ''iframe'')
        (first (select empty_iframe_doc (div_class ''article-video''))))) = Some []"
  by code_simp

subsection \<open>Deduplication\<close>

lemma foldl_set_add:
  "foldl set_add acc xs = acc @ first_seen (filter (\<lambda>x. x \<notin> set acc) xs)"
proof (induction xs arbitrary: acc)
  case Nil
  then show ?case by simp
next
  case (Cons x xs)
  show ?case
  proof (cases "x \<in> set acc")
    case True
    then show ?thesis using Cons [of acc] by (simp add: set_add_def)
  next
    case False
    have "filter (\<lambda>y. y \<noteq> x) (filter (\<lambda>y. y \<notin> set acc) xs)
        = filter (\<lambda>y. y \<notin> set (acc @ [x])) xs"
      by (induction xs) auto
    then show ?thesis
      using False Cons [of "acc @ [x]"] by (simp add: set_add_def)
  qed
qed

lemma dedupe_first_seen: "dedupe xs = first_seen xs"
  by (simp add: dedupe_def foldl_set_add)

lemma set_first_seen: "set (first_seen xs) = set xs"
proof (induction xs rule: first_seen.induct)
  case 1
  then show ?case by simp
next
  case (2 x xs)
  then show ?case by auto
qed

lemma distinct_first_seen: "distinct (first_seen xs)"
proof (induction xs rule: first_seen.induct)
  case 1
  then show ?case by simp
next
  case (2 x xs)
  then show ?case by (simp add: set_first_seen)
qed

lemma filter_first_seen: "filter P (first_seen xs) = first_seen (filter P xs)"
proof (induction xs rule: first_seen.induct)
  case 1
  then show ?case by simp
next
  case (2 x xs)
  have "filter P (filter (\<lambda>y. y \<noteq> x) xs) = filter (\<lambda>y. y \<noteq> x) (filter P xs)"
    by (induction xs) auto
  moreover have "\<not> P x \<Longrightarrow> filter (\<lambda>y. y \<noteq> x) (filter P xs) = filter P xs"
    by (induction xs) auto
  ultimately show ?case using 2 by auto
qed

lemma clean_urls_first_seen: "clean_urls xs = first_seen (filter (\<lambda>u. u \<noteq> []) xs)"
  by (simp add: clean_urls_def dedupe_first_seen filter_first_seen)

lemma distinct_clean_urls: "distinct (clean_urls xs)"
  by (simp add: clean_urls_first_seen distinct_first_seen)

lemma set_clean_urls: "set (clean_urls xs) = set xs - {[]}"
  by (auto simp: clean_urls_first_seen set_first_seen)

lemma length_clean_urls: "length (clean_urls xs) = card (set xs - {[]})"
  using distinct_card [OF distinct_clean_urls [of xs]] by (simp add: set_clean_urls)

subsection \<open>Rows in the order of the URLs\<close>

lemma extractPageData_url:
  assumes "extractPageData L U html u = Inr p"
  shows "url p = u"
proof -
  from extractPageData_fields [of L U html u]
  obtain q where "extractPageData L U html u = Inr q" "url q = u"
    by (elim exE conjE) (rule that, assumption+)
  with assms show ?thesis by simp
qed

lemma row_url_task: "row_url (task w u) = u"
  by (simp add: task_def extractPageData_url split: sum.splits)

lemma rowByUrl_snoc: "rowByUrl (rows @ [r]) = (rowByUrl rows)(row_url r \<mapsto> r)"
  by (simp add: rowByUrl_def)

lemma rowByUrl_distinct:
  "distinct (map row_url rows) \<Longrightarrow> r \<in> set rows \<Longrightarrow> rowByUrl rows (row_url r) = Some r"
proof (induction rows rule: rev_induct)
  case Nil
  then show ?case by simp
next
  case (snoc x xs)
  show ?case
  proof (cases "r = x")
    case True
    then show ?thesis by (simp add: rowByUrl_snoc)
  next
    case False
    then have r: "r \<in> set xs" using snoc.prems by simp
    then have "row_url r \<noteq> row_url x"
      using snoc.prems(1) by (auto simp: image_iff)
    then show ?thesis
      using snoc r by (simp add: rowByUrl_snoc)
  qed
qed

lemma orderedRows_perm:
  assumes d: "distinct urls"
    and m: "mset rows = mset (map f urls)"
    and k: "\<And>u. row_url (f u) = u"
  shows "orderedRows urls rows = map f urls"
proof -
  have "mset (map row_url rows) = mset (map row_url (map f urls))"
    using m by (metis mset_map)
  then have "mset (map row_url rows) = mset urls"
    using k by (simp add: comp_def)
  then have dr: "distinct (map row_url rows)"
    using d by (metis mset_eq_imp_distinct_iff)
  have "rowByUrl rows u = Some (f u)" if "u \<in> set urls" for u
  proof -
    have "f u \<in> set rows"
      using that m by (metis image_eqI mset_eq_setD set_map)
    then show ?thesis
      using rowByUrl_distinct [OF dr, of "f u"] k by simp
  qed
  then show ?thesis
    by (simp add: orderedRows_def)
qed

lemma run_rows_eq:
  assumes "mset (completion w (map (task w) (clean_urls urls0))) = mset (map (task w) (clean_urls urls0))"
  shows "run_rows w urls0 = map (task w) (clean_urls urls0)"
  unfolding run_rows_def Let_def
  using assms by (intro orderedRows_perm distinct_clean_urls row_url_task)


lemma getUrlsFromFile_nonempty: "[] \<notin> set (getUrlsFromFile raw)"
  by (simp add: getUrlsFromFile_def)

lemma locs_nonempty: "[] \<notin> set (locs es)"
  by (auto simp: locs_def truthy_def split: option.splits)

lemma fetchHtml_fails:
  "http w u = NoResponse m \<Longrightarrow> fetchHtml (http w) u = Inl (AxiosError m)"
  "http w u = Response st body \<Longrightarrow> \<not> (200 \<le> st \<and> st < 400) \<Longrightarrow>
     fetchHtml (http w) u = Inl (AxiosError (status_message st))"
  by (auto simp: fetchHtml_def)

lemma main_of_urls:
  "source_urls fuel w cfg = Some (Inr urls0) \<Longrightarrow>
   main fuel w cfg = Some (Wrote (run_rows w urls0) (writeRecords headers (run_rows w urls0)))"
  by (simp add: main_def Let_def)

text \<open>
  C2. Whatever the order in which the tasks complete (any \<open>completion\<close> that
  permutes the rows the tasks push), the rows handed to the writer are the rows of
  the cleaned URLs in the order of these URLs; the cleaned URLs are the non-empty
  input URLs in first-seen order; so there is one row, and one written record, per
  distinct non-empty input URL (no URL of a file source is empty). \<open>main\<close> writes
  exactly these rows.
\<close>

theorem rows_follow_input_order:
  "mset (completion w (map (task w) (clean_urls urls0))) = mset (map (task w) (clean_urls urls0))
   \<Longrightarrow>
   map row_url (run_rows w urls0) = clean_urls urls0
   \<and> clean_urls urls0 = first_seen (filter (\<lambda>u. u \<noteq> []) urls0)
   \<and> distinct (clean_urls urls0)
   \<and> length (run_rows w urls0) = card (set urls0 - {[]})
   \<and> ([] \<notin> set urls0 \<longrightarrow> length (run_rows w urls0) = card (set urls0))
   \<and> [] \<notin> set (getUrlsFromFile raw)
   \<and> length (writeRecords headers (run_rows w urls0)) = length (run_rows w urls0)
   \<and> run_rows w urls0 = map (task w) (clean_urls urls0)
   \<and> (source_urls fuel w cfg = Some (Inr urls0) \<longrightarrow>
        main fuel w cfg = Some (Wrote (run_rows w urls0) (writeRecords headers (run_rows w urls0))))"
proof -
  assume perm: "mset (completion w (map (task w) (clean_urls urls0)))
      = mset (map (task w) (clean_urls urls0))"
  have rows: "run_rows w urls0 = map (task w) (clean_urls urls0)"
    using perm by (rule run_rows_eq)
  have "map row_url (run_rows w urls0) = clean_urls urls0"
    by (simp add: rows row_url_task comp_def)
  moreover have len: "length (run_rows w urls0) = card (set urls0 - {[]})"
    by (simp add: rows length_clean_urls)
  moreover have "[] \<notin> set urls0 \<longrightarrow> length (run_rows w urls0) = card (set urls0)"
    using len by simp
  moreover have "length (writeRecords headers (run_rows w urls0)) = length (run_rows w urls0)"
    by (simp add: writeRecords_def)
  ultimately show ?thesis
    using rows clean_urls_first_seen [of urls0] distinct_clean_urls [of urls0]
      main_of_urls [of fuel w cfg urls0] getUrlsFromFile_nonempty [of raw]
    by blast
qed

lemma demo_file_run:
  "getUrlsFromFile demo_file = [url_a, url_b, url_a]"
  "clean_urls [url_a, url_b, url_a] = [url_a, url_b]"
  "source_urls 0 demo_world file_config = Some (Inr [url_a, url_b, url_a])"
  by code_simp+

theorem rows_follow_input_order_witness:
  "map row_url (run_rows demo_world [url_a, url_b, url_a]) = [url_a, url_b]
   \<and> length (run_rows demo_world [url_a, url_b, url_a]) = 2
   \<and> main 0 demo_world file_config
       = Some (Wrote (run_rows demo_world [url_a, url_b, url_a])
            (writeRecords headers (run_rows demo_world [url_a, url_b, url_a])))"
proof -
  have "mset (completion demo_world (map (task demo_world) (clean_urls [url_a, url_b, url_a])))
      = mset (map (task demo_world) (clean_urls [url_a, url_b, url_a]))"
    by (simp add: demo_world_def)
  from rows_follow_input_order [OF this, where fuel = 0 and cfg = file_config]
  have "map row_url (run_rows demo_world [url_a, url_b, url_a]) = clean_urls [url_a, url_b, url_a]"
    and "run_rows demo_world [url_a, url_b, url_a]
      = map (task demo_world) (clean_urls [url_a, url_b, url_a])"
    and "source_urls 0 demo_world file_config = Some (Inr [url_a, url_b, url_a]) \<longrightarrow>
        main 0 demo_world file_config
          = Some (Wrote (run_rows demo_world [url_a, url_b, url_a])
               (writeRecords headers (run_rows demo_world [url_a, url_b, url_a])))"
    by blast+
  then show ?thesis
    by (simp add: demo_file_run)
qed

subsection \<open>Exact comparison of URLs\<close>

lemma distinct_count:
  "distinct xs \<Longrightarrow> length (filter (\<lambda>y. y = x) xs) = (if x \<in> set xs then 1 else 0)"
  by (induction xs) auto

lemma rows_of_url:
  assumes "map row_url rows = urls" and "distinct urls" and "u \<in> set urls"
  shows "length (filter (\<lambda>r. row_url r = u) rows) = 1"
proof -
  have "length (filter (\<lambda>r. row_url r = u) rows) = length (filter (\<lambda>y. y = u) (map row_url rows))"
    by (simp add: filter_map comp_def)
  then show ?thesis
    using assms distinct_count [of urls u] by simp
qed

text \<open>
  C10. The URLs are compared as strings, code unit by code unit: two non-empty
  input URLs whose texts differ are both kept, and the rows handed to the writer
  hold exactly one row for each of them. A URL with and without a trailing slash,
  with another letter case in the host, and with a fragment are four URLs. (For a
  file, the URL of a line is the line without the whitespace around it.)
\<close>

theorem urls_compared_exactly:
  "u \<in> set urls0 \<and> v \<in> set urls0 \<and> u \<noteq> v \<and> u \<noteq> [] \<and> v \<noteq> []
   \<and> mset (completion w (map (task w) (clean_urls urls0))) = mset (map (task w) (clean_urls urls0))
   \<longrightarrow>
   u \<in> set (clean_urls urls0) \<and> v \<in> set (clean_urls urls0)
   \<and> length (filter (\<lambda>x. x = u) (clean_urls urls0)) = 1
   \<and> length (filter (\<lambda>x. x = v) (clean_urls urls0)) = 1
   \<and> length (filter (\<lambda>r. row_url r = u) (run_rows w urls0)) = 1
   \<and> length (filter (\<lambda>r. row_url r = v) (run_rows w urls0)) = 1"
proof (intro impI, elim conjE)
  assume u: "u \<in> set urls0" "u \<noteq> []" and v: "v \<in> set urls0" "v \<noteq> []"
    and perm: "mset (completion w (map (task w) (clean_urls urls0)))
      = mset (map (task w) (clean_urls urls0))"
  have ku: "u \<in> set (clean_urls urls0)" and kv: "v \<in> set (clean_urls urls0)"
    using u v by (simp_all add: set_clean_urls)
  have rows: "map row_url (run_rows w urls0) = clean_urls urls0"
    using run_rows_eq [OF perm] by (simp add: row_url_task comp_def)
  have "length (filter (\<lambda>r. row_url r = u) (run_rows w urls0)) = 1"
    using rows distinct_clean_urls ku by (rule rows_of_url)
  moreover have "length (filter (\<lambda>r. row_url r = v) (run_rows w urls0)) = 1"
    using rows distinct_clean_urls kv by (rule rows_of_url)
  moreover have "length (filter (\<lambda>x. x = u) (clean_urls urls0)) = 1"
    using distinct_count [OF distinct_clean_urls, of u urls0] ku by simp
  moreover have "length (filter (\<lambda>x. x = v) (clean_urls urls0)) = 1"
    using distinct_count [OF distinct_clean_urls, of v urls0] kv by simp
  ultimately show "u \<in> set (clean_urls urls0) \<and> v \<in> set (clean_urls urls0)
   \<and> length (filter (\<lambda>x. x = u) (clean_urls urls0)) = 1
   \<and> length (filter (\<lambda>x. x = v) (clean_urls urls0)) = 1
   \<and> length (filter (\<lambda>r. row_url r = u) (run_rows w urls0)) = 1
   \<and> length (filter (\<lambda>r. row_url r = v) (run_rows w urls0)) = 1"
    using ku kv by blast
qed

lemma variants_kept:
  "clean_urls variant_urls = [ascii ''https://a.com/p'', ascii ''https://a.com/p/'',
      ascii ''https://A.com/p'', ascii ''https://a.com/p#top'']"
  "ascii ''https://a.com/p'' \<in> set variant_urls"
  "ascii ''https://a.com/p/'' \<in> set variant_urls"
  "ascii ''https://a.com/p'' \<noteq> ascii ''https://a.com/p/''"
  "ascii ''https://a.com/p'' \<noteq> []"
  "ascii ''https://a.com/p/'' \<noteq> []"
  by code_simp+

theorem urls_compared_exactly_witness:
  "clean_urls variant_urls = [ascii ''https://a.com/p'', ascii ''https://a.com/p/'',
      ascii ''https://A.com/p'', ascii ''https://a.com/p#top'']
   \<and> length (filter (\<lambda>r. row_url r = ascii ''https://a.com/p'') (run_rows demo_world variant_urls)) = 1
   \<and> length (filter (\<lambda>r. row_url r = ascii ''https://a.com/p/'') (run_rows demo_world variant_urls)) = 1"
proof -
  have "mset (completion demo_world (map (task demo_world) (clean_urls variant_urls)))
      = mset (map (task demo_world) (clean_urls variant_urls))"
    by (simp add: demo_world_def)
  then show ?thesis
    using urls_compared_exactly [of "ascii ''https://a.com/p''" variant_urls
        "ascii ''https://a.com/p/''" demo_world] variants_kept
    by blast
qed

subsection \<open>The row of a failed fetch\<close>

lemma failed_task: "fetchHtml (http w) u = Inl e \<Longrightarrow> task w u = Failed u (message e)"
  by (simp add: task_def)

lemma error_not_a_column: "''error'' \<notin> set headers"
  by (simp add: headers_def)

lemma csv_record_Failed: "csv_record headers (Failed u m) = u # replicate 20 []"
  by (simp add: csv_record_def headers_def numeral_eq_Suc)

text \<open>
  C1, on the code. A fetch fails when there is no response (a network error or the
  timeout) or the status is outside 200..399. The task then pushes the row
  \<open>{ url, error }\<close>, which has none of the content properties, and the rows handed
  to the writer are those of all URLs, whatever the other tasks did. The header has
  no column \<open>error\<close>, so the record written for that row is the URL followed by
  twenty empty values: the error reason is not in the output.
\<close>

theorem failed_fetch_row:
  "(http w u = NoResponse m \<longrightarrow> fetchHtml (http w) u = Inl (AxiosError m))
   \<and> (http w u = Response st body \<and> \<not> (200 \<le> st \<and> st < 400) \<longrightarrow>
        fetchHtml (http w) u = Inl (AxiosError (status_message st)))
   \<and> (fetchHtml (http w) u = Inl e \<longrightarrow>
        task w u = Failed u (message e)
        \<and> map_of (row_fields (task w u)) ''url'' = Some u
        \<and> map_of (row_fields (task w u)) ''error'' = Some (message e)
        \<and> map (map_of (row_fields (task w u))) (tl headers) = replicate 20 None
        \<and> ''error'' \<notin> set headers
        \<and> csv_record headers (task w u) = u # replicate 20 [])
   \<and> (mset (completion w (map (task w) (clean_urls urls0))) = mset (map (task w) (clean_urls urls0))
        \<longrightarrow> run_rows w urls0 = map (task w) (clean_urls urls0))"
proof -
  have "fetchHtml (http w) u = Inl e \<longrightarrow>
        task w u = Failed u (message e)
        \<and> map_of (row_fields (task w u)) ''url'' = Some u
        \<and> map_of (row_fields (task w u)) ''error'' = Some (message e)
        \<and> map (map_of (row_fields (task w u))) (tl headers) = replicate 20 None
        \<and> ''error'' \<notin> set headers
        \<and> csv_record headers (task w u) = u # replicate 20 []"
    by (simp add: failed_task error_not_a_column csv_record_Failed)
      (simp add: headers_def numeral_eq_Suc)
  then show ?thesis
    using fetchHtml_fails [of w u] run_rows_eq [of w urls0] by blast
qed

theorem failed_fetch_row_witness:
  "fetchHtml (http demo_world) url_b = Inl (AxiosError timeout_message)
   \<and> main 0 demo_world file_config
       = Some (Wrote [Data (blank_page url_a), Failed url_b timeout_message]
                [url_a # replicate 20 [], url_b # replicate 20 []])
   \<and> csv_record headers (task demo_world url_b) = url_b # replicate 20 []"
proof -
  have f: "fetchHtml (http demo_world) url_b = Inl (AxiosError timeout_message)"
    by code_simp
  have m: "main 0 demo_world file_config
       = Some (Wrote [Data (blank_page url_a), Failed url_b timeout_message]
                [url_a # replicate 20 [], url_b # replicate 20 []])"
    by code_simp
  show ?thesis
    using failed_fetch_row [where w = demo_world and u = url_b and e = "AxiosError timeout_message"] f m
    by blast
qed

subsection \<open>Sitemaps\<close>

lemma fold_max_ge: "(m::nat) \<le> fold max xs m"
  by (induction xs arbitrary: m) (auto intro: order_trans [OF max.cobounded2])

lemma fold_max_mem: "x \<in> set xs \<Longrightarrow> (x::nat) \<le> fold max xs m"
proof (induction xs arbitrary: m)
  case Nil
  then show ?case by simp
next
  case (Cons y ys)
  show ?case
  proof (cases "x = y")
    case True
    have "x \<le> max y m" using True by simp
    also have "\<dots> \<le> fold max ys (max y m)" by (rule fold_max_ge)
    finally show ?thesis by simp
  next
    case False
    then show ?thesis using Cons by simp
  qed
qed

lemma child_depth: "t \<in> set ts \<Longrightarrow> depth t < depth (SitemapIndex u ts)"
  using fold_max_mem [of "depth t" "map depth ts" 0] by (simp add: less_Suc_eq_le)

lemma sitemap_loop_flatten:
  assumes "\<And>t. t \<in> set ts \<Longrightarrow> getUrlsFromSitemap n web (root_url t) = Some (flatten t)"
  shows "sitemap_loop n web (map root_url ts) acc = Some (flatten_children ts acc)"
  using assms
proof (induction ts arbitrary: acc)
  case Nil
  then show ?case by simp
next
  case (Cons t ts)
  then show ?case
    by (cases "flatten t") simp_all
qed

lemma names_differ: "ascii ''sitemapindex'' \<noteq> ascii ''urlset''"
  by (simp add: ascii_def)

lemma getUrlsFromSitemap_flatten:
  "serves web t \<Longrightarrow> depth t < n \<Longrightarrow> getUrlsFromSitemap n web (root_url t) = Some (flatten t)"
proof (induction n arbitrary: t)
  case 0
  then show ?case by simp
next
  case (Suc n)
  show ?case
  proof (cases t)
    case (PageList u us)
    then show ?thesis
      using Suc.prems(1) by (auto simp: names_differ split: sum.splits option.splits parsed.splits)
  next
    case (SitemapIndex u ts)
    have kids: "getUrlsFromSitemap n web (root_url c) = Some (flatten c)" if "c \<in> set ts" for c
    proof -
      have "serves web c"
        using Suc.prems(1) SitemapIndex that by (auto simp: list_all_iff)
      moreover have "depth c < n"
        using child_depth [OF that, of u] Suc.prems(2) SitemapIndex by simp
      ultimately show ?thesis by (rule Suc.IH)
    qed
    have "sitemap_loop n web (map root_url ts) [] = Some (flatten_children ts [])"
      using kids by (rule sitemap_loop_flatten)
    then show ?thesis
      using Suc.prems(1) SitemapIndex by (auto simp: names_differ split: sum.splits option.splits parsed.splits)
  next
    case (Unusable u e)
    then show ?thesis
      using Suc.prems(1) by (auto simp: names_differ split: sum.splits option.splits parsed.splits)
  qed
qed

lemma flatten_children_all:
  "list_all (\<lambda>t. \<not> isl (flatten t)) ts \<Longrightarrow>
   flatten_children ts acc = Inr (acc @ concat (map (\<lambda>t. projr (flatten t)) ts))"
proof (induction ts arbitrary: acc)
  case Nil
  then show ?case by simp
next
  case (Cons t ts)
  then show ?case by (cases "flatten t") simp_all
qed

lemma flatten_children_error:
  "list_all (\<lambda>t. \<not> isl (flatten t)) before \<Longrightarrow> flatten t = Inl e \<Longrightarrow>
   flatten_children (before @ t # after) acc = Inl e"
proof (induction before arbitrary: acc)
  case Nil
  then show ?case by simp
next
  case (Cons b before)
  then show ?case by (cases "flatten b") simp_all
qed

lemma loop_web_never_returns:
  "getUrlsFromSitemap n loop_web (ascii ''https://site.com/sitemap.xml'') = None"
proof (induction n)
  case 0
  then show ?case by simp
next
  case (Suc n)
  have "locs [Some [ascii ''https://site.com/sitemap.xml'']] = [ascii ''https://site.com/sitemap.xml'']"
    by (simp add: locs_def truthy_def ascii_def)
  then show ?case
    using Suc by (simp add: loop_web_def names_differ)
qed


lemma main_of_sitemap:
  assumes "getUrlsFromSitemap n (sitemaps w) u = Some r"
    and "SITEMAP_URL cfg = Some u" and "u \<noteq> []"
  shows "main n w cfg =
     Some (case r of
             Inl e \<Rightarrow> Exit1 (message e)
           | Inr urls0 \<Rightarrow> Wrote (run_rows w urls0) (writeRecords headers (run_rows w urls0)))"
  using assms by (cases r) (simp_all add: main_def source_urls_def Let_def)

text \<open>
  C9, as amended. When the documents below a sitemap URL form a finite hierarchy
  (\<open>serves\<close>: every page list has a \<open>url\<close> child, every index a \<open>sitemap\<close> child, no
  document is blank), \<open>getUrlsFromSitemap\<close> returns, given fuel beyond the depth of
  the hierarchy, what \<open>flatten\<close> makes of it: the location entries of a page list in
  document order; for an index whose children all resolve, the concatenation of the
  children's lists in document order; the error of the first child that fails; the
  error of a document that cannot be fetched or parsed, or the unknown-format error
  of one whose root is neither \<open>urlset\<close> nor \<open>sitemapindex\<close>. \<open>main\<close> then ends with
  exit status 1 on an error and otherwise goes on with the deduplication of line 239
  (\<open>run_rows\<close>).
\<close>

theorem sitemap_resolution:
  "(serves web t \<and> depth t < n \<longrightarrow>
      getUrlsFromSitemap n web (root_url t) = Some (flatten t)
      \<and> (sitemaps w = web \<and> SITEMAP_URL cfg = Some (root_url t) \<and> root_url t \<noteq> [] \<longrightarrow>
           main n w cfg =
             Some (case flatten t of
                     Inl e \<Rightarrow> Exit1 (message e)
                   | Inr urls0 \<Rightarrow>
                       Wrote (run_rows w urls0) (writeRecords headers (run_rows w urls0)))))
   \<and> flatten (PageList u us) = Inr us
   \<and> (list_all (\<lambda>c. \<not> isl (flatten c)) ts \<longrightarrow>
        flatten (SitemapIndex u ts) = Inr (concat (map (\<lambda>c. projr (flatten c)) ts)))
   \<and> (list_all (\<lambda>c. \<not> isl (flatten c)) before \<and> flatten c = Inl e \<longrightarrow>
        flatten (SitemapIndex u (before @ c # after)) = Inl e)
   \<and> flatten (Unusable u e) = Inl e"
proof -
  have a: "getUrlsFromSitemap n web (root_url t) = Some (flatten t)"
    if "serves web t" "depth t < n"
    using that by (rule getUrlsFromSitemap_flatten)
  have b: "main n w cfg =
             Some (case flatten t of
                     Inl e \<Rightarrow> Exit1 (message e)
                   | Inr urls0 \<Rightarrow>
                       Wrote (run_rows w urls0) (writeRecords headers (run_rows w urls0)))"
    if "serves web t" "depth t < n" "sitemaps w = web" "SITEMAP_URL cfg = Some (root_url t)"
      "root_url t \<noteq> []"
    using main_of_sitemap [of n w "root_url t" "flatten t" cfg] a that by simp
  have c: "flatten (SitemapIndex u ts) = Inr (concat (map (\<lambda>c. projr (flatten c)) ts))"
    if "list_all (\<lambda>c. \<not> isl (flatten c)) ts"
    using flatten_children_all [OF that, of "[]"] by simp
  have d: "flatten (SitemapIndex u (before @ c # after)) = Inl e"
    if "list_all (\<lambda>c. \<not> isl (flatten c)) before" "flatten c = Inl e"
    using flatten_children_error [OF that, of after "[]"] by simp
  have ab: "serves web t \<and> depth t < n \<longrightarrow>
      getUrlsFromSitemap n web (root_url t) = Some (flatten t)
      \<and> (sitemaps w = web \<and> SITEMAP_URL cfg = Some (root_url t) \<and> root_url t \<noteq> [] \<longrightarrow>
           main n w cfg =
             Some (case flatten t of
                     Inl e \<Rightarrow> Exit1 (message e)
                   | Inr urls0 \<Rightarrow>
                       Wrote (run_rows w urls0) (writeRecords headers (run_rows w urls0))))"
    using a b by blast
  have c': "list_all (\<lambda>c. \<not> isl (flatten c)) ts \<longrightarrow>
        flatten (SitemapIndex u ts) = Inr (concat (map (\<lambda>c. projr (flatten c)) ts))"
    using c by blast
  have d': "list_all (\<lambda>c. \<not> isl (flatten c)) before \<and> flatten c = Inl e \<longrightarrow>
        flatten (SitemapIndex u (before @ c # after)) = Inl e"
    using d by blast
  have p: "flatten (PageList u us) = Inr us" and q: "flatten (Unusable u e) = Inl e"
    by simp_all
  show ?thesis
    by (intro conjI) (rule ab p c' d' q)+
qed

lemma demo_tree_facts:
  "serves demo_sitemaps demo_tree"
  "depth demo_tree < 2"
  "root_url demo_tree = ascii ''https://site.com/sitemap.xml''"
  "flatten demo_tree = Inr [url_a, url_b, url_b, url_c]"
  "SITEMAP_URL sitemap_config = Some (ascii ''https://site.com/sitemap.xml'')"
  "ascii ''https://site.com/sitemap.xml'' \<noteq> []"
  "run_rows demo_world [url_a, url_b, url_b, url_c]
     = [Data (blank_page url_a), Failed url_b timeout_message, Failed url_c (status_message 404)]"
  by code_simp+

lemma demo_world_sitemaps: "sitemaps demo_world = demo_sitemaps"
  by (simp add: demo_world_def)

lemma demo_children_facts:
  "list_all (\<lambda>c. \<not> isl (flatten c))
     [PageList (ascii ''https://site.com/s1.xml'') [url_a, url_b],
      PageList (ascii ''https://site.com/s2.xml'') [url_b, url_c]]"
  "concat (map (\<lambda>c. projr (flatten c))
     [PageList (ascii ''https://site.com/s1.xml'') [url_a, url_b],
      PageList (ascii ''https://site.com/s2.xml'') [url_b, url_c]])
   = [url_a, url_b, url_b, url_c]"
  "list_all (\<lambda>c. \<not> isl (flatten c)) [PageList (ascii ''https://site.com/s1.xml'') [url_a, url_b]]"
  by simp_all

theorem sitemap_resolution_witness:
  "getUrlsFromSitemap 2 demo_sitemaps (ascii ''https://site.com/sitemap.xml'')
     = Some (Inr [url_a, url_b, url_b, url_c])
   \<and> main 2 demo_world sitemap_config
       = Some (Wrote
           [Data (blank_page url_a), Failed url_b timeout_message, Failed url_c (status_message 404)]
           (writeRecords headers
             [Data (blank_page url_a), Failed url_b timeout_message,
              Failed url_c (status_message 404)]))
   \<and> flatten (SitemapIndex (ascii ''https://site.com/sitemap.xml'')
         [PageList (ascii ''https://site.com/s1.xml'') [url_a, url_b],
          PageList (ascii ''https://site.com/s2.xml'') [url_b, url_c]])
       = Inr [url_a, url_b, url_b, url_c]
   \<and> flatten (SitemapIndex (ascii ''https://site.com/sitemap.xml'')
         ([PageList (ascii ''https://site.com/s1.xml'') [url_a, url_b]]
          @ Unusable (ascii ''https://site.com/s2.xml'') UnknownSitemapFormat
          # [PageList (ascii ''https://site.com/s3.xml'') [url_c]]))
       = Inl UnknownSitemapFormat"
proof -
  note inst = sitemap_resolution [of demo_sitemaps demo_tree 2 demo_world sitemap_config
      "ascii ''https://site.com/sitemap.xml''" "[]"
      "[PageList (ascii ''https://site.com/s1.xml'') [url_a, url_b],
        PageList (ascii ''https://site.com/s2.xml'') [url_b, url_c]]"
      "[PageList (ascii ''https://site.com/s1.xml'') [url_a, url_b]]"
      "Unusable (ascii ''https://site.com/s2.xml'') UnknownSitemapFormat"
      UnknownSitemapFormat
      "[PageList (ascii ''https://site.com/s3.xml'') [url_c]]"]
  have run: "getUrlsFromSitemap 2 demo_sitemaps (ascii ''https://site.com/sitemap.xml'')
     = Some (Inr [url_a, url_b, url_b, url_c])
   \<and> main 2 demo_world sitemap_config
       = Some (Wrote
           [Data (blank_page url_a), Failed url_b timeout_message, Failed url_c (status_message 404)]
           (writeRecords headers
             [Data (blank_page url_a), Failed url_b timeout_message,
              Failed url_c (status_message 404)]))"
    using inst by (simp add: demo_tree_facts demo_world_sitemaps)
  have all: "flatten (SitemapIndex (ascii ''https://site.com/sitemap.xml'')
         [PageList (ascii ''https://site.com/s1.xml'') [url_a, url_b],
          PageList (ascii ''https://site.com/s2.xml'') [url_b, url_c]])
       = Inr [url_a, url_b, url_b, url_c]"
    using inst demo_children_facts(1) unfolding demo_children_facts(2) by blast
  have err: "flatten (SitemapIndex (ascii ''https://site.com/sitemap.xml'')
         ([PageList (ascii ''https://site.com/s1.xml'') [url_a, url_b]]
          @ Unusable (ascii ''https://site.com/s2.xml'') UnknownSitemapFormat
          # [PageList (ascii ''https://site.com/s3.xml'') [url_c]]))
       = Inl UnknownSitemapFormat"
    using inst demo_children_facts(3) by force
  show ?thesis
    using run all err by blast
qed

text \<open>
  A sitemap index that lists itself: with whatever fuel, the resolution has not
  returned, and neither has \<open>main\<close>. And two documents that no hierarchy of
  \<open>serves\<close> holds: an index whose second child is a page list without entries
  (\<open><urlset></urlset>\<close>) ends the run with the unknown-format error, although the
  first child lists two pages; a sitemap with a blank body fails with a TypeError.
\<close>

theorem sitemap_cycle_counterexample:
  "loop_web (ascii ''https://site.com/sitemap.xml'')
     = Inr (Root (ascii ''sitemapindex'') None (Some [Some [ascii ''https://site.com/sitemap.xml'']]))
   \<and> (\<forall>n. getUrlsFromSitemap n loop_web (ascii ''https://site.com/sitemap.xml'') = None)
   \<and> (\<forall>n. main n (demo_world \<lparr> sitemaps := loop_web \<rparr>) sitemap_config = None)
   \<and> faulty_sitemaps (ascii ''https://site.com/s2.xml'') = Inr (Root (ascii ''urlset'') None None)
   \<and> getUrlsFromSitemap 2 faulty_sitemaps (ascii ''https://site.com/sitemap.xml'')
       = Some (Inl UnknownSitemapFormat)
   \<and> main 2 (demo_world \<lparr> sitemaps := faulty_sitemaps \<rparr>) sitemap_config
       = Some (Exit1 (message UnknownSitemapFormat))
   \<and> faulty_sitemaps (ascii ''https://site.com/s3.xml'') = Inr NullDocument
   \<and> getUrlsFromSitemap 1 faulty_sitemaps (ascii ''https://site.com/s3.xml'')
       = Some (Inl NullTypeError)"
proof -
  have "ascii ''https://site.com/sitemap.xml'' \<noteq> []"
    by (simp add: ascii_def)
  then have m: "main n (demo_world \<lparr> sitemaps := loop_web \<rparr>) sitemap_config = None" for n
    using loop_web_never_returns [of n]
    by (simp add: main_def source_urls_def sitemap_config_def)
  have cycle: "loop_web (ascii ''https://site.com/sitemap.xml'')
     = Inr (Root (ascii ''sitemapindex'') None (Some [Some [ascii ''https://site.com/sitemap.xml'']]))"
    by (simp add: loop_web_def)
  have never: "\<forall>n. getUrlsFromSitemap n loop_web (ascii ''https://site.com/sitemap.xml'') = None"
    using loop_web_never_returns by blast
  have never_main: "\<forall>n. main n (demo_world \<lparr> sitemaps := loop_web \<rparr>) sitemap_config = None"
    using m by blast
  have faulty: "faulty_sitemaps (ascii ''https://site.com/s2.xml'') = Inr (Root (ascii ''urlset'') None None)"
    "getUrlsFromSitemap 2 faulty_sitemaps (ascii ''https://site.com/sitemap.xml'')
       = Some (Inl UnknownSitemapFormat)"
    "main 2 (demo_world \<lparr> sitemaps := faulty_sitemaps \<rparr>) sitemap_config
       = Some (Exit1 (message UnknownSitemapFormat))"
    "faulty_sitemaps (ascii ''https://site.com/s3.xml'') = Inr NullDocument"
    "getUrlsFromSitemap 1 faulty_sitemaps (ascii ''https://site.com/s3.xml'')
       = Some (Inl NullTypeError)"
    by code_simp+
  show ?thesis
    by (intro conjI) (rule cycle never never_main faulty)+
qed

end
